(* ===== verification/Prelude.thy ===== *)
theory Prelude
  imports Main "HOL-Library.Finite_Map"
begin

text \<open>
  Shared vocabulary of the development: Go error values and their chains, the three ways a Go
  call can end (a result, an error, a panic), programs as state transformers over an arbitrary
  state, the two judgements every component uses (\<open>emits\<close>: which events a program
  may append to a trace; \<open>triple\<close>: a Hoare triple with one postcondition for results
  and one for errors), and a few generic lemmas.
\<close>

named_theorems emits_intros \<open>rules for the emits judgement\<close>
named_theorems triple_intros \<open>rules for Hoare triples\<close>
named_theorems no_panic_intros \<open>rules for the absence of panics\<close>
named_theorems prog_simps \<open>unfolding of the program combinators\<close>

section \<open>Go error values\<close>

text \<open>
  An \<open>error\<close> is a chain: \<open>Wrap p e s\<close> is \<open>fmt.Errorf("p%ws", e)\<close>, which keeps
  \<open>e\<close> reachable for \<open>errors.Is\<close> and \<open>errors.As\<close>; \<open>Plain\<close> is
  \<open>errors.New\<close> or an \<open>Errorf\<close> without \<open>%w\<close>. \<open>StatusError code reason msg\<close>
  is a Kubernetes API status error, \<open>NetError timeout temporary msg\<close> a value that implements
  \<open>net.Error\<close>.
\<close>

datatype err =
    Canceled
  | DeadlineExceeded
  | StatusError int string string
  | NetError bool bool string
  | Plain string
  | CompositionStillExist
  | Wrap string err string

fun err_msg :: "err \<Rightarrow> string" where
  "err_msg Canceled = ''context canceled''"
| "err_msg DeadlineExceeded = ''context deadline exceeded''"
| "err_msg (StatusError c r m) = m"
| "err_msg (NetError t p m) = m"
| "err_msg (Plain m) = m"
| "err_msg CompositionStillExist = ''compositions still exist''"
| "err_msg (Wrap p e s) = p @ err_msg e @ s"

text \<open>\<open>errors.Is\<close>: some error of the chain equals the target.\<close>

fun errors_is :: "err \<Rightarrow> err \<Rightarrow> bool" where
  "errors_is (Wrap p e s) t = (Wrap p e s = t \<or> errors_is e t)"
| "errors_is e t = (e = t)"

text \<open>
  \<open>errors.As\<close> to a \<open>net.Error\<close>: the first error of the chain that implements the
  interface, as its \<open>(Timeout, Temporary)\<close> answers. \<open>context.DeadlineExceeded\<close> does.
\<close>

fun as_net_error :: "err \<Rightarrow> (bool \<times> bool) option" where
  "as_net_error (NetError t p m) = Some (t, p)"
| "as_net_error DeadlineExceeded = Some (True, True)"
| "as_net_error (Wrap p e s) = as_net_error e"
| "as_net_error e = None"

text \<open>The direct type assertion \<open>err.(*apierrors.StatusError)\<close> does not look through wrapping.\<close>

fun status_code :: "err \<Rightarrow> int option" where
  "status_code (StatusError c r m) = Some c"
| "status_code e = None"

lemma errors_is_Wrap_leaf [simp]:
  "errors_is (Wrap p e s) Canceled = errors_is e Canceled"
  "errors_is (Wrap p e s) DeadlineExceeded = errors_is e DeadlineExceeded"
  "errors_is (Wrap p e s) CompositionStillExist = errors_is e CompositionStillExist"
  by simp_all

section \<open>Outcomes and programs\<close>

datatype 'a outcome = Ok 'a | Err err | Panic string

definition outcome_of :: "err + 'a \<Rightarrow> 'a outcome" where
  "outcome_of r = (case r of Inl e \<Rightarrow> Err e | Inr x \<Rightarrow> Ok x)"

lemma outcome_of_simps [simp]: "outcome_of (Inl e) = Err e" "outcome_of (Inr x) = Ok x"
  by (simp_all add: outcome_of_def)

lemma outcome_of_eq_simps [simp]:
  "outcome_of r = Ok x \<longleftrightarrow> r = Inr x" "outcome_of r = Err e \<longleftrightarrow> r = Inl e"
  "outcome_of r \<noteq> Panic s"
  by (cases r; simp)+

lemma case_outcome_of [simp]:
  "(case outcome_of r of Ok x \<Rightarrow> f x | Err e \<Rightarrow> g e | Panic s \<Rightarrow> h s) =
   (case r of Inl e \<Rightarrow> g e | Inr x \<Rightarrow> f x)"
  by (cases r) simp_all

text \<open>
  A program over state \<open>'w\<close>. The state survives errors and panics: what was done before
  the failure stays done.
\<close>

type_synonym ('w, 'a) prog = "'w \<Rightarrow> 'a outcome \<times> 'w"

definition returnP :: "'a \<Rightarrow> ('w, 'a) prog" where
  "returnP x = (\<lambda>w. (Ok x, w))"

definition failP :: "err \<Rightarrow> ('w, 'a) prog" where
  "failP e = (\<lambda>w. (Err e, w))"

definition panicP :: "string \<Rightarrow> ('w, 'a) prog" where
  "panicP s = (\<lambda>w. (Panic s, w))"

definition thenP :: "('w, 'a) prog \<Rightarrow> ('a \<Rightarrow> ('w, 'b) prog) \<Rightarrow> ('w, 'b) prog" where
  "thenP m k = (\<lambda>w. case m w of
       (Ok x, w') \<Rightarrow> k x w'
     | (Err e, w') \<Rightarrow> (Err e, w')
     | (Panic s, w') \<Rightarrow> (Panic s, w'))"

text \<open>\<open>x, err := m\<close> where the code then inspects \<open>err\<close>; a panic is not caught.\<close>

definition tryP :: "('w, 'a) prog \<Rightarrow> ('w, err + 'a) prog" where
  "tryP m = (\<lambda>w. case m w of
       (Ok x, w') \<Rightarrow> (Ok (Inr x), w')
     | (Err e, w') \<Rightarrow> (Ok (Inl e), w')
     | (Panic s, w') \<Rightarrow> (Panic s, w'))"

text \<open>\<open>if err != nil { return f(err) }\<close>.\<close>

definition onErr :: "(err \<Rightarrow> err) \<Rightarrow> ('w, 'a) prog \<Rightarrow> ('w, 'a) prog" where
  "onErr f m = (\<lambda>w. case m w of
       (Ok x, w') \<Rightarrow> (Ok x, w')
     | (Err e, w') \<Rightarrow> (Err (f e), w')
     | (Panic s, w') \<Rightarrow> (Panic s, w'))"

abbreviation wrapping :: "string \<Rightarrow> ('w, 'a) prog \<Rightarrow> ('w, 'a) prog" where
  "wrapping p m \<equiv> onErr (\<lambda>e. Wrap p e '''') m"

definition liftSum :: "err + 'a \<Rightarrow> ('w, 'a) prog" where
  "liftSum r = (case r of Inl e \<Rightarrow> failP e | Inr x \<Rightarrow> returnP x)"

text \<open>A pure call that may fail or panic.\<close>

definition liftOutcome :: "'a outcome \<Rightarrow> ('w, 'a) prog" where
  "liftOutcome r = (\<lambda>w. (r, w))"

definition whenP :: "bool \<Rightarrow> ('w, unit) prog \<Rightarrow> ('w, unit) prog" where
  "whenP b m = (if b then m else returnP ())"

fun foreachP :: "'a list \<Rightarrow> ('a \<Rightarrow> ('w, unit) prog) \<Rightarrow> ('w, unit) prog" where
  "foreachP [] f = returnP ()"
| "foreachP (x # xs) f = thenP (f x) (\<lambda>_. foreachP xs f)"

text \<open>A program on the outer state \<open>'w\<close> run beside a captured variable \<open>'c\<close>.\<close>

definition besideP :: "('w, 'a) prog \<Rightarrow> ('c \<times> 'w, 'a) prog" where
  "besideP m = (\<lambda>(c, w). case m w of (r, w') \<Rightarrow> (r, (c, w')))"

definition getVar :: "('c \<times> 'w, 'c) prog" where
  "getVar = (\<lambda>(c, w). (Ok c, (c, w)))"

definition setVar :: "'c \<Rightarrow> ('c \<times> 'w, unit) prog" where
  "setVar c' = (\<lambda>(c, w). (Ok (), (c', w)))"

lemmas prog_defs = returnP_def failP_def panicP_def thenP_def tryP_def onErr_def liftSum_def liftOutcome_def
  whenP_def besideP_def getVar_def setVar_def

lemma returnP_apply [simp, prog_simps]: "returnP x w = (Ok x, w)"
  by (simp add: returnP_def)

lemma failP_apply [simp, prog_simps]: "failP e w = (Err e, w)"
  by (simp add: failP_def)

lemma panicP_apply [simp, prog_simps]: "panicP s w = (Panic s, w)"
  by (simp add: panicP_def)

lemma thenP_returnP [simp]: "thenP (returnP x) k = k x"
  by (simp add: thenP_def returnP_def)

lemma thenP_failP [simp]: "thenP (failP e) k = failP e"
  by (simp add: thenP_def failP_def)

lemma thenP_panicP [simp]: "thenP (panicP s) k = panicP s"
  by (simp add: thenP_def panicP_def)

lemma thenP_Ok: "m w = (Ok x, w') \<Longrightarrow> thenP m k w = k x w'"
  by (simp add: thenP_def)

lemma thenP_Err: "m w = (Err e, w') \<Longrightarrow> thenP m k w = (Err e, w')"
  by (simp add: thenP_def)

lemma thenP_Panic: "m w = (Panic s, w') \<Longrightarrow> thenP m k w = (Panic s, w')"
  by (simp add: thenP_def)

lemma tryP_Ok: "m w = (Ok x, w') \<Longrightarrow> tryP m w = (Ok (Inr x), w')"
  by (simp add: tryP_def)

lemma tryP_Err: "m w = (Err e, w') \<Longrightarrow> tryP m w = (Ok (Inl e), w')"
  by (simp add: tryP_def)

lemma onErr_Ok: "m w = (Ok x, w') \<Longrightarrow> onErr f m w = (Ok x, w')"
  by (simp add: onErr_def)

lemma onErr_Err: "m w = (Err e, w') \<Longrightarrow> onErr f m w = (Err (f e), w')"
  by (simp add: onErr_def)

lemma thenP_assoc: "thenP (thenP m k) h = thenP m (\<lambda>x. thenP (k x) h)"
  by (rule ext) (simp add: thenP_def split: prod.split outcome.split)

lemma thenP_returnP_right [simp]: "thenP m returnP = m" "thenP m (\<lambda>x. returnP x) = m"
  by (rule ext, simp add: thenP_def split: prod.split outcome.split)+

lemma thenP_Pair [simp]: "thenP m (\<lambda>x. Pair (Ok x)) = m" "thenP (Pair (Ok x)) k = k x"
  by (rule ext, simp add: thenP_def split: prod.split outcome.split)+

lemma onErr_id [simp]: "onErr (\<lambda>e. e) m = m"
  by (rule ext) (simp add: onErr_def split: prod.split outcome.split)

lemma thenP_Ok_iff:
  "thenP m k w = (Ok y, w2) \<longleftrightarrow> (\<exists>x w1. m w = (Ok x, w1) \<and> k x w1 = (Ok y, w2))"
  by (auto simp: thenP_def split: prod.splits outcome.splits)

lemma onErr_Ok_iff: "onErr f m w = (Ok y, w2) \<longleftrightarrow> m w = (Ok y, w2)"
  by (auto simp: onErr_def split: prod.splits outcome.splits)

lemma liftSum_Ok_iff: "liftSum r w = (Ok y, w2) \<longleftrightarrow> r = Inr y \<and> w2 = w"
  by (auto simp: liftSum_def returnP_def failP_def split: sum.splits)

lemma liftOutcome_Ok_iff: "liftOutcome r w = (Ok y, w2) \<longleftrightarrow> r = Ok y \<and> w2 = w"
  by (auto simp: liftOutcome_def)

lemma besideP_Ok_iff:
  "besideP m (c, w) = (Ok y, s) \<longleftrightarrow> (\<exists>w'. m w = (Ok y, w') \<and> s = (c, w'))"
  by (auto simp: besideP_def split: prod.splits)

lemmas ok_iffs = thenP_Ok_iff onErr_Ok_iff liftSum_Ok_iff liftOutcome_Ok_iff besideP_Ok_iff

section \<open>Which events a program may append\<close>

text \<open>
  \<open>emits tr A m\<close>: run from any state, \<open>m\<close> only appends to the trace \<open>tr\<close> and what it
  appends lies in \<open>A\<close>, whatever the environment answers and however the program ends.
\<close>

definition emits :: "('w \<Rightarrow> 'e list) \<Rightarrow> 'e set \<Rightarrow> ('w, 'a) prog \<Rightarrow> bool" where
  "emits tr A m \<longleftrightarrow> (\<forall>w. \<exists>es. tr (snd (m w)) = tr w @ es \<and> set es \<subseteq> A)"

lemma emitsI: "(\<And>w. \<exists>es. tr (snd (m w)) = tr w @ es \<and> set es \<subseteq> A) \<Longrightarrow> emits tr A m"
  by (simp add: emits_def)

lemma emitsD: "emits tr A m \<Longrightarrow> m w = (r, w') \<Longrightarrow> \<exists>es. tr w' = tr w @ es \<and> set es \<subseteq> A"
  unfolding emits_def by (metis snd_conv)

lemma emits_returnP [emits_intros]: "emits tr A (returnP x)"
  by (simp add: emits_def)

lemma emits_failP [emits_intros]: "emits tr A (failP e)"
  by (simp add: emits_def)

lemma emits_panicP [emits_intros]: "emits tr A (panicP s)"
  by (simp add: emits_def)

lemma emits_liftSum [emits_intros]: "emits tr A (liftSum r)"
  by (cases r) (simp_all add: liftSum_def emits_def)

lemma emits_liftOutcome [emits_intros]: "emits tr A (liftOutcome r)"
  by (simp add: liftOutcome_def emits_def)

lemma emits_thenP [emits_intros]:
  assumes "emits tr A m" and "\<And>x. emits tr A (k x)"
  shows "emits tr A (thenP m k)"
proof (rule emitsI)
  fix w
  obtain r w1 where m: "m w = (r, w1)" by fastforce
  from emitsD [OF assms(1) m] obtain es where es: "tr w1 = tr w @ es" "set es \<subseteq> A" by blast
  show "\<exists>es. tr (snd (thenP m k w)) = tr w @ es \<and> set es \<subseteq> A"
  proof (cases r)
    case (Ok x)
    obtain r2 w2 where k: "k x w1 = (r2, w2)" by fastforce
    from emitsD [OF assms(2) k] obtain fs where "tr w2 = tr w1 @ fs" "set fs \<subseteq> A" by blast
    with es m Ok k show ?thesis by (intro exI [of _ "es @ fs"]) (simp add: thenP_def)
  qed (use es m in \<open>auto simp: thenP_def\<close>)
qed

lemma snd_tryP [simp]: "snd (tryP m w) = snd (m w)"
  by (simp add: tryP_def split: prod.split outcome.split)

lemma snd_onErr [simp]: "snd (onErr f m w) = snd (m w)"
  by (simp add: onErr_def split: prod.split outcome.split)

lemma emits_tryP [emits_intros]: "emits tr A m \<Longrightarrow> emits tr A (tryP m)"
  by (simp add: emits_def)

lemma emits_onErr [emits_intros]: "emits tr A m \<Longrightarrow> emits tr A (onErr f m)"
  by (simp add: emits_def)

lemma emits_whenP [emits_intros]: "(b \<Longrightarrow> emits tr A m) \<Longrightarrow> emits tr A (whenP b m)"
  by (simp add: whenP_def emits_returnP)

lemma emits_if [emits_intros]:
  "(b \<Longrightarrow> emits tr A m) \<Longrightarrow> (\<not> b \<Longrightarrow> emits tr A n) \<Longrightarrow> emits tr A (if b then m else n)"
  by simp

lemma emits_case_sum [emits_intros]:
  "(\<And>e. r = Inl e \<Longrightarrow> emits tr A (f e)) \<Longrightarrow> (\<And>x. r = Inr x \<Longrightarrow> emits tr A (g x))
   \<Longrightarrow> emits tr A (case r of Inl e \<Rightarrow> f e | Inr x \<Rightarrow> g x)"
  by (cases r) simp_all

lemma emits_case_option [emits_intros]:
  "(r = None \<Longrightarrow> emits tr A n) \<Longrightarrow> (\<And>x. r = Some x \<Longrightarrow> emits tr A (g x))
   \<Longrightarrow> emits tr A (case r of None \<Rightarrow> n | Some x \<Rightarrow> g x)"
  by (cases r) simp_all

lemma emits_case_prod [emits_intros]:
  "(\<And>a b. p = (a, b) \<Longrightarrow> emits tr A (f a b)) \<Longrightarrow> emits tr A (case p of (a, b) \<Rightarrow> f a b)"
  by (cases p) simp

lemma emits_Let [emits_intros]: "emits tr A (f x) \<Longrightarrow> emits tr A (let y = x in f y)"
  by simp

lemma emits_foreachP [emits_intros]:
  "(\<And>x. x \<in> set xs \<Longrightarrow> emits tr A (f x)) \<Longrightarrow> emits tr A (foreachP xs f)"
  by (induction xs) (simp_all add: emits_returnP emits_thenP)

lemma emits_besideP [emits_intros]: "emits tr A m \<Longrightarrow> emits (\<lambda>s. tr (snd s)) A (besideP m)"
  by (auto simp: emits_def besideP_def split_beta)

lemma emits_getVar [emits_intros]: "emits (\<lambda>s. tr (snd s)) A getVar"
  by (auto simp: emits_def getVar_def)

lemma emits_setVar [emits_intros]: "emits (\<lambda>s. tr (snd s)) A (setVar c)"
  by (auto simp: emits_def setVar_def)

lemma emits_mono: "emits tr A m \<Longrightarrow> A \<subseteq> B \<Longrightarrow> emits tr B m"
  unfolding emits_def by (meson order_trans)

text \<open>What is known of every result of a program, and using it for the rest of a sequence.\<close>

definition yields :: "('a \<Rightarrow> bool) \<Rightarrow> ('w, 'a) prog \<Rightarrow> bool" where
  "yields P m \<longleftrightarrow> (\<forall>w x w'. m w = (Ok x, w') \<longrightarrow> P x)"

lemma yieldsD: "yields P m \<Longrightarrow> m w = (Ok x, w') \<Longrightarrow> P x"
  by (auto simp: yields_def)

lemma yields_mono: "yields P m \<Longrightarrow> (\<And>x. P x \<Longrightarrow> Q x) \<Longrightarrow> yields Q m"
  by (auto simp: yields_def)

lemma yields_onErr: "yields P m \<Longrightarrow> yields P (onErr f m)"
  by (simp add: yields_def onErr_Ok_iff)

lemma emits_thenP_yields:
  assumes m: "emits tr A m" and y: "yields P m" and k: "\<And>x. P x \<Longrightarrow> emits tr A (k x)"
  shows "emits tr A (thenP m k)"
proof -
  have "thenP m k = thenP m (\<lambda>x. if P x then k x else returnP undefined)"
    using y by (intro ext) (auto simp: thenP_def yields_def split: prod.split outcome.split)
  moreover have "emits tr A (thenP m (\<lambda>x. if P x then k x else returnP undefined))"
    using m k by (intro emits_thenP) (auto intro: emits_returnP)
  ultimately show ?thesis by simp
qed

section \<open>Hoare triples\<close>

text \<open>
  \<open>triple P m Q R\<close>: from a state satisfying \<open>P\<close>, a result satisfies \<open>Q\<close> and an error
  \<open>R\<close>. Panics are unconstrained here and treated by \<open>no_panic\<close>.
\<close>

definition triple ::
  "('w \<Rightarrow> bool) \<Rightarrow> ('w, 'a) prog \<Rightarrow> ('a \<Rightarrow> 'w \<Rightarrow> bool) \<Rightarrow> (err \<Rightarrow> 'w \<Rightarrow> bool) \<Rightarrow> bool" where
  "triple P m Q R \<longleftrightarrow> (\<forall>w. P w \<longrightarrow>
     (\<forall>x w'. m w = (Ok x, w') \<longrightarrow> Q x w') \<and> (\<forall>e w'. m w = (Err e, w') \<longrightarrow> R e w'))"

definition no_panic :: "('w, 'a) prog \<Rightarrow> bool" where
  "no_panic m \<longleftrightarrow> (\<forall>w s. fst (m w) \<noteq> Panic s)"

lemma tripleI:
  "(\<And>w x w'. P w \<Longrightarrow> m w = (Ok x, w') \<Longrightarrow> Q x w') \<Longrightarrow>
   (\<And>w e w'. P w \<Longrightarrow> m w = (Err e, w') \<Longrightarrow> R e w') \<Longrightarrow> triple P m Q R"
  by (simp add: triple_def)

lemma tripleD_Ok: "triple P m Q R \<Longrightarrow> P w \<Longrightarrow> m w = (Ok x, w') \<Longrightarrow> Q x w'"
  by (simp add: triple_def)

lemma tripleD_Err: "triple P m Q R \<Longrightarrow> P w \<Longrightarrow> m w = (Err e, w') \<Longrightarrow> R e w'"
  by (simp add: triple_def)

lemma triple_returnP [triple_intros]: "triple (Q x) (returnP x) Q R"
  by (simp add: triple_def)

lemma triple_failP [triple_intros]: "triple (R e) (failP e) Q R"
  by (simp add: triple_def)

lemma triple_thenP:
  assumes "triple P m Q1 R" and "\<And>x. triple (Q1 x) (k x) Q R"
  shows "triple P (thenP m k) Q R"
  using assms by (fastforce simp: triple_def thenP_def split: prod.splits outcome.splits)

lemma triple_weaken:
  "triple P m Q R \<Longrightarrow> (\<And>w. P' w \<Longrightarrow> P w) \<Longrightarrow> (\<And>x w. Q x w \<Longrightarrow> Q' x w) \<Longrightarrow>
   (\<And>e w. R e w \<Longrightarrow> R' e w) \<Longrightarrow> triple P' m Q' R'"
  by (force simp: triple_def)

text \<open>
  Stepping over calls made beside a variable: they leave it alone, and what they returned is known to
  the rest.
\<close>

lemma triple_step:
  assumes k: "\<And>x w w'. m w = (Ok x, w') \<Longrightarrow> triple (\<lambda>s. fst s = c) (k x) Q R"
    and e: "\<And>e s. fst s = c \<Longrightarrow> R e s"
  shows "triple (\<lambda>s. fst s = c) (thenP (besideP m) k) Q R"
proof (rule tripleI)
  fix s x s'
  assume "fst s = c" "thenP (besideP m) k s = (Ok x, s')"
  then obtain y w' where "m (snd s) = (Ok y, w')" "k y (c, w') = (Ok x, s')"
    by (cases s) (auto simp: ok_iffs)
  then show "Q x s'" using tripleD_Ok [OF k, of "snd s" y w' "(c, w')"] by simp
next
  fix s err s'
  assume s: "fst s = c" "thenP (besideP m) k s = (Err err, s')"
  obtain w where w: "s = (c, w)" using s(1) by (cases s) auto
  obtain r w' where m: "m w = (r, w')" by fastforce
  show "R err s'"
  proof (cases r)
    case (Ok x)
    with s(2) w m have "k x (c, w') = (Err err, s')" by (simp add: thenP_def besideP_def)
    with tripleD_Err [OF k, of w x w' "(c, w')"] m Ok show ?thesis by simp
  qed (use s w m e in \<open>auto simp: thenP_def besideP_def\<close>)
qed

lemma triple_last:
  assumes "\<And>x w w'. m w = (Ok x, w') \<Longrightarrow> Q x (c, w')" and "\<And>e s. fst s = c \<Longrightarrow> R e s"
  shows "triple (\<lambda>s. fst s = c) (besideP m) Q R"
  using assms by (auto simp: triple_def besideP_def split: prod.splits)

lemma triple_getVar: "triple (\<lambda>s. fst s = c) (k c) Q R \<Longrightarrow> triple (\<lambda>s. fst s = c) (thenP getVar k) Q R"
  by (auto simp: triple_def thenP_def getVar_def)

lemma triple_setVar: "triple (\<lambda>s. fst s = c2) (k ()) Q R \<Longrightarrow>
   triple (\<lambda>s. fst s = c) (thenP (setVar c2) k) Q R"
  by (auto simp: triple_def thenP_def setVar_def)

lemma triple_end: "(\<And>w. Q () (c2, w)) \<Longrightarrow> triple (\<lambda>s. fst s = c) (setVar c2) Q R"
  "(\<And>s. fst s = c \<Longrightarrow> Q' x s) \<Longrightarrow> triple (\<lambda>s. fst s = c) (returnP x) Q' R'"
  "(\<And>s. fst s = c \<Longrightarrow> R e s) \<Longrightarrow> triple (\<lambda>s. fst s = c) (failP e) Q R"
  by (auto simp: triple_def setVar_def)

section \<open>Programs that do not panic\<close>

lemma no_panicD: "no_panic m \<Longrightarrow> m w \<noteq> (Panic s, w')"
  unfolding no_panic_def by (metis fst_conv)

lemma no_panicE: "m w = (Panic s, w') \<Longrightarrow> no_panic m \<Longrightarrow> False"
  using no_panicD by metis

lemma no_panic_leaf [no_panic_intros]:
  "no_panic (returnP x)" "no_panic (failP e)" "no_panic (liftSum r)"
  by (cases r; simp add: no_panic_def liftSum_def)+

lemma no_panic_thenP [no_panic_intros]:
  "no_panic m \<Longrightarrow> (\<And>x. no_panic (k x)) \<Longrightarrow> no_panic (thenP m k)"
  unfolding no_panic_def thenP_def by (auto split: prod.split outcome.split) (metis fst_conv)+

lemma no_panic_tryP [no_panic_intros]: "no_panic m \<Longrightarrow> no_panic (tryP m)"
  unfolding no_panic_def tryP_def by (auto split: prod.split outcome.split) (metis fst_conv)

lemma no_panic_onErr [no_panic_intros]: "no_panic m \<Longrightarrow> no_panic (onErr f m)"
  unfolding no_panic_def onErr_def by (auto split: prod.split outcome.split) (metis fst_conv)

lemma no_panic_whenP [no_panic_intros]: "(b \<Longrightarrow> no_panic m) \<Longrightarrow> no_panic (whenP b m)"
  by (simp add: whenP_def no_panic_intros)

lemma no_panic_if [no_panic_intros]:
  "(b \<Longrightarrow> no_panic m) \<Longrightarrow> (\<not> b \<Longrightarrow> no_panic n) \<Longrightarrow> no_panic (if b then m else n)"
  by simp

lemma no_panic_case_sum [no_panic_intros]:
  "(\<And>e. r = Inl e \<Longrightarrow> no_panic (f e)) \<Longrightarrow> (\<And>x. r = Inr x \<Longrightarrow> no_panic (g x)) \<Longrightarrow>
   no_panic (case r of Inl e \<Rightarrow> f e | Inr x \<Rightarrow> g x)"
  by (cases r) simp_all

lemma no_panic_case_option [no_panic_intros]:
  "(r = None \<Longrightarrow> no_panic n) \<Longrightarrow> (\<And>x. r = Some x \<Longrightarrow> no_panic (g x)) \<Longrightarrow>
   no_panic (case r of None \<Rightarrow> n | Some x \<Rightarrow> g x)"
  by (cases r) simp_all

lemma no_panic_case_prod [no_panic_intros]:
  "(\<And>a b. p = (a, b) \<Longrightarrow> no_panic (f a b)) \<Longrightarrow> no_panic (case p of (a, b) \<Rightarrow> f a b)"
  by (cases p) simp

lemma no_panic_foreachP [no_panic_intros]:
  "(\<And>x. x \<in> set xs \<Longrightarrow> no_panic (f x)) \<Longrightarrow> no_panic (foreachP xs f)"
  by (induction xs) (simp_all add: no_panic_intros)

lemma no_panic_besideP [no_panic_intros]: "no_panic m \<Longrightarrow> no_panic (besideP m)"
  by (auto simp: no_panic_def besideP_def split: prod.split) (metis fst_conv)

lemma no_panic_vars [no_panic_intros]: "no_panic getVar" "no_panic (setVar c)"
  by (auto simp: no_panic_def getVar_def setVar_def)

section \<open>Generic lemmas\<close>

lemma map_sum_Inr: "map_sum id f r = Inr x \<longleftrightarrow> (\<exists>y. r = Inr y \<and> x = f y)"
  by (cases r) auto

lemma fmupd_same: "fmlookup m k = Some v \<Longrightarrow> fmupd k v m = m"
  by (rule fmap_ext) auto

text \<open>The first element of a list with a property, as the \<open>for ... break\<close> search loops do.\<close>

fun find_index :: "('a \<Rightarrow> bool) \<Rightarrow> 'a list \<Rightarrow> nat option" where
  "find_index p [] = None"
| "find_index p (x # xs) = (if p x then Some 0 else map_option Suc (find_index p xs))"

lemma find_index_Some:
  "find_index p xs = Some i \<Longrightarrow> i < length xs \<and> p (xs ! i) \<and> (\<forall>j < i. \<not> p (xs ! j))"
proof (induction xs arbitrary: i)
  case (Cons x xs)
  show ?case
  proof (cases "p x")
    case False
    with Cons.prems obtain j where j: "find_index p xs = Some j" "i = Suc j" by auto
    with Cons.IH [OF j(1)] False show ?thesis by (auto simp: less_Suc_eq_0_disj)
  qed (use Cons.prems in auto)
qed simp

lemma find_index_None: "find_index p xs = None \<longleftrightarrow> (\<forall>x \<in> set xs. \<not> p x)"
  by (induction xs) auto

end
