(* ===== verification/Api_Types.thy ===== *)
theory Api_Types
  imports Prelude
begin

text \<open>
  The data of the program: dynamic (unstructured) values, group/version/kind triples, OpenAPI
  schemas, CustomResourceDefinitions, the objects of the CDC bundle, and the CompositionDefinition
  API type of \<open>apis/compositiondefinitions/v1alpha1/types.go\<close>. A pointer that the code compares
  with nil is an \<open>option\<close>; a Go \<open>string\<close> or \<open>[]byte\<close> is a \<open>string\<close>.
\<close>

section \<open>Dynamic values\<close>

text \<open>
  The values of a Go \<open>interface{}\<close> holding decoded JSON. \<open>GFloat m e\<close> is the float64
  \<open>m * 2 powr e\<close>; \<open>GInt\<close> an int64.
\<close>

datatype gval =
    GNull
  | GBool bool
  | GInt int
  | GFloat int int
  | GStr string
  | GArr "gval list"
  | GObj "(string, gval) fmap"

type_synonym gmap = "(string, gval) fmap"

section \<open>Group, version, kind, resource\<close>

record gvk =
  gvk_group :: string
  gvk_version :: string
  gvk_kind :: string

record gvr =
  gvr_group :: string
  gvr_version :: string
  gvr_resource :: string

record group_resource =
  gr_group :: string
  gr_resource :: string

record group_kind =
  gk_group :: string
  gk_kind :: string

definition GroupResource :: "gvr \<Rightarrow> group_resource" where
  "GroupResource r = \<lparr>gr_group = gvr_group r, gr_resource = gvr_resource r\<rparr>"

text \<open>\<open>String()\<close> of a kind and of a resource.\<close>

definition gvk_String :: "gvk \<Rightarrow> string" where
  "gvk_String g = gvk_group g @ ''/'' @ gvk_version g @ '', Kind='' @ gvk_kind g"

definition gvr_String :: "gvr \<Rightarrow> string" where
  "gvr_String g = gvr_group g @ ''/'' @ gvr_version g @ '', Resource='' @ gvr_resource g"

record namespaced_name =
  nn_namespace :: string
  nn_name :: string

section \<open>Schemas and CustomResourceDefinitions\<close>

text \<open>
  \<open>apiextensionsv1.JSONSchemaProps\<close>, as far as the program reads or writes it. \<open>sc_props\<close> is the
  map \<open>Properties\<close> (nil or an association list: its order stands for the order in which Go
  happens to iterate it), \<open>sc_default\<close> the raw JSON text of \<open>Default\<close>, \<open>sc_items\<close> the pair of
  pointers \<open>Items\<close>, \<open>Items.Schema\<close>; everything the program never looks at is in \<open>sc_rest\<close>.
\<close>

datatype schema = Schema
  (sc_type: string)
  (sc_description: string)
  (sc_props: "(string \<times> schema) list option")
  (sc_default: "string option")
  (sc_items: "schema option option")
  (sc_minItems: "int option")
  (sc_preserve: "bool option")
  (sc_rest: gval)

text \<open>The program's reads of \<open>Properties\<close>: a nil map reads as empty.\<close>

definition props_of :: "schema \<Rightarrow> (string \<times> schema) list" where
  "props_of s = (case sc_props s of None \<Rightarrow> [] | Some ps \<Rightarrow> ps)"

definition lookup_prop :: "string \<Rightarrow> schema \<Rightarrow> schema option" where
  "lookup_prop k s = map_of (props_of s) k"

record crd_version =
  cv_name :: string
  cv_served :: bool
  cv_storage :: bool
  cv_schema :: "schema option option"

text \<open>
  \<open>cv_schema\<close> is \<open>Schema\<close> and inside it \<open>OpenAPIV3Schema\<close>; \<open>open_api\<close> is the condition
  \<open>v.Schema != nil && v.Schema.OpenAPIV3Schema != nil\<close> together with the schema it guards.
\<close>

definition open_api :: "crd_version \<Rightarrow> schema option" where
  "open_api v = (case cv_schema v of Some (Some s) \<Rightarrow> Some s | _ \<Rightarrow> None)"

record service_ref =
  sr_namespace :: string
  sr_name :: string
  sr_port :: "int option"
  sr_path :: "string option"

record client_config =
  cc_service :: "service_ref option"
  cc_caBundle :: "string option"

record webhook_conversion =
  wc_reviewVersions :: "string list"
  wc_clientConfig :: "client_config option"

record crd_conversion =
  cn_strategy :: string
  cn_webhook :: "webhook_conversion option"

text \<open>Spec and status conditions (type, status) of a CustomResourceDefinition.\<close>

record crd =
  crd_group :: string
  crd_kind :: string
  crd_plural :: string
  crd_versions :: "crd_version list"
  crd_conversion_of :: "crd_conversion option"
  crd_conditions :: "(string \<times> string) list"

section \<open>Cluster objects\<close>

text \<open>
  \<open>appsv1.Deployment\<close>: replicas (a nil-able int32) and pod template annotations (a nil-able map)
  are looked at by the program, the rest of the spec is carried along.
\<close>

record deployment_spec =
  ds_replicas :: "int option"
  ds_annotations :: "(string, string) fmap option"
  ds_rest :: gval

record deployment_status =
  dt_readyReplicas :: int
  dt_conditions :: "(string \<times> string) list"

text \<open>
  What distinguishes one object type from another, restricted to the fields the program uses:
  the rules of a Role or ClusterRole, subjects and role reference of a binding, data of a
  ConfigMap, spec of a Service, and so on. \<open>OtherBody\<close> is an object the program only carries.
\<close>

datatype obj_body =
    ServiceAccountBody
  | RulesBody gval
  | BindingBody gval gval
  | ConfigMapBody gval
  | DeploymentBody deployment_spec deployment_status
  | ServiceBody gval
  | CrdBody crd
  | OtherBody gval

record kobj =
  ko_kind :: string
  ko_apiVersion :: string
  ko_name :: string
  ko_namespace :: string
  ko_resourceVersion :: string
  ko_body :: obj_body

text \<open>The zero value \<open>T{}\<close> of an object type; the accessors read a zero field from it.\<close>

definition zero_obj :: kobj where
  "zero_obj = \<lparr>ko_kind = '''', ko_apiVersion = '''', ko_name = '''', ko_namespace = '''',
     ko_resourceVersion = '''', ko_body = OtherBody GNull\<rparr>"

text \<open>
  Decoding into a typed variable: the kind under which the client addresses an object is that of
  the Go type of the variable, whatever the decoded text says.
\<close>

definition typed :: "string \<Rightarrow> kobj \<Rightarrow> kobj" where
  "typed otype o1 = o1\<lparr>ko_kind := otype\<rparr>"

lemma typed_simps [simp]:
  "ko_kind (typed k o1) = k" "ko_body (typed k o1) = ko_body o1" "ko_name (typed k o1) = ko_name o1"
  "ko_namespace (typed k o1) = ko_namespace o1" "ko_apiVersion (typed k o1) = ko_apiVersion o1"
  "ko_resourceVersion (typed k o1) = ko_resourceVersion o1"
  by (simp_all add: typed_def)

definition obj_rules :: "kobj \<Rightarrow> gval" where
  "obj_rules o1 = (case ko_body o1 of RulesBody r \<Rightarrow> r | _ \<Rightarrow> GNull)"

definition obj_subjects :: "kobj \<Rightarrow> gval" where
  "obj_subjects o1 = (case ko_body o1 of BindingBody s r \<Rightarrow> s | _ \<Rightarrow> GNull)"

definition obj_roleRef :: "kobj \<Rightarrow> gval" where
  "obj_roleRef o1 = (case ko_body o1 of BindingBody s r \<Rightarrow> r | _ \<Rightarrow> GNull)"

definition obj_data :: "kobj \<Rightarrow> gval" where
  "obj_data o1 = (case ko_body o1 of ConfigMapBody d \<Rightarrow> d | _ \<Rightarrow> GNull)"

definition obj_svcSpec :: "kobj \<Rightarrow> gval" where
  "obj_svcSpec o1 = (case ko_body o1 of ServiceBody s \<Rightarrow> s | _ \<Rightarrow> GNull)"

definition zero_deployment_spec :: deployment_spec where
  "zero_deployment_spec = \<lparr>ds_replicas = None, ds_annotations = None, ds_rest = GNull\<rparr>"

definition obj_depSpec :: "kobj \<Rightarrow> deployment_spec" where
  "obj_depSpec o1 = (case ko_body o1 of DeploymentBody s t \<Rightarrow> s | _ \<Rightarrow> zero_deployment_spec)"

definition obj_crd :: "kobj \<Rightarrow> crd option" where
  "obj_crd o1 = (case ko_body o1 of CrdBody c \<Rightarrow> Some c | _ \<Rightarrow> None)"

text \<open>The CRD value of an object; the zero value when the body is of another type.\<close>

definition zero_crd :: crd where
  "zero_crd = \<lparr>crd_group = '''', crd_kind = '''', crd_plural = '''', crd_versions = [],
     crd_conversion_of = None, crd_conditions = []\<rparr>"

definition crd_of :: "kobj \<Rightarrow> crd" where
  "crd_of o1 = (case obj_crd o1 of Some c \<Rightarrow> c | None \<Rightarrow> zero_crd)"

definition with_crd :: "crd \<Rightarrow> kobj \<Rightarrow> kobj" where
  "with_crd c o1 = o1\<lparr>ko_body := CrdBody c\<rparr>"

lemmas obj_accessor_defs = obj_rules_def obj_subjects_def obj_roleRef_def obj_data_def
  obj_svcSpec_def obj_depSpec_def obj_crd_def

lemma crd_of_with [simp]: "crd_of (with_crd c o1) = c"
  by (simp add: crd_of_def with_crd_def obj_crd_def)

lemma with_crd_meta [simp]:
  "ko_name (with_crd c o1) = ko_name o1" "ko_kind (with_crd c o1) = ko_kind o1"
  "ko_namespace (with_crd c o1) = ko_namespace o1"
  by (simp_all add: with_crd_def)

section \<open>CompositionDefinition\<close>

record secret_ref =
  sk_name :: string
  sk_namespace :: string
  sk_key :: string

record credentials =
  cr_username :: string
  cr_passwordRef :: secret_ref

text \<open>\<open>ChartInfo\<close>, and \<open>ChartInfoProps\<close>, which has the same fields and is converted to it.\<close>

record chart_info =
  ci_url :: string
  ci_version :: string
  ci_repo :: string
  ci_insecureSkipVerifyTLS :: bool
  ci_credentials :: "credentials option"

record version_detail =
  vd_version :: string
  vd_served :: bool
  vd_stored :: bool
  vd_chart :: "chart_info option"

record managed =
  mg_versionInfo :: "version_detail list"
  mg_group :: string
  mg_kind :: string

text \<open>The condition constructors of provider-runtime that the program calls.\<close>

datatype condition = Unavailable string | Available | Deleting

record cd_status =
  cs_conditions :: gval
  cs_kind :: string
  cs_resource :: string
  cs_apiVersion :: string
  cs_managed :: managed
  cs_packageURL :: string
  cs_digest :: string

record comp_def =
  cd_name :: string
  cd_namespace :: string
  cd_labels :: "(string, string) fmap option"
  cd_deleted :: bool
  cd_chart :: "chart_info option"
  cd_status :: cd_status

end
