(* ===== verification/Runtime.thy ===== *)
theory Runtime
  imports Api_Types
begin

text \<open>
  Everything outside the repository that the program calls, as one record of functions \<open>'s env\<close>
  over an abstract environment state \<open>'s\<close>: the Kubernetes clients, template rendering and
  decoding, JSON encoding, the CRD generator, chart download, the clock. The world of a run is
  that state and the trace of calls made so far; each call appends one event and then asks the
  environment. Nothing here says how the environment answers: properties hold for every answer
  unless a hypothesis names what is assumed.
\<close>

section \<open>Calls\<close>

record apply_options =
  ao_dryRun :: "string list"
  ao_fieldManager :: string
  ao_fieldValidation :: string

record uninstall_options =
  uo_gracePeriodSeconds :: "int option"
  uo_preconditions :: "gval option"
  uo_propagationPolicy :: "string option"
  uo_dryRun :: "string list"

definition no_apply_options :: apply_options where
  "no_apply_options = \<lparr>ao_dryRun = [], ao_fieldManager = '''', ao_fieldValidation = ''''\<rparr>"

definition no_uninstall_options :: uninstall_options where
  "no_uninstall_options = \<lparr>uo_gracePeriodSeconds = None, uo_preconditions = None,
     uo_propagationPolicy = None, uo_dryRun = []\<rparr>"

text \<open>A request for chart bytes: url and the getter options built from the spec.\<close>

record chart_request =
  cq_url :: string
  cq_repo :: string
  cq_version :: string
  cq_insecure :: bool
  cq_credentials :: "(string \<times> string) option"

text \<open>Calls of the certificate code: on signing requests, and on the local file system.\<close>

datatype csr_op =
    CsrGet string
  | CsrCreate string
  | CsrDelete string
  | CsrApprove string string
  | CsrWait string
  | CsrCertificate string

datatype file_op =
    FsMkdirAll string
  | FsCreate string
  | FsWrite string string
  | FsRemove string
  | FsRename string string
  | FsRead string

datatype event =
    EvGet string string string string \<comment> \<open>kind, apiVersion, namespace, name\<close>
  | EvCreate apply_options kobj
  | EvUpdate apply_options kobj
  | EvDelete uninstall_options kobj
  | EvPatch kobj kobj
  | EvWatch gvr string string
  | EvDynList gvr string
  | EvDynGet gvr string string
  | EvDynUpdate gvr string kobj
  | EvListDefs
  | EvGetDef string string
  | EvUpdateDef comp_def
  | EvUpdateDefStatus comp_def
  | EvGetSecret string string
  | EvPlural gvk
  | EvWait int
  | EvReadFile string
  | EvStat string
  | EvGetChart chart_request
  | EvCsr csr_op
  | EvFile file_op

text \<open>
  Events of a watch as the loop of \<open>watch.go\<close> receives them: the event type and the typed
  object, absent when the payload is not an object of the watched type. \<open>wr_closed\<close> tells
  whether the channel is closed after these events or the deadline comes first.
\<close>

record watch_event =
  we_type :: string
  we_object :: "kobj option"

record watch_run =
  wr_events :: "watch_event list"
  wr_closed :: bool

text \<open>What the program hands to \<open>json.Marshal\<close>.\<close>

datatype jfield =
    JString string
  | JVal gval
  | JDeploymentSpec deployment_spec
  | JSchema schema

text \<open>The predicates of \<open>k8s.io/apimachinery/pkg/api/errors\<close>.\<close>

record api_errors =
  ae_IsNotFound :: "err \<Rightarrow> bool"
  ae_IsForbidden :: "err \<Rightarrow> bool"
  ae_IsUnauthorized :: "err \<Rightarrow> bool"
  ae_IsInvalid :: "err \<Rightarrow> bool"
  ae_IsBadRequest :: "err \<Rightarrow> bool"
  ae_IsAlreadyExists :: "err \<Rightarrow> bool"

record crdgen_options =
  co_group :: string
  co_version :: string
  co_kind :: string
  co_managed :: bool
  co_categories :: "string list"
  co_specSchema :: string
  co_statusSchema :: string

record 's env =
  env_errors :: api_errors
  env_get :: "string \<Rightarrow> string \<Rightarrow> string \<Rightarrow> string \<Rightarrow> 's \<Rightarrow> (err + kobj) \<times> 's"
  env_create :: "apply_options \<Rightarrow> kobj \<Rightarrow> 's \<Rightarrow> (err + kobj) \<times> 's"
  env_update :: "apply_options \<Rightarrow> kobj \<Rightarrow> 's \<Rightarrow> (err + kobj) \<times> 's"
  env_delete :: "uninstall_options \<Rightarrow> kobj \<Rightarrow> 's \<Rightarrow> (err + unit) \<times> 's"
  env_patch :: "kobj \<Rightarrow> kobj \<Rightarrow> 's \<Rightarrow> (err + kobj) \<times> 's"
  env_watch :: "gvr \<Rightarrow> string \<Rightarrow> string \<Rightarrow> 's \<Rightarrow> (err + watch_run) \<times> 's"
  env_dyn_list :: "gvr \<Rightarrow> string \<Rightarrow> 's \<Rightarrow> (err + kobj list) \<times> 's"
  env_dyn_get :: "gvr \<Rightarrow> string \<Rightarrow> string \<Rightarrow> 's \<Rightarrow> (err + kobj) \<times> 's"
  env_dyn_update :: "gvr \<Rightarrow> string \<Rightarrow> kobj \<Rightarrow> 's \<Rightarrow> (err + kobj) \<times> 's"
  env_list_defs :: "'s \<Rightarrow> (err + comp_def list) \<times> 's"
  env_get_def :: "string \<Rightarrow> string \<Rightarrow> 's \<Rightarrow> (err + comp_def) \<times> 's"
  env_update_def :: "comp_def \<Rightarrow> 's \<Rightarrow> (err + unit) \<times> 's"
  env_update_def_status :: "comp_def \<Rightarrow> 's \<Rightarrow> (err + unit) \<times> 's"
  env_get_secret :: "string \<Rightarrow> string \<Rightarrow> 's \<Rightarrow> (err + (string, string) fmap) \<times> 's"
  env_plural :: "gvk \<Rightarrow> 's \<Rightarrow> (err + string) \<times> 's"
  env_wait :: "int \<Rightarrow> 's \<Rightarrow> (err + unit) \<times> 's"
  env_read_file :: "string \<Rightarrow> 's \<Rightarrow> (err + string) \<times> 's"
  env_stat :: "string \<Rightarrow> 's \<Rightarrow> (err + unit) \<times> 's"
  env_get_chart :: "chart_request \<Rightarrow> 's \<Rightarrow> (err + (err + string) option \<times> string) \<times> 's"
  env_now :: "'s \<Rightarrow> string"
  env_render :: "string \<Rightarrow> gmap \<Rightarrow> err + string"
  env_decode :: "string \<Rightarrow> string \<Rightarrow> err + kobj"
  env_marshal :: "jfield \<Rightarrow> err + string"
  env_gr_string :: "group_resource \<Rightarrow> string"
  env_from_api_version :: "string \<Rightarrow> string \<Rightarrow> gvk"
  env_to_api_version :: "gvk \<Rightarrow> string \<times> string"
  env_label_selector :: "string \<Rightarrow> string \<Rightarrow> err + string"
  env_nested_labels :: "kobj \<Rightarrow> err + (string, string) fmap option"
  env_set_labels :: "(string, string) fmap \<Rightarrow> kobj \<Rightarrow> err + kobj"
  env_set_condition :: "condition \<Rightarrow> gval \<Rightarrow> gval"
  env_crdgen :: "crdgen_options \<Rightarrow> err + string"
  env_untar :: "string \<Rightarrow> err + (string \<times> bool \<times> string) list"
  env_yaml_fields :: "string \<Rightarrow> err + (string, gval) fmap"
  env_pascalize :: "string \<Rightarrow> string"

text \<open>
  The embedded JSON schema files \<open>status.schema.json\<close> and \<open>empty.schema.json\<close> enter only as the
  text handed to the generator; they are parameters too, kept apart because the code treats them
  as package variables. So is \<open>os.TempDir()\<close>, under which the template files lie.
\<close>

record statics =
  st_statusJsonSchema :: string
  st_emptyJsonSchema :: string
  st_tempDir :: string

section \<open>The world and its calls\<close>

text \<open>\<open>w_caBundle\<close> is the CA bundle the certificate manager keeps in memory (nil at first).\<close>

record 's world =
  w_trace :: "event list"
  w_ext :: 's
  w_caBundle :: "string option"

definition call :: "event \<Rightarrow> ('s \<Rightarrow> (err + 'a) \<times> 's) \<Rightarrow> ('s world, 'a) prog" where
  "call ev f = (\<lambda>w. case f (w_ext w) of
       (Inl e, s) \<Rightarrow> (Err e, w\<lparr>w_trace := w_trace w @ [ev], w_ext := s\<rparr>)
     | (Inr x, s) \<Rightarrow> (Ok x, w\<lparr>w_trace := w_trace w @ [ev], w_ext := s\<rparr>))"

lemma call_apply: "call ev f w =
  (outcome_of (fst (f (w_ext w))), w\<lparr>w_trace := w_trace w @ [ev], w_ext := snd (f (w_ext w))\<rparr>)"
  by (simp add: call_def split: prod.split sum.split)

abbreviation IsNotFound :: "'s env \<Rightarrow> err \<Rightarrow> bool" where
  "IsNotFound E \<equiv> ae_IsNotFound (env_errors E)"

definition k_get :: "'s env \<Rightarrow> kobj \<Rightarrow> ('s world, kobj) prog" where
  "k_get E o1 = call (EvGet (ko_kind o1) (ko_apiVersion o1) (ko_namespace o1) (ko_name o1))
     (env_get E (ko_kind o1) (ko_apiVersion o1) (ko_namespace o1) (ko_name o1))"

definition k_create :: "'s env \<Rightarrow> apply_options \<Rightarrow> kobj \<Rightarrow> ('s world, kobj) prog" where
  "k_create E opts o1 = call (EvCreate opts o1) (env_create E opts o1)"

definition k_update :: "'s env \<Rightarrow> apply_options \<Rightarrow> kobj \<Rightarrow> ('s world, kobj) prog" where
  "k_update E opts o1 = call (EvUpdate opts o1) (env_update E opts o1)"

definition k_delete :: "'s env \<Rightarrow> uninstall_options \<Rightarrow> kobj \<Rightarrow> ('s world, unit) prog" where
  "k_delete E opts o1 = call (EvDelete opts o1) (env_delete E opts o1)"

definition k_patch :: "'s env \<Rightarrow> kobj \<Rightarrow> kobj \<Rightarrow> ('s world, kobj) prog" where
  "k_patch E base o1 = call (EvPatch base o1) (env_patch E base o1)"

definition k_watch :: "'s env \<Rightarrow> gvr \<Rightarrow> string \<Rightarrow> string \<Rightarrow> ('s world, watch_run) prog" where
  "k_watch E g ns name = call (EvWatch g ns name) (env_watch E g ns name)"

definition dyn_list :: "'s env \<Rightarrow> gvr \<Rightarrow> string \<Rightarrow> ('s world, kobj list) prog" where
  "dyn_list E g sel = call (EvDynList g sel) (env_dyn_list E g sel)"

definition dyn_get :: "'s env \<Rightarrow> gvr \<Rightarrow> string \<Rightarrow> string \<Rightarrow> ('s world, kobj) prog" where
  "dyn_get E g ns name = call (EvDynGet g ns name) (env_dyn_get E g ns name)"

definition dyn_update :: "'s env \<Rightarrow> gvr \<Rightarrow> string \<Rightarrow> kobj \<Rightarrow> ('s world, kobj) prog" where
  "dyn_update E g ns u = call (EvDynUpdate g ns u) (env_dyn_update E g ns u)"

definition list_defs :: "'s env \<Rightarrow> ('s world, comp_def list) prog" where
  "list_defs E = call EvListDefs (env_list_defs E)"

definition get_def :: "'s env \<Rightarrow> string \<Rightarrow> string \<Rightarrow> ('s world, comp_def) prog" where
  "get_def E ns name = call (EvGetDef ns name) (env_get_def E ns name)"

definition update_def :: "'s env \<Rightarrow> comp_def \<Rightarrow> ('s world, unit) prog" where
  "update_def E cd = call (EvUpdateDef cd) (env_update_def E cd)"

definition update_def_status :: "'s env \<Rightarrow> comp_def \<Rightarrow> ('s world, unit) prog" where
  "update_def_status E cd = call (EvUpdateDefStatus cd) (env_update_def_status E cd)"

definition get_secret :: "'s env \<Rightarrow> string \<Rightarrow> string \<Rightarrow> ('s world, (string, string) fmap) prog" where
  "get_secret E ns name = call (EvGetSecret ns name) (env_get_secret E ns name)"

definition plurals_get :: "'s env \<Rightarrow> gvk \<Rightarrow> ('s world, string) prog" where
  "plurals_get E g = call (EvPlural g) (env_plural E g)"

definition Wait :: "'s env \<Rightarrow> int \<Rightarrow> ('s world, unit) prog" where
  "Wait E d = call (EvWait d) (env_wait E d)"

definition read_file :: "'s env \<Rightarrow> string \<Rightarrow> ('s world, string) prog" where
  "read_file E p = call (EvReadFile p) (env_read_file E p)"

definition stat_file :: "'s env \<Rightarrow> string \<Rightarrow> ('s world, unit) prog" where
  "stat_file E p = call (EvStat p) (env_stat E p)"

text \<open>
  The chart getter answers with a reader and the chart's URL; the reader is nil, or reading it to the
  end gives an error or the bytes.
\<close>

definition get_chart ::
  "'s env \<Rightarrow> chart_request \<Rightarrow> ('s world, (err + string) option \<times> string) prog" where
  "get_chart E q = call (EvGetChart q) (env_get_chart E q)"

text \<open>\<open>time.Now().Format(time.RFC3339)\<close>.\<close>

definition now_rfc3339 :: "'s env \<Rightarrow> ('s world, string) prog" where
  "now_rfc3339 E = (\<lambda>w. (Ok (env_now E (w_ext w)), w))"

lemmas call_defs = k_get_def k_create_def k_update_def k_delete_def k_patch_def k_watch_def
  dyn_list_def dyn_get_def dyn_update_def list_defs_def get_def_def update_def_def
  update_def_status_def get_secret_def plurals_get_def Wait_def read_file_def stat_file_def
  get_chart_def

section \<open>Trace rules\<close>

lemma emits_call: "ev \<in> A \<Longrightarrow> emits w_trace A (call ev f)"
  by (auto simp: emits_def call_def split: prod.split sum.split)

lemma emits_calls [emits_intros]:
  "EvGet (ko_kind o1) (ko_apiVersion o1) (ko_namespace o1) (ko_name o1) \<in> A \<Longrightarrow>
     emits w_trace A (k_get E o1)"
  "EvCreate ao o1 \<in> A \<Longrightarrow> emits w_trace A (k_create E ao o1)"
  "EvUpdate ao o1 \<in> A \<Longrightarrow> emits w_trace A (k_update E ao o1)"
  "EvDelete uo o1 \<in> A \<Longrightarrow> emits w_trace A (k_delete E uo o1)"
  "EvPatch base o1 \<in> A \<Longrightarrow> emits w_trace A (k_patch E base o1)"
  "EvWatch g ns name \<in> A \<Longrightarrow> emits w_trace A (k_watch E g ns name)"
  "EvDynList g sel \<in> A \<Longrightarrow> emits w_trace A (dyn_list E g sel)"
  "EvDynGet g ns name \<in> A \<Longrightarrow> emits w_trace A (dyn_get E g ns name)"
  "EvDynUpdate g ns o1 \<in> A \<Longrightarrow> emits w_trace A (dyn_update E g ns o1)"
  "EvListDefs \<in> A \<Longrightarrow> emits w_trace A (list_defs E)"
  "EvGetDef ns name \<in> A \<Longrightarrow> emits w_trace A (get_def E ns name)"
  "EvUpdateDef cd \<in> A \<Longrightarrow> emits w_trace A (update_def E cd)"
  "EvUpdateDefStatus cd \<in> A \<Longrightarrow> emits w_trace A (update_def_status E cd)"
  "EvGetSecret ns name \<in> A \<Longrightarrow> emits w_trace A (get_secret E ns name)"
  "EvPlural k \<in> A \<Longrightarrow> emits w_trace A (plurals_get E k)"
  "EvWait d \<in> A \<Longrightarrow> emits w_trace A (Wait E d)"
  "EvReadFile p \<in> A \<Longrightarrow> emits w_trace A (read_file E p)"
  "EvStat p \<in> A \<Longrightarrow> emits w_trace A (stat_file E p)"
  "EvGetChart q \<in> A \<Longrightarrow> emits w_trace A (get_chart E q)"
  by (simp_all add: call_defs emits_call)

lemma no_panic_call: "no_panic (call ev f)"
  by (simp add: no_panic_def call_apply)

lemma no_panic_calls [no_panic_intros]:
  "no_panic (k_get E o1)" "no_panic (k_create E ao o1)" "no_panic (k_update E ao o1)"
  "no_panic (k_delete E uo o1)" "no_panic (k_patch E base o1)" "no_panic (k_watch E g ns name)"
  "no_panic (dyn_list E g sel)" "no_panic (dyn_get E g ns name)" "no_panic (dyn_update E g ns o1)"
  "no_panic (list_defs E)" "no_panic (get_def E ns name)" "no_panic (update_def E cd)"
  "no_panic (update_def_status E cd)" "no_panic (get_secret E ns name)" "no_panic (plurals_get E k)"
  "no_panic (Wait E d)" "no_panic (read_file E p)" "no_panic (stat_file E p)" "no_panic (get_chart E q)"
  "no_panic (now_rfc3339 E)"
  by (simp_all add: call_defs no_panic_call) (simp add: no_panic_def now_rfc3339_def)

lemma emits_now [emits_intros]: "emits w_trace A (now_rfc3339 E)"
  by (simp add: emits_def now_rfc3339_def)

text \<open>Which calls can change the cluster, and which of those are server-side dry runs.\<close>

fun is_write :: "event \<Rightarrow> bool" where
  "is_write (EvCreate ao o1) = True"
| "is_write (EvUpdate ao o1) = True"
| "is_write (EvDelete uo o1) = True"
| "is_write (EvPatch b o1) = True"
| "is_write (EvDynUpdate g ns o1) = True"
| "is_write (EvUpdateDef cd) = True"
| "is_write (EvUpdateDefStatus cd) = True"
| "is_write (EvCsr (CsrGet n)) = False"
| "is_write (EvCsr (CsrWait n)) = False"
| "is_write (EvCsr (CsrCertificate n)) = False"
| "is_write (EvCsr c) = True"
| "is_write _ = False"

fun is_dry :: "event \<Rightarrow> bool" where
  "is_dry (EvCreate ao o1) = (''All'' \<in> set (ao_dryRun ao))"
| "is_dry (EvUpdate ao o1) = (''All'' \<in> set (ao_dryRun ao))"
| "is_dry (EvDelete uo o1) = (''All'' \<in> set (uo_dryRun uo))"
| "is_dry _ = False"

text \<open>The events that leave the cluster as it is.\<close>

definition harmless :: "event set" where
  "harmless = {ev. is_write ev \<longrightarrow> is_dry ev}"

lemma harmless_simps [simp]:
  "ev \<in> harmless \<longleftrightarrow> (is_write ev \<longrightarrow> is_dry ev)"
  by (simp add: harmless_def)

end
