(* ===== verification/Hasher.thy ===== *)
theory Hasher
  imports Runtime "HOL-Library.Word"
begin

unbundle bit_operations_syntax

text \<open>
  \<open>internal/tools/hash/hasher.go\<close>: a cumulative 64-bit FNV-1 hash (Go's \<open>hash/fnv.New64\<close>) over
  the JSON encodings of the hashed values, read out as lower-case hexadecimal. The contract the
  deploy component relies on is the locale \<open>accumulator\<close>, interpreted on the FNV-1 fold.
\<close>

section \<open>FNV-1\<close>

definition fnv_offset64 :: "64 word" where "fnv_offset64 = 14695981039346656037"
definition fnv_prime64 :: "64 word" where "fnv_prime64 = 1099511628211"

definition fnv_step :: "64 word \<Rightarrow> char \<Rightarrow> 64 word" where
  "fnv_step h c = (h * fnv_prime64) XOR of_nat (of_char c)"

definition Write :: "64 word \<Rightarrow> string \<Rightarrow> 64 word" where
  "Write h bs = foldl fnv_step h bs"

type_synonym object_hash = "64 word"

definition NewFNVObjectHash :: object_hash where
  "NewFNVObjectHash = fnv_offset64"

text \<open>
  \<open>SumHash\<close>: marshal each argument and write it; a marshalling error stops the loop.
\<close>

fun SumHash :: "'s env \<Rightarrow> object_hash \<Rightarrow> jfield list \<Rightarrow> err + object_hash" where
  "SumHash E h [] = Inr h"
| "SumHash E h (v # vs) =
     (case env_marshal E v of
        Inl e \<Rightarrow> Inl e
      | Inr b \<Rightarrow> SumHash E (Write h b) vs)"

definition Reset :: "object_hash \<Rightarrow> object_hash" where
  "Reset h = fnv_offset64"

text \<open>\<open>fmt.Sprintf("%x", h.Sum64())\<close>.\<close>

definition hex_digit :: "nat \<Rightarrow> char" where
  "hex_digit d = (if d < 10 then char_of (48 + d) else char_of (87 + d))"

fun hex_of :: "nat \<Rightarrow> string" where
  "hex_of n = (if n < 16 then [hex_digit n] else hex_of (n div 16) @ [hex_digit (n mod 16)])"

declare hex_of.simps [simp del]

definition GetHash :: "object_hash \<Rightarrow> string" where
  "GetHash h = hex_of (unat h)"

section \<open>The contract of a cumulative hash\<close>

locale accumulator =
  fixes absorb :: "'h \<Rightarrow> string \<Rightarrow> 'h"
  assumes absorb_append: "absorb h (xs @ ys) = absorb (absorb h xs) ys"
    and absorb_empty: "absorb h [] = h"
    and absorb_inj: "absorb h xs = absorb h' xs \<Longrightarrow> h = h'"
begin

lemma foldl_absorb: "foldl absorb h bss = absorb h (concat bss)"
  by (induction bss arbitrary: h) (simp_all add: absorb_empty absorb_append)

text \<open>Only the concatenation of what was written matters.\<close>

lemma same_concat: "concat bss = concat css \<Longrightarrow> foldl absorb h bss = foldl absorb h css"
  by (simp add: foldl_absorb)

text \<open>A difference, once in the state, survives everything that is written later.\<close>

lemma difference_survives: "absorb h xs \<noteq> absorb h ys \<Longrightarrow> absorb h (xs @ zs) \<noteq> absorb h (ys @ zs)"
  using absorb_inj by (auto simp: absorb_append)

end

text \<open>The prime is odd, so multiplication by it can be undone.\<close>

definition fnv_inverse64 :: "64 word" where "fnv_inverse64 = 14886173955864302971"

lemma fnv_prime_inverse: "fnv_prime64 * fnv_inverse64 = 1"
  by (simp add: fnv_prime64_def fnv_inverse64_def)

lemma fnv_mult_inj: "h * fnv_prime64 = h' * fnv_prime64 \<longleftrightarrow> h = h'"
proof
  assume "h * fnv_prime64 = h' * fnv_prime64"
  then have "h * fnv_prime64 * fnv_inverse64 = h' * fnv_prime64 * fnv_inverse64" by simp
  then show "h = h'" by (simp only: mult.assoc fnv_prime_inverse mult_1_right)
qed simp

lemma word_xor_cancel: "(a :: 'a::len word) XOR c = b XOR c \<longleftrightarrow> a = b"
proof
  assume "a XOR c = b XOR c"
  then have "(a XOR c) XOR c = (b XOR c) XOR c" by simp
  then show "a = b" by (simp only: xor.assoc) simp
qed simp

lemma word_xor_cancel_left: "(c :: 'a::len word) XOR a = c XOR b \<longleftrightarrow> a = b"
  using word_xor_cancel [of a c b] by (simp only: xor.commute)

lemma fnv_step_inj_state: "fnv_step h c = fnv_step h' c \<longleftrightarrow> h = h'"
  by (simp add: fnv_step_def word_xor_cancel fnv_mult_inj)

lemma byte_word64_inj: "(of_nat (of_char c) :: 64 word) = of_nat (of_char d) \<longleftrightarrow> c = d"
proof
  assume "(of_nat (of_char c) :: 64 word) = of_nat (of_char d)"
  moreover have "unat (of_nat (of_char x) :: 64 word) = of_char x" for x :: char
    using less_trans [OF nat_of_char_less_256, of "2 ^ LENGTH(64)" x]
    by (simp only: unat_of_nat) simp
  ultimately have "(of_char c :: nat) = of_char d" by metis
  then show "c = d" by simp
qed simp

lemma fnv_step_inj_byte: "fnv_step h c = fnv_step h d \<longleftrightarrow> c = d"
  by (simp add: fnv_step_def word_xor_cancel_left byte_word64_inj)

lemma Write_append: "Write h (xs @ ys) = Write (Write h xs) ys"
  by (simp add: Write_def)

lemma Write_inj: "Write h xs = Write h' xs \<Longrightarrow> h = h'"
proof (induction xs arbitrary: h h')
  case (Cons c xs)
  from Cons.prems have "Write (fnv_step h c) xs = Write (fnv_step h' c) xs"
    by (simp add: Write_def)
  then have "fnv_step h c = fnv_step h' c" by (rule Cons.IH)
  then show ?case by (simp add: fnv_step_inj_state)
qed (simp add: Write_def)

interpretation fnv: accumulator Write
  by unfold_locales (auto simp: Write_append Write_def [of _ "[]"] dest: Write_inj)

section \<open>SumHash and GetHash\<close>

text \<open>\<open>SumHash\<close> is one write of the concatenated encodings.\<close>

fun marshal_all :: "'s env \<Rightarrow> jfield list \<Rightarrow> err + string" where
  "marshal_all E [] = Inr []"
| "marshal_all E (v # vs) =
     (case env_marshal E v of
        Inl e \<Rightarrow> Inl e
      | Inr b \<Rightarrow> (case marshal_all E vs of Inl e \<Rightarrow> Inl e | Inr bs \<Rightarrow> Inr (b @ bs)))"

lemma SumHash_marshal_all:
  "SumHash E h vs = (case marshal_all E vs of Inl e \<Rightarrow> Inl e | Inr b \<Rightarrow> Inr (Write h b))"
  by (induction vs arbitrary: h)
    (auto simp: Write_append fnv.absorb_empty split: sum.splits)

lemma SumHash_append:
  "SumHash E h (vs @ ws) = (case SumHash E h vs of Inl e \<Rightarrow> Inl e | Inr h' \<Rightarrow> SumHash E h' ws)"
  by (induction vs arbitrary: h) (auto split: sum.splits)

lemma SumHash_error_independent: "SumHash E h vs = Inl e \<Longrightarrow> SumHash E h' vs = Inl e"
  by (simp add: SumHash_marshal_all split: sum.splits)

lemma SumHash_inj_state: "SumHash E h vs = Inr k \<Longrightarrow> SumHash E h' vs = Inr k \<Longrightarrow> h = h'"
  by (auto simp: SumHash_marshal_all dest: Write_inj split: sum.splits)

text \<open>Reading the digits back.\<close>

definition hex_value :: "char \<Rightarrow> nat" where
  "hex_value c = (if of_char c < (58::nat) then of_char c - 48 else of_char c - 87)"

definition unhex :: "string \<Rightarrow> nat" where
  "unhex s = foldl (\<lambda>n c. 16 * n + hex_value c) 0 s"

lemma hex_value_digit: "d < 16 \<Longrightarrow> hex_value (hex_digit d) = d"
  by (simp add: hex_value_def hex_digit_def)

lemma unhex_hex_of: "unhex (hex_of n) = n"
proof (induction n rule: hex_of.induct)
  case (1 n)
  show ?case
  proof (cases "n < 16")
    case True
    then show ?thesis by (subst hex_of.simps) (simp add: unhex_def hex_value_digit)
  next
    case False
    with 1 show ?thesis by (subst hex_of.simps) (simp add: unhex_def hex_value_digit)
  qed
qed

lemma GetHash_inj: "GetHash h = GetHash k \<longleftrightarrow> h = k"
  unfolding GetHash_def by (metis unhex_hex_of word_unat_eq_iff)

end
