(* ===== verification/Sample.thy ===== *)
theory Sample
  imports Runtime
begin

text \<open>
  A small concrete environment: a cluster that stores what it is given, templates whose text is
  their path and whose objects are named after it and the version, a chart called \<open>fireworks\<close>.
  Theorems of the development hold for every environment; this one shows that their hypotheses can hold
  together.
\<close>

record cluster =
  cl_objs :: "kobj list"
  cl_defs :: "comp_def list"
  cl_files :: "string \<Rightarrow> string option"
  cl_csrs :: "(string \<times> int) list"

definition same_key :: "kobj \<Rightarrow> kobj \<Rightarrow> bool" where
  "same_key o1 o2 \<longleftrightarrow> ko_kind o1 = ko_kind o2 \<and> ko_namespace o1 = ko_namespace o2 \<and>
     ko_name o1 = ko_name o2"

definition not_found :: err where
  "not_found = StatusError 404 ''NotFound'' ''not found''"

fun reason_is :: "string \<Rightarrow> err \<Rightarrow> bool" where
  "reason_is r (StatusError c q m) = (q = r)"
| "reason_is r (Wrap p e s) = reason_is r e"
| "reason_is r e = False"

definition sample_errors :: api_errors where
  "sample_errors = \<lparr>ae_IsNotFound = reason_is ''NotFound'', ae_IsForbidden = reason_is ''Forbidden'',
     ae_IsUnauthorized = reason_is ''Unauthorized'', ae_IsInvalid = reason_is ''Invalid'',
     ae_IsBadRequest = reason_is ''BadRequest'', ae_IsAlreadyExists = reason_is ''AlreadyExists''\<rparr>"

definition find_obj :: "string \<Rightarrow> string \<Rightarrow> string \<Rightarrow> cluster \<Rightarrow> kobj option" where
  "find_obj k ns n c =
     find (\<lambda>o1. ko_kind o1 = k \<and> ko_namespace o1 = ns \<and> ko_name o1 = n) (cl_objs c)"

definition put_obj :: "kobj \<Rightarrow> cluster \<Rightarrow> cluster" where
  "put_obj o1 c = c\<lparr>cl_objs := o1 # filter (\<lambda>o2. \<not> same_key o1 o2) (cl_objs c)\<rparr>"

definition del_obj :: "kobj \<Rightarrow> cluster \<Rightarrow> cluster" where
  "del_obj o1 c = c\<lparr>cl_objs := filter (\<lambda>o2. \<not> same_key o1 o2) (cl_objs c)\<rparr>"

text \<open>Dry runs answer and leave the cluster alone.\<close>

definition sample_put :: "apply_options \<Rightarrow> kobj \<Rightarrow> cluster \<Rightarrow> (err + kobj) \<times> cluster" where
  "sample_put ao o1 c = (Inr o1, if ''All'' \<in> set (ao_dryRun ao) then c else put_obj o1 c)"

definition sample_spec :: deployment_spec where
  "sample_spec = \<lparr>ds_replicas = Some 1, ds_annotations = None, ds_rest = GNull\<rparr>"

definition sample_status :: deployment_status where
  "sample_status = \<lparr>dt_readyReplicas = 1, dt_conditions = [(''Available'', ''True'')]\<rparr>"

definition example_schema :: schema where
  "example_schema = Schema ''object'' '''' (Some [(''spec'', Schema ''object'' '''' None None None None None GNull),
     (''status'', Schema ''object'' '''' None None None None (Some True) GNull)]) None None None None GNull"

definition example_version :: "string \<Rightarrow> bool \<Rightarrow> bool \<Rightarrow> crd_version" where
  "example_version n served storage = \<lparr>cv_name = n, cv_served = served, cv_storage = storage,
     cv_schema = Some (Some example_schema)\<rparr>"

definition example_crd :: "crd_version list \<Rightarrow> crd" where
  "example_crd vs = \<lparr>crd_group = ''composition.krateo.io'', crd_kind = ''Fireworks'',
     crd_plural = ''fireworks'', crd_versions = vs, crd_conversion_of = None,
     crd_conditions = [(''Established'', ''True'')]\<rparr>"

definition crd_object :: "crd \<Rightarrow> kobj" where
  "crd_object c = \<lparr>ko_kind = ''CustomResourceDefinition'', ko_apiVersion = ''apiextensions.k8s.io/v1'',
     ko_name = ''fireworks.composition.krateo.io'', ko_namespace = '''', ko_resourceVersion = '''',
     ko_body = CrdBody c\<rparr>"

definition sample_obj :: "string \<Rightarrow> string \<Rightarrow> kobj" where
  "sample_obj otype n = \<lparr>ko_kind = otype, ko_apiVersion = ''v1'', ko_name = n, ko_namespace = ''ns'',
     ko_resourceVersion = '''',
     ko_body = (if otype = ''Deployment'' then DeploymentBody sample_spec sample_status
                else OtherBody GNull)\<rparr>"

definition sample_decode :: "string \<Rightarrow> string \<Rightarrow> err + kobj" where
  "sample_decode otype dat =
     Inr (if otype = ''CustomResourceDefinition''
          then crd_object (example_crd [example_version dat True True]) else sample_obj otype dat)"

text \<open>What a watch reports: a ready Deployment, an established CustomResourceDefinition.\<close>

definition sample_ready :: "gvr \<Rightarrow> string \<Rightarrow> kobj" where
  "sample_ready g n = (if gvr_resource g = ''deployments'' then sample_obj ''Deployment'' n
     else crd_object (example_crd []))"

fun sample_marshal :: "jfield \<Rightarrow> err + string" where
  "sample_marshal (JString s) = Inr s"
| "sample_marshal (JVal v) = Inr ''value''"
| "sample_marshal (JDeploymentSpec s) = Inr (case ds_annotations s of
     None \<Rightarrow> ''spec'' | Some m \<Rightarrow> if m = fmempty then ''spec'' else ''annotated spec'')"
| "sample_marshal (JSchema s) = Inr (sc_type s @ sc_description s)"

text \<open>Names carry the version they are rendered for, as in the templates of the program.\<close>

definition sample_suffix :: "gmap \<Rightarrow> string" where
  "sample_suffix vals = (case fmlookup vals ''apiVersion'' of Some (GStr v) \<Rightarrow> v | _ \<Rightarrow> '''')"

definition sample_versionLabel :: string where
  "sample_versionLabel = ''krateo.io/composition-version''"

definition sample_env :: "cluster env" where
  "sample_env = \<lparr>
     env_errors = sample_errors,
     env_get = (\<lambda>k a ns n c. (case find_obj k ns n c of Some o1 \<Rightarrow> Inr o1 | None \<Rightarrow> Inl not_found, c)),
     env_create = sample_put,
     env_update = sample_put,
     env_delete = (\<lambda>uo o1 c. (Inr (), del_obj o1 c)),
     env_patch = (\<lambda>b o1 c. (Inr o1, put_obj o1 c)),
     env_watch = (\<lambda>g ns n c. (Inr \<lparr>wr_events = [\<lparr>we_type = ''ADDED'', we_object = Some (sample_ready g n)\<rparr>],
        wr_closed = False\<rparr>, c)),
     env_dyn_list = (\<lambda>g sel c. (Inr (filter (\<lambda>o1. ko_kind o1 = ''Fireworks'') (cl_objs c)), c)),
     env_dyn_get = (\<lambda>g ns n c. (case find_obj ''Fireworks'' ns n c of
        Some o1 \<Rightarrow> Inr o1 | None \<Rightarrow> Inl not_found, c)),
     env_dyn_update = (\<lambda>g ns o1 c. (Inr o1,
        put_obj (o1\<lparr>ko_kind := ''Fireworks'', ko_namespace := ns\<rparr>) c)),
     env_list_defs = (\<lambda>c. (Inr (cl_defs c), c)),
     env_get_def = (\<lambda>ns n c. (case find (\<lambda>d. cd_namespace d = ns \<and> cd_name d = n) (cl_defs c) of
        Some d \<Rightarrow> Inr d | None \<Rightarrow> Inl not_found, c)),
     env_update_def = (\<lambda>d c. (Inr (), c)),
     env_update_def_status = (\<lambda>d c. (Inr (), c)),
     env_get_secret = (\<lambda>ns n c. (Inr (fmap_of_list [(''password'', ''secret'')]), c)),
     env_plural = (\<lambda>g c. (Inr ''fireworks'', c)),
     env_wait = (\<lambda>d c. (Inr (), c)),
     env_read_file = (\<lambda>p c. (Inr p, c)),
     env_stat = (\<lambda>p c. (Inl (Plain ''no such file''), c)),
     env_get_chart = (\<lambda>q c. (Inr (Some (Inr (cq_version q)), cq_url q), c)),
     env_now = (\<lambda>c. ''2024-01-01T00:00:00Z''),
     env_render = (\<lambda>t v. Inr (t @ sample_suffix v)),
     env_decode = sample_decode,
     env_marshal = sample_marshal,
     env_gr_string = (\<lambda>r. gr_resource r @ ''.'' @ gr_group r),
     env_from_api_version = (\<lambda>a k. (case dropWhile (\<lambda>c. c \<noteq> CHR ''/'') a of
        [] \<Rightarrow> \<lparr>gvk_group = '''', gvk_version = a, gvk_kind = k\<rparr>
      | _ # v \<Rightarrow> \<lparr>gvk_group = takeWhile (\<lambda>c. c \<noteq> CHR ''/'') a, gvk_version = v, gvk_kind = k\<rparr>)),
     env_to_api_version = (\<lambda>g. (gvk_group g @ ''/'' @ gvk_version g, gvk_kind g)),
     env_label_selector = (\<lambda>l v. Inr (l @ ''='' @ v)),
     env_nested_labels = (\<lambda>o1. (case ko_body o1 of
        OtherBody (GStr v) \<Rightarrow> Inr (Some (fmap_of_list [(sample_versionLabel, v)])) | _ \<Rightarrow> Inr None)),
     env_set_labels = (\<lambda>m o1. Inr (o1\<lparr>ko_body := OtherBody (GStr
        (case fmlookup m sample_versionLabel of Some v \<Rightarrow> v | None \<Rightarrow> ''''))\<rparr>)),
     env_set_condition = (\<lambda>cond g. g),
     env_crdgen = (\<lambda>co. Inr (co_version co)),
     env_untar = (\<lambda>b. Inr [(''chart'', True, ''''), (''chart/Chart.yaml'', False, b),
        (''chart/values.schema.json'', False, ''{}'')]),
     env_yaml_fields = (\<lambda>b. Inr (fmap_of_list [(''name'', GStr ''fireworks''), (''version'', GStr b)])),
     env_pascalize = (\<lambda>s. ''Fireworks'')\<rparr>"

definition sample_world :: "kobj list \<Rightarrow> comp_def list \<Rightarrow> cluster world" where
  "sample_world os ds = \<lparr>w_trace = [], w_ext = \<lparr>cl_objs = os, cl_defs = ds,
     cl_files = (\<lambda>_. None), cl_csrs = []\<rparr>, w_caBundle = Some ''ca''\<rparr>"

lemmas sample_defs = sample_env_def sample_world_def sample_errors_def sample_put_def find_obj_def
  put_obj_def del_obj_def same_key_def not_found_def sample_decode_def

lemmas example_defs = example_version_def example_crd_def example_schema_def crd_object_def

section \<open>Runs that always succeed\<close>

definition always_ok :: "('w, 'a) prog \<Rightarrow> bool" where
  "always_ok m \<longleftrightarrow> (\<forall>w. \<exists>x w'. m w = (Ok x, w'))"

lemma always_okD: "always_ok m \<Longrightarrow> \<exists>x w'. m w = (Ok x, w')"
  by (simp add: always_ok_def)

lemma always_ok_returnP: "always_ok (returnP x)"
  by (simp add: always_ok_def)

lemma always_ok_onErr: "always_ok m \<Longrightarrow> always_ok (onErr f m)"
  unfolding always_ok_def by (metis onErr_Ok)

lemma always_ok_whenP: "always_ok m \<Longrightarrow> always_ok (whenP b m)"
  by (simp add: whenP_def always_ok_returnP)

lemma always_ok_liftSum: "r = Inr x \<Longrightarrow> always_ok (liftSum r)"
  by (simp add: always_ok_def liftSum_def)

lemma always_ok_tryP: "(\<And>w s. fst (m w) \<noteq> Panic s) \<Longrightarrow> always_ok (tryP m)"
  unfolding always_ok_def tryP_def by (auto split: prod.split outcome.split) (metis fst_conv)

lemma always_ok_thenP: "always_ok m \<Longrightarrow> (\<And>x. always_ok (k x)) \<Longrightarrow> always_ok (thenP m k)"
  unfolding always_ok_def thenP_def by (metis (mono_tags, lifting) old.prod.case outcome.simps(10))

lemma always_ok_case_sum:
  "(\<And>e. always_ok (f e)) \<Longrightarrow> (\<And>x. always_ok (g x)) \<Longrightarrow>
   always_ok (case r of Inl e \<Rightarrow> f e | Inr x \<Rightarrow> g x)"
  by (cases r) simp_all

lemma always_ok_foreachP: "(\<And>x. x \<in> set xs \<Longrightarrow> always_ok (f x)) \<Longrightarrow> always_ok (foreachP xs f)"
  by (induction xs) (auto intro!: always_ok_returnP always_ok_thenP simp del: returnP_apply)

lemma call_no_panic: "fst (call ev f w) \<noteq> Panic s"
  by (simp add: call_apply)

lemma always_ok_sample:
  "always_ok (k_create sample_env ao o1)" "always_ok (k_update sample_env ao o1)"
  "always_ok (k_delete sample_env uo o1)" "always_ok (k_patch sample_env b o1)"
  "always_ok (k_watch sample_env g ns n)" "always_ok (read_file sample_env p)"
  "always_ok (Wait sample_env d)" "always_ok (dyn_list sample_env g sel)"
  "always_ok (list_defs sample_env)" "always_ok (plurals_get sample_env k)"
  "always_ok (now_rfc3339 sample_env)" "always_ok (get_chart sample_env q)"
  by (simp_all add: always_ok_def call_defs call_apply sample_env_def sample_put_def now_rfc3339_def)

lemma sample_get: "k_get sample_env o1 w =
  (outcome_of (case find_obj (ko_kind o1) (ko_namespace o1) (ko_name o1) (w_ext w) of
      Some o2 \<Rightarrow> Inr o2 | None \<Rightarrow> Inl not_found),
   w\<lparr>w_trace := w_trace w @ [EvGet (ko_kind o1) (ko_apiVersion o1) (ko_namespace o1) (ko_name o1)]\<rparr>)"
  by (simp add: k_get_def call_apply sample_env_def)

lemma sample_IsNotFound [simp]: "IsNotFound sample_env not_found"
  by (simp add: sample_env_def sample_errors_def not_found_def)


lemma find_put: "find_obj k ns n (put_obj o1 c) =
  (if (k, ns, n) = (ko_kind o1, ko_namespace o1, ko_name o1) then Some o1 else find_obj k ns n c)"
proof -
  have f: "find P (filter Q xs) = find P xs" if "\<And>x. P x \<Longrightarrow> Q x" for P Q and xs :: "kobj list"
    using that by (induction xs) auto
  show ?thesis
    by (auto simp: find_obj_def put_obj_def same_key_def intro!: f)
qed

lemma find_obj_name: "find_obj k ns n c = Some o1 \<Longrightarrow> ko_kind o1 = k \<and> ko_namespace o1 = ns \<and> ko_name o1 = n"
  by (auto simp: find_obj_def find_Some_iff)

end
