(* ===== verification/Generation.thy ===== *)
theory Generation
  imports Hasher Sample
begin

text \<open>
  \<open>internal/tools/crd/generation/generation.go\<close>: generating a CustomResourceDefinition from a
  chart's values schema, adding a version to an existing one beside the hidden storage version
  \<open>vacuum\<close>, refreshing the status schema of every version, and comparing status schemas by hash.
\<close>

section \<open>CA bundle, served and storage flags\<close>

definition UpdateCABundle :: "crd \<Rightarrow> string option \<Rightarrow> err + crd" where
  "UpdateCABundle c caBundle =
     (case crd_conversion_of c of
        None \<Rightarrow> Inl (Plain ''.spec.conversion field is nil'')
      | Some conv \<Rightarrow>
          (case cn_webhook conv of
             None \<Rightarrow> Inl (Plain ''.spec.conversion.webhook field is nil'')
           | Some wh \<Rightarrow>
               (case wc_clientConfig wh of
                  None \<Rightarrow> Inl (Plain ''.spec.conversion.webhook.clientConfig field is nil'')
                | Some cc \<Rightarrow> Inr (c\<lparr>crd_conversion_of := Some (conv\<lparr>cn_webhook :=
                    Some (wh\<lparr>wc_clientConfig := Some (cc\<lparr>cc_caBundle := caBundle\<rparr>)\<rparr>)\<rparr>)\<rparr>))))"

definition SetServedStorage :: "crd \<Rightarrow> string \<Rightarrow> bool \<Rightarrow> bool \<Rightarrow> crd" where
  "SetServedStorage c version served storage =
     c\<lparr>crd_versions := map (\<lambda>v. if cv_name v = version
        then v\<lparr>cv_served := served, cv_storage := storage\<rparr> else v) (crd_versions c)\<rparr>"

section \<open>Adding versions\<close>

definition vacuum :: string where "vacuum = ''vacuum''"

definition plain_schema :: "string \<Rightarrow> string \<Rightarrow> schema" where
  "plain_schema ty descr = Schema ty descr None None None None None GNull"

definition open_object :: schema where
  "open_object = Schema ''object'' '''' None None None None (Some True) GNull"

definition vacuum_schema :: schema where
  "vacuum_schema = Schema ''object'' ''This is a vacuum version to storage different versions''
     (Some [(''apiVersion'', plain_schema ''string''
        ''APIVersion defines the versioned schema of this representation of an object. Servers should convert recognized schemas to the latest internal value, and may reject unrecognized values. More info: https://git.k8s.io/community/contributors/devel/sig-architecture/api-conventions.md#resources''),
      (''kind'', plain_schema ''string'' ''''),
      (''metadata'', plain_schema ''object'' ''''),
      (''spec'', open_object),
      (''status'', open_object)])
     None None None None GNull"

definition vacuum_version :: crd_version where
  "vacuum_version = \<lparr>cv_name = vacuum, cv_served = False, cv_storage = True,
     cv_schema = Some (Some vacuum_schema)\<rparr>"

text \<open>The search loops \<open>for ... if el1.Name == x { found = true; break }\<close>.\<close>

fun has_version :: "string \<Rightarrow> crd_version list \<Rightarrow> bool" where
  "has_version n [] = False"
| "has_version n (v # vs) = (if cv_name v = n then True else has_version n vs)"

text \<open>Every version but \<open>vacuum\<close> becomes served and not stored.\<close>

definition serve_all :: "crd_version list \<Rightarrow> crd_version list" where
  "serve_all vs = map (\<lambda>v. if cv_name v \<noteq> vacuum
     then v\<lparr>cv_served := True, cv_storage := False\<rparr> else v) vs"

fun append_versions :: "crd_version list \<Rightarrow> crd_version list \<Rightarrow> crd_version list" where
  "append_versions vs [] = vs"
| "append_versions vs (el2 # rest) =
     (let exist = has_version (cv_name el2) vs;
          vac = has_version vacuum vs
      in append_versions
           (if \<not> exist
            then serve_all (if \<not> vac then (vs @ [el2]) @ [vacuum_version] else vs @ [el2])
            else vs) rest)"

definition AppendVersion :: "crd \<Rightarrow> crd \<Rightarrow> err + crd" where
  "AppendVersion c toadd =
     Inr (c\<lparr>crd_versions := append_versions (crd_versions c) (crd_versions toadd)\<rparr>)"

section \<open>Status schemas\<close>

fun put_prop :: "string \<Rightarrow> schema \<Rightarrow> (string \<times> schema) list \<Rightarrow> (string \<times> schema) list" where
  "put_prop k s [] = [(k, s)]"
| "put_prop k s ((k', s') # ps) = (if k' = k then (k, s) # ps else (k', s') # put_prop k s ps)"

text \<open>
  Assigning into \<open>Properties\<close>: a nil map panics. Reading a missing key gives the zero schema.
\<close>

definition assign_nil_map :: string where "assign_nil_map = ''assignment to entry in nil map''"

definition zero_schema :: schema where
  "zero_schema = Schema '''' '''' None None None None None GNull"

definition with_props :: "schema \<Rightarrow> (string \<times> schema) list option \<Rightarrow> schema" where
  "with_props s ps = Schema (sc_type s) (sc_description s) ps (sc_default s) (sc_items s)
     (sc_minItems s) (sc_preserve s) (sc_rest s)"

definition set_status :: "schema \<Rightarrow> crd_version \<Rightarrow> crd_version outcome" where
  "set_status newStatus v =
     (case open_api v of
        None \<Rightarrow> Ok v
      | Some s \<Rightarrow>
          (case sc_props s of
             None \<Rightarrow> Panic assign_nil_map
           | Some ps \<Rightarrow> Ok (v\<lparr>cv_schema :=
               Some (Some (with_props s (Some (put_prop ''status'' newStatus ps))))\<rparr>)))"

fun set_status_all :: "schema \<Rightarrow> crd_version list \<Rightarrow> crd_version list outcome" where
  "set_status_all newStatus [] = Ok []"
| "set_status_all newStatus (v # vs) =
     (case set_status newStatus v of
        Ok v' \<Rightarrow> (case set_status_all newStatus vs of
            Ok vs' \<Rightarrow> Ok (v' # vs') | Err e \<Rightarrow> Err e | Panic s \<Rightarrow> Panic s)
      | Err e \<Rightarrow> Err e
      | Panic s \<Rightarrow> Panic s)"

definition status_prop :: "schema \<Rightarrow> schema" where
  "status_prop s = (case lookup_prop ''status'' s of None \<Rightarrow> zero_schema | Some t \<Rightarrow> t)"

definition UpdateStatus :: "string \<Rightarrow> crd \<Rightarrow> crd_version \<Rightarrow> crd outcome" where
  "UpdateStatus name c version =
     (case open_api version of
        None \<Rightarrow> Err (Plain (''CRD '' @ name @ '' version '' @ cv_name version @ '' schema is nil''))
      | Some s \<Rightarrow>
          (case set_status_all (status_prop s) (crd_versions c) of
             Ok vs \<Rightarrow> Ok (c\<lparr>crd_versions := vs\<rparr>)
           | Err e \<Rightarrow> Err e
           | Panic p \<Rightarrow> Panic p))"

definition has_status :: "crd_version \<Rightarrow> bool" where
  "has_status v = (case open_api v of
     None \<Rightarrow> False | Some s \<Rightarrow> lookup_prop ''status'' s \<noteq> None)"

text \<open>
  \<open>searchFirstStatus\<close> gives the index of the first version with a status property or \<open>-1\<close>.
\<close>

definition searchFirstStatus :: "crd \<Rightarrow> int" where
  "searchFirstStatus c = (case find_index has_status (crd_versions c) of
     None \<Rightarrow> -1 | Some i \<Rightarrow> int i)"

definition version_status :: "crd_version \<Rightarrow> schema" where
  "version_status v = (case open_api v of None \<Rightarrow> zero_schema | Some s \<Rightarrow> status_prop s)"

definition no_status_err :: "string \<Rightarrow> err" where
  "no_status_err name = Plain (''CRD '' @ name @ '' has no version with status property'')"

definition StatusEqual ::
  "'s env \<Rightarrow> string \<Rightarrow> crd \<Rightarrow> string \<Rightarrow> crd \<Rightarrow> err + bool" where
  "StatusEqual E name1 crd1 name2 crd2 =
     (let i1 = searchFirstStatus crd1
      in if i1 = -1 then Inl (no_status_err name1)
         else (case SumHash E NewFNVObjectHash
                      [JSchema (version_status (crd_versions crd1 ! nat i1))] of
           Inl e \<Rightarrow> Inl (Wrap ''error hashing CRD status: '' e '''')
         | Inr crdHasher \<Rightarrow>
             (let i2 = searchFirstStatus crd2
              in if i2 = -1 then Inl (no_status_err name2)
                 else (case SumHash E NewFNVObjectHash
                              [JSchema (version_status (crd_versions crd2 ! nat i2))] of
                   Inl e \<Rightarrow> Inl (Wrap ''error hashing generated CRD status: '' e '''')
                 | Inr genCRDHasher \<Rightarrow> Inr (GetHash crdHasher = GetHash genCRDHasher)))))"

definition GVKExists :: "crd \<Rightarrow> gvk \<Rightarrow> bool" where
  "GVKExists c g =
     (if crd_group c \<noteq> gvk_group g then False
      else if crd_kind c \<noteq> gvk_kind g then False
      else has_version (gvk_version g) (crd_versions c))"

section \<open>Generating\<close>

definition generateCRD :: "'s env \<Rightarrow> statics \<Rightarrow> string \<Rightarrow> gvk \<Rightarrow> bool \<Rightarrow> err + string" where
  "generateCRD E st specSchema g onlyMetadata =
     (let spec = (if onlyMetadata then st_emptyJsonSchema st else specSchema);
          status = (if onlyMetadata then st_emptyJsonSchema st else st_statusJsonSchema st)
      in case env_crdgen E \<lparr>co_group = gvk_group g, co_version = gvk_version g,
             co_kind = gvk_kind g, co_managed = True, co_categories = [''compositions'', ''comps''],
             co_specSchema = spec, co_statusSchema = status\<rparr> of
           Inl e \<Rightarrow> Inl (Wrap ''generating crd: '' e '''')
         | Inr res \<Rightarrow> Inr res)"

definition Unmarshal :: "'s env \<Rightarrow> string \<Rightarrow> err + kobj" where
  "Unmarshal E dat =
     map_sum id (typed ''CustomResourceDefinition'') (env_decode E ''CustomResourceDefinition'' dat)"

definition GenerateCRD :: "'s env \<Rightarrow> statics \<Rightarrow> string \<Rightarrow> gvk \<Rightarrow> err + kobj" where
  "GenerateCRD E st specSchema g =
     (case generateCRD E st specSchema g False of
        Inl e \<Rightarrow> Inl (Wrap ''error generating CRD: '' e '''')
      | Inr bcrd \<Rightarrow>
          (case Unmarshal E bcrd of
             Inl e \<Rightarrow> Inl (Wrap ''error unmarshalling generated CRD: '' e '''')
           | Inr c \<Rightarrow> Inr c))"

definition index_out_of_range :: string where "index_out_of_range = ''index out of range [0] with length 0''"

definition GetGVRFromGeneratedCRD :: "'s env \<Rightarrow> statics \<Rightarrow> string \<Rightarrow> gvk \<Rightarrow> gvr outcome" where
  "GetGVRFromGeneratedCRD E st specSchema g =
     (case generateCRD E st specSchema g True of
        Inl e \<Rightarrow> Err (Wrap ''error generating CRD for GVR fallback: '' e '''')
      | Inr bcrd \<Rightarrow>
          (case Unmarshal E bcrd of
             Inl e \<Rightarrow> Err (Wrap ''error unmarshalling generated CRD for GVR fallback: '' e '''')
           | Inr o1 \<Rightarrow>
               (case crd_versions (crd_of o1) of
                  [] \<Rightarrow> Panic index_out_of_range
                | v # _ \<Rightarrow> Ok \<lparr>gvr_group = crd_group (crd_of o1), gvr_version = cv_name v,
                                gvr_resource = crd_plural (crd_of o1)\<rparr>)))"

section \<open>Version lists\<close>

lemma has_version_iff: "has_version n vs \<longleftrightarrow> n \<in> cv_name ` set vs"
  by (induction vs) auto

text \<open>
  A version list the API server accepts: distinct names, one storage version; and once the hidden
  version \<open>vacuum\<close> exists, it is the one.
\<close>

definition storage_names :: "crd_version list \<Rightarrow> string list" where
  "storage_names vs = map cv_name (filter cv_storage vs)"

definition well_stored :: "crd_version list \<Rightarrow> bool" where
  "well_stored vs \<longleftrightarrow> distinct (map cv_name vs) \<and>
     (if vacuum \<in> cv_name ` set vs then storage_names vs = [vacuum]
      else length (storage_names vs) = 1)"

lemma serve_all_names [simp]: "map cv_name (serve_all vs) = map cv_name vs"
  by (simp add: serve_all_def)

lemma serve_all_append [simp]: "serve_all (vs @ ws) = serve_all vs @ serve_all ws"
  by (simp add: serve_all_def)

lemma serve_all_vacuum [simp]: "serve_all [vacuum_version] = [vacuum_version]"
  by (simp add: serve_all_def vacuum_version_def)

lemma storage_names_append [simp]:
  "storage_names (vs @ ws) = storage_names vs @ storage_names ws"
  by (simp add: storage_names_def)

lemma storage_names_serve_all:
  "storage_names (serve_all vs) = filter (\<lambda>n. n = vacuum) (storage_names vs)"
  by (induction vs) (auto simp: serve_all_def storage_names_def)

lemma storage_names_vacuum [simp]: "storage_names [vacuum_version] = [vacuum]"
  by (simp add: storage_names_def vacuum_version_def)

lemma vacuum_version_name [simp]: "cv_name vacuum_version = vacuum"
  by (simp add: vacuum_version_def)

lemma storage_names_subset: "set (storage_names vs) \<subseteq> cv_name ` set vs"
  by (auto simp: storage_names_def)

lemma served_serve_all:
  "v \<in> set (serve_all vs) \<Longrightarrow> cv_name v \<noteq> vacuum \<Longrightarrow> cv_served v"
  by (auto simp: serve_all_def split: if_splits)

text \<open>One round of the loop of \<open>AppendVersion\<close>.\<close>

definition append_one :: "crd_version list \<Rightarrow> crd_version \<Rightarrow> crd_version list" where
  "append_one vs v =
     (if has_version (cv_name v) vs then vs
      else serve_all (vs @ v # (if has_version vacuum vs then [] else [vacuum_version])))"

lemma append_versions_fold: "append_versions vs ns = foldl append_one vs ns"
  by (induction vs ns rule: append_versions.induct) (simp_all add: append_one_def Let_def)

lemma append_one_names:
  "map cv_name (append_one vs v) = map cv_name vs @
     (if has_version (cv_name v) vs then []
      else cv_name v # (if has_version vacuum vs then [] else [vacuum]))"
  unfolding append_one_def by simp

lemma filter_eq_nil: "x \<notin> set xs \<Longrightarrow> filter (\<lambda>y. y = x) xs = []"
  by (induction xs) auto

lemma storage_names_vacuum_free:
  "vacuum \<notin> cv_name ` set vs \<Longrightarrow> storage_names (serve_all vs) = []"
  using storage_names_subset [of vs] by (auto simp: storage_names_serve_all intro: filter_eq_nil)

lemma append_one_well_stored:
  assumes ws: "well_stored vs" and v: "cv_name v \<noteq> vacuum"
  shows "well_stored (append_one vs v)"
proof (cases "has_version (cv_name v) vs")
  case True
  then show ?thesis using ws by (simp add: append_one_def)
next
  case new: False
  have dist: "distinct (map cv_name (append_one vs v))"
    using ws v new by (auto simp: append_one_names well_stored_def has_version_iff)
  have "vacuum \<in> set (map cv_name (append_one vs v))"
    using new by (auto simp: append_one_names has_version_iff)
  then have vac: "vacuum \<in> cv_name ` set (append_one vs v)" by simp
  have v0: "storage_names (serve_all [v]) = []"
    using v by (simp add: storage_names_vacuum_free)
  have parts: "serve_all (vs @ v # xs) = serve_all vs @ serve_all [v] @ serve_all xs" for xs
    by (simp add: serve_all_def)
  have "storage_names (append_one vs v) = [vacuum]"
  proof (cases "has_version vacuum vs")
    case True
    then have "storage_names vs = [vacuum]" using ws by (simp add: well_stored_def has_version_iff)
    then show ?thesis using True v0 new
      by (simp add: append_one_def storage_names_serve_all [of vs])
  next
    case False
    then have "storage_names (serve_all vs) = []"
      by (simp add: storage_names_vacuum_free has_version_iff)
    then show ?thesis using False v0 new
      by (simp add: append_one_def parts del: serve_all_append)
  qed
  with dist vac show ?thesis by (simp add: well_stored_def)
qed

lemma append_versions_well_stored:
  "well_stored vs \<Longrightarrow> (\<And>v. v \<in> set ns \<Longrightarrow> cv_name v \<noteq> vacuum) \<Longrightarrow> well_stored (append_versions vs ns)"
  unfolding append_versions_fold
  by (induction ns arbitrary: vs) (simp_all add: append_one_well_stored)

lemma append_versions_prefix:
  "\<exists>ys. map cv_name (append_versions vs ns) = map cv_name vs @ ys"
  unfolding append_versions_fold
proof (induction ns arbitrary: vs)
  case (Cons n ns)
  from Cons [of "append_one vs n"] show ?case by (auto simp: append_one_names)
qed simp

lemma append_versions_adds:
  "v \<in> set ns \<Longrightarrow> cv_name v \<in> cv_name ` set (append_versions vs ns)"
  unfolding append_versions_fold
proof (induction ns arbitrary: vs)
  case (Cons n ns)
  show ?case
  proof (cases "v = n")
    case True
    obtain ys where "map cv_name (foldl append_one (append_one vs n) ns) =
        map cv_name (append_one vs n) @ ys"
      using append_versions_prefix [of "append_one vs n" ns] by (auto simp: append_versions_fold)
    moreover have "cv_name n \<in> set (map cv_name (append_one vs n))"
      by (auto simp: append_one_names has_version_iff)
    ultimately have "cv_name n \<in> set (map cv_name (foldl append_one (append_one vs n) ns))" by simp
    then show ?thesis using True by simp
  qed (use Cons in auto)
qed simp

definition all_served :: "crd_version list \<Rightarrow> bool" where
  "all_served vs \<longleftrightarrow> (\<forall>v \<in> set vs. cv_name v \<noteq> vacuum \<longrightarrow> cv_served v \<and> \<not> cv_storage v)"

lemma all_served_append_one:
  "all_served vs \<or> cv_name v \<notin> cv_name ` set vs \<Longrightarrow> all_served (append_one vs v)"
  by (auto simp: append_one_def all_served_def serve_all_def has_version_iff)

lemma append_versions_served:
  "all_served vs \<or> (\<exists>v \<in> set ns. cv_name v \<notin> cv_name ` set vs) \<Longrightarrow> all_served (append_versions vs ns)"
  unfolding append_versions_fold
proof (induction ns arbitrary: vs)
  case (Cons n ns)
  have "all_served (append_one vs n) \<or> (\<exists>v \<in> set ns. cv_name v \<notin> cv_name ` set (append_one vs n))"
  proof (cases "cv_name n \<in> cv_name ` set vs")
    case True
    then have "append_one vs n = vs" by (simp add: append_one_def has_version_iff)
    with Cons.prems True show ?thesis by auto
  qed (use all_served_append_one in blast)
  then show ?case using Cons.IH by simp
qed simp

section \<open>Status schemas of all versions\<close>

lemma lookup_put_prop: "map_of (put_prop k s ps) j = (if j = k then Some s else map_of ps j)"
  by (induction k s ps rule: put_prop.induct) auto

lemma set_status_keeps:
  "set_status ns v = Ok v' \<Longrightarrow> cv_name v' = cv_name v \<and> cv_served v' = cv_served v \<and>
     cv_storage v' = cv_storage v \<and> (open_api v' = None \<longleftrightarrow> open_api v = None)"
  by (auto simp: set_status_def open_api_def split: option.splits)

lemma set_status_lookup:
  "set_status ns v = Ok v' \<Longrightarrow> open_api v' = Some s \<Longrightarrow> lookup_prop ''status'' s = Some ns"
  by (auto simp: set_status_def open_api_def lookup_prop_def props_of_def with_props_def lookup_put_prop
      split: option.splits)

lemma set_status_all_Ok:
  "set_status_all ns vs = Ok vs' \<longleftrightarrow> list_all2 (\<lambda>v v'. set_status ns v = Ok v') vs vs'"
proof (induction vs arbitrary: vs')
  case (Cons v vs)
  show ?case
    by (auto simp: list_all2_Cons1 Cons.IH [symmetric] split: outcome.splits)
qed auto

lemma set_status_not_Err: "set_status ns v \<noteq> Err e"
  by (simp add: set_status_def split: option.split)

definition nil_properties :: "crd_version \<Rightarrow> bool" where
  "nil_properties v \<longleftrightarrow> (case open_api v of None \<Rightarrow> False | Some s \<Rightarrow> sc_props s = None)"

lemma set_status_cases:
  "if nil_properties v then set_status ns v = Panic assign_nil_map else (\<exists>v'. set_status ns v = Ok v')"
  by (auto simp: set_status_def nil_properties_def split: option.splits)

lemma set_status_all_cases:
  "if \<exists>v \<in> set vs. nil_properties v then set_status_all ns vs = Panic assign_nil_map
   else (\<exists>vs'. set_status_all ns vs = Ok vs')"
proof (induction vs)
  case (Cons v vs)
  with set_status_cases [of v ns] show ?case by (auto split: if_splits)
qed simp

lemma set_status_all_keeps:
  assumes "set_status_all ns vs = Ok vs'"
  shows "map cv_name vs' = map cv_name vs" "storage_names vs' = storage_names vs"
    "map cv_served vs' = map cv_served vs"
  using assms unfolding set_status_all_Ok
  by (induction rule: list_all2_induct) (auto simp: storage_names_def dest: set_status_keeps)

lemma find_index_in_range: "find_index p xs = Some i \<Longrightarrow> i < length xs \<and> p (xs ! i)"
  by (induction xs arbitrary: i) (auto split: if_splits)

lemma set_status_all_has_status:
  "set_status_all ns vs = Ok vs' \<Longrightarrow> v \<in> set vs \<Longrightarrow> open_api v \<noteq> None \<Longrightarrow> \<exists>v' \<in> set vs'. has_status v'"
  unfolding set_status_all_Ok
proof (induction rule: list_all2_induct)
  case (Cons w ws w' ws')
  show ?case
  proof (cases "v = w")
    case True
    then obtain s where s: "open_api w' = Some s"
      using Cons.prems set_status_keeps [OF Cons.hyps(1)] by auto
    with set_status_lookup [OF Cons.hyps(1) s] have "has_status w'" by (simp add: has_status_def)
    then show ?thesis by simp
  qed (use Cons in auto)
qed simp

lemma set_status_all_status:
  "set_status_all ns vs = Ok vs' \<Longrightarrow> v' \<in> set vs' \<Longrightarrow> has_status v' \<Longrightarrow> version_status v' = ns"
  unfolding set_status_all_Ok
proof (induction rule: list_all2_induct)
  case (Cons w ws w' ws')
  show ?case
  proof (cases "v' = w'")
    case True
    then obtain s where s: "open_api w' = Some s"
      using Cons.prems by (auto simp: has_status_def split: option.splits)
    from set_status_lookup [OF Cons.hyps(1) s] s True show ?thesis
      by (simp add: version_status_def status_prop_def)
  qed (use Cons in auto)
qed simp

lemma UpdateStatus_versions:
  "UpdateStatus name c v = Ok c' \<Longrightarrow> \<exists>s vs. open_api v = Some s \<and>
     set_status_all (status_prop s) (crd_versions c) = Ok vs \<and> c' = c\<lparr>crd_versions := vs\<rparr>"
  by (auto simp: UpdateStatus_def split: option.splits outcome.splits)

text \<open>The status schema that \<open>StatusEqual\<close> looks at.\<close>

definition first_status :: "crd \<Rightarrow> schema option" where
  "first_status c = (case find has_status (crd_versions c) of
     None \<Rightarrow> None | Some v \<Rightarrow> Some (version_status v))"

lemma find_index_find:
  "(case find_index p xs of None \<Rightarrow> None | Some i \<Rightarrow> Some (xs ! i)) = find p xs"
proof (induction xs)
  case (Cons x xs)
  then show ?case by (cases "find_index p xs") auto
qed simp

lemma first_status_index:
  "first_status c = (if searchFirstStatus c = -1 then None
     else Some (version_status (crd_versions c ! nat (searchFirstStatus c))))"
  unfolding first_status_def searchFirstStatus_def
  by (subst find_index_find [symmetric]) (simp split: option.split)

lemma StatusEqual_spec:
  "StatusEqual E n1 c1 n2 c2 =
     (case first_status c1 of None \<Rightarrow> Inl (no_status_err n1)
      | Some s1 \<Rightarrow> (case env_marshal E (JSchema s1) of
          Inl e \<Rightarrow> Inl (Wrap ''error hashing CRD status: '' e '''')
        | Inr b1 \<Rightarrow> (case first_status c2 of None \<Rightarrow> Inl (no_status_err n2)
          | Some s2 \<Rightarrow> (case env_marshal E (JSchema s2) of
              Inl e \<Rightarrow> Inl (Wrap ''error hashing generated CRD status: '' e '''')
            | Inr b2 \<Rightarrow> Inr (Write NewFNVObjectHash b1 = Write NewFNVObjectHash b2)))))"
  unfolding StatusEqual_def first_status_index Let_def
  by (simp add: GetHash_inj split: sum.split)

section \<open>Properties\<close>

text \<open>
  C14: \<open>AppendVersion\<close> keeps a CRD's version list acceptable to the API server (distinct names,
  exactly one storage version, which is \<open>vacuum\<close> once it exists), removes and renames nothing,
  makes every added version present, and, as soon as it adds one, leaves every version but
  \<open>vacuum\<close> served and not stored.
\<close>

theorem AppendVersion_versions:
  assumes "AppendVersion c toadd = Inr c'" and "well_stored (crd_versions c)"
    and "\<forall>v \<in> set (crd_versions toadd). cv_name v \<noteq> vacuum"
  shows "well_stored (crd_versions c') \<and>
    (\<exists>ys. map cv_name (crd_versions c') = map cv_name (crd_versions c) @ ys) \<and>
    cv_name ` set (crd_versions toadd) \<subseteq> cv_name ` set (crd_versions c') \<and>
    (cv_name ` set (crd_versions toadd) \<subseteq> cv_name ` set (crd_versions c) \<or>
       all_served (crd_versions c'))"
proof -
  have c': "crd_versions c' = append_versions (crd_versions c) (crd_versions toadd)"
    using assms(1) by (auto simp: AppendVersion_def)
  have "all_served (crd_versions c')"
    if "\<not> cv_name ` set (crd_versions toadd) \<subseteq> cv_name ` set (crd_versions c)"
    unfolding c' by (rule append_versions_served) (use that in auto)
  then show ?thesis
    using append_versions_well_stored [OF assms(2), of "crd_versions toadd"] assms(3)
      append_versions_prefix append_versions_adds
    unfolding c' by blast
qed

theorem AppendVersion_versions_witness:
  "well_stored (crd_versions (example_crd (append_versions [example_version ''v1-0-0'' True True]
     [example_version ''v1-1-0'' True True])))"
proof -
  let ?c = "example_crd [example_version ''v1-0-0'' True True]"
  let ?t = "example_crd [example_version ''v1-1-0'' True True]"
  let ?d = "example_crd (append_versions [example_version ''v1-0-0'' True True]
     [example_version ''v1-1-0'' True True])"
  have "AppendVersion ?c ?t = Inr ?d"
    by (simp add: AppendVersion_def example_crd_def)
  moreover have "well_stored (crd_versions ?c)"
    by (simp add: well_stored_def example_crd_def example_version_def storage_names_def vacuum_def)
  moreover have "\<forall>v \<in> set (crd_versions ?t). cv_name v \<noteq> vacuum"
    by (simp add: example_crd_def example_version_def vacuum_def)
  ultimately show ?thesis using AppendVersion_versions [of ?c ?t ?d] by blast
qed

lemma UpdateStatus_settles:
  assumes "StatusEqual E n1 c n2 g = Inr b" and "crd_versions g = [v]"
    and "UpdateStatus n1 c v = Ok c'"
  shows "StatusEqual E n1 c' n2 g = Inr True \<and>
    map cv_name (crd_versions c') = map cv_name (crd_versions c) \<and>
    storage_names (crd_versions c') = storage_names (crd_versions c) \<and>
    map cv_served (crd_versions c') = map cv_served (crd_versions c)"
proof -
  obtain s vs where s: "open_api v = Some s"
    and vs: "set_status_all (status_prop s) (crd_versions c) = Ok vs"
    and c': "c' = c\<lparr>crd_versions := vs\<rparr>"
    using UpdateStatus_versions [OF assms(3)] by blast
  obtain s1 s2 where s1: "first_status c = Some s1" and s2: "first_status g = Some s2"
    and m: "\<exists>b2. env_marshal E (JSchema s2) = Inr b2"
    using assms(1) unfolding StatusEqual_spec by (auto split: option.splits sum.splits)
  have s2': "s2 = status_prop s"
    using s2 s assms(2) by (auto simp: first_status_def version_status_def split: if_splits)
  obtain w where "w \<in> set (crd_versions c)" "open_api w \<noteq> None"
    using s1 by (auto simp: first_status_def has_status_def find_Some_iff split: option.splits)
      (metis nth_mem option.distinct(1))
  from set_status_all_has_status [OF vs this] obtain w' where "w' \<in> set vs" "has_status w'" by blast
  then obtain u where u: "find has_status vs = Some u"
    by (cases "find has_status vs") (auto simp: find_None_iff)
  then have "u \<in> set vs" "has_status u" by (auto simp: find_Some_iff)
  from set_status_all_status [OF vs this] u
  have "first_status c' = Some (status_prop s)" by (simp add: first_status_def c')
  with m s2 s2' set_status_all_keeps [OF vs] show ?thesis
    unfolding StatusEqual_spec by (auto simp: c' split: sum.splits)
qed

text \<open>
  One status update converges. When the generated CRD consists of the one version handed to
  \<open>UpdateStatus\<close> and \<open>StatusEqual\<close> found its status schema to differ, then after the update
  \<open>StatusEqual\<close> finds them equal; names, storage and served flags are unchanged.
\<close>

theorem UpdateStatus_converges:
  assumes "StatusEqual E n1 c n2 g = Inr b" and "crd_versions g = [v]"
    and "UpdateStatus n1 c v = Ok c'"
  shows "StatusEqual E n1 c' n2 g = Inr True \<and>
    map cv_name (crd_versions c') = map cv_name (crd_versions c) \<and>
    storage_names (crd_versions c') = storage_names (crd_versions c) \<and>
    map cv_served (crd_versions c') = map cv_served (crd_versions c)"
  using assms by (rule UpdateStatus_settles)

text \<open>
  C33: \<open>UpdateStatus\<close> fails with a Go panic exactly when the generated version has a schema and
  some version of the existing CRD has one whose \<open>Properties\<close> map is nil.
\<close>

theorem UpdateStatus_panic_iff:
  "(\<exists>p. UpdateStatus name c v = Panic p) =
     (open_api v \<noteq> None \<and> (\<exists>w \<in> set (crd_versions c). nil_properties w))"
  using set_status_all_cases [of "crd_versions c"]
  by (auto simp: UpdateStatus_def split: option.splits outcome.splits if_splits)
    (metis outcome.distinct(3) outcome.distinct(5))+

theorem UpdateStatus_converges_witness:
  "StatusEqual sample_env ''crd'' (example_crd [example_version ''v1'' True True]) ''gen''
     (example_crd [example_version ''v2'' True True]) = Inr True"
proof -
  let ?c = "example_crd [(example_version ''v1'' True True)\<lparr>cv_schema := Some (Some
     (with_props example_schema (Some [(''spec'', Schema ''object'' '''' None None None None None GNull),
        (''status'', plain_schema ''string'' '''')])))\<rparr>]"
  let ?v = "example_version ''v2'' True True"
  let ?d = "example_crd [example_version ''v1'' True True]"
  have "StatusEqual sample_env ''crd'' ?c ''gen'' (example_crd [?v]) = Inr False"
    by (simp add: StatusEqual_spec first_status_def has_status_def version_status_def status_prop_def
        lookup_prop_def props_of_def open_api_def example_defs sample_env_def with_props_def
        plain_schema_def Write_def NewFNVObjectHash_def fnv_offset64_def fnv_step_def
        fnv_prime64_def)
  moreover have "UpdateStatus ''crd'' ?c ?v = Ok ?d"
    by (simp add: UpdateStatus_def set_status_def open_api_def example_defs status_prop_def
        lookup_prop_def props_of_def with_props_def)
  moreover have "crd_versions (example_crd [?v]) = [?v]" by (simp add: example_crd_def)
  ultimately show ?thesis
    using UpdateStatus_converges [of sample_env "''crd''" ?c "''gen''" "example_crd [?v]" False ?v ?d]
    by blast
qed

end
