(* ===== verification/Retry.thy ===== *)
theory Retry
  imports Prelude
begin

text \<open>
  The bounded retry loop of \<open>internal/tools/retry/retry.go\<close>, over an arbitrary state, with its
  exponential delay on 64-bit durations, and the interfaces its clients use: what an operation
  handed to the loop may do to the trace (\<open>retried\<close>), and what an error classifier promises
  (\<open>retry_classifier\<close>).
\<close>

section \<open>Durations\<close>

text \<open>\<open>time.Duration\<close> is an \<open>int64\<close> of nanoseconds; \<open>wrap64\<close> is its wrap-around.\<close>

definition wrap64 :: "int \<Rightarrow> int" where
  "wrap64 x = (x + 2 ^ 63) mod 2 ^ 64 - 2 ^ 63"

definition millisecond :: int where "millisecond = 1000000"
definition second :: int where "second = 1000000000"
definition minute :: int where "minute = 60000000000"
definition hour :: int where "hour = 3600000000000"

lemmas duration_defs = millisecond_def second_def minute_def hour_def

lemma wrap64_id: "- (2 ^ 63) \<le> x \<Longrightarrow> x < 2 ^ 63 \<Longrightarrow> wrap64 x = x"
  by (simp add: wrap64_def)

lemma wrap64_range: "- (2 ^ 63) \<le> wrap64 x \<and> wrap64 x < 2 ^ 63"
  by (simp add: wrap64_def)

text \<open>\<open>Delay\<close>: \<open>initial << (attempt - 1)\<close>, capped by a positive maximum.\<close>

definition Delay :: "int \<Rightarrow> int \<Rightarrow> int \<Rightarrow> int" where
  "Delay initial maximum attempt =
     (if attempt \<le> 1
      then (if maximum > 0 \<and> initial > maximum then maximum else initial)
      else (let delay = wrap64 (initial * 2 ^ nat (attempt - 1))
            in if maximum > 0 \<and> delay > maximum then maximum else delay))"

section \<open>The loop\<close>

text \<open>
  \<open>retry.Config\<close>: the function fields may be nil. \<open>OnRetry\<close> only observes (it logs); it is kept
  as a state transformer so that its position in the loop is part of the model.
\<close>

record 'w retry_config =
  rc_attempts :: int
  rc_initial :: int
  rc_maximum :: int
  rc_wait :: "(int \<Rightarrow> ('w, unit) prog) option"
  rc_retryable :: "(err \<Rightarrow> bool) option"
  rc_onRetry :: "(int \<Rightarrow> int \<Rightarrow> err \<Rightarrow> 'w \<Rightarrow> 'w) option"

definition run_onRetry ::
  "'w retry_config \<Rightarrow> int \<Rightarrow> int \<Rightarrow> err \<Rightarrow> 'w \<Rightarrow> 'w" where
  "run_onRetry cfg attempt delay e w =
     (case rc_onRetry cfg of None \<Rightarrow> w | Some f \<Rightarrow> f attempt delay e w)"

text \<open>
  The \<open>for attempt := 1; attempt <= attempts; attempt++\<close> loop, from a given attempt on.
\<close>

function Do_loop ::
  "'w retry_config \<Rightarrow> int \<Rightarrow> (int \<Rightarrow> ('w, unit) prog) \<Rightarrow> (err \<Rightarrow> bool) \<Rightarrow> ('w, 'a) prog \<Rightarrow>
   int \<Rightarrow> ('w, 'a) prog" where
  "Do_loop cfg attempts wait retryable operation attempt w =
     (if attempt \<le> attempts then
        (case operation w of
           (Ok result, w1) \<Rightarrow> (Ok result, w1)
         | (Panic s, w1) \<Rightarrow> (Panic s, w1)
         | (Err e, w1) \<Rightarrow>
             if \<not> retryable e \<or> attempt = attempts then (Err e, w1)
             else
               let delay = Delay (rc_initial cfg) (rc_maximum cfg) attempt;
                   w2 = run_onRetry cfg attempt delay e w1
               in case wait delay w2 of
                    (Ok _, w3) \<Rightarrow> Do_loop cfg attempts wait retryable operation (attempt + 1) w3
                  | (Err e2, w3) \<Rightarrow> (Err e2, w3)
                  | (Panic s, w3) \<Rightarrow> (Panic s, w3))
      else (Err (Plain ''retry exhausted unexpectedly''), w))"
  by pat_completeness auto
termination
  by (relation "measure (\<lambda>(cfg, attempts, wait, retryable, operation, attempt, w).
        nat (attempts + 1 - attempt))") auto

declare Do_loop.simps [simp del]

text \<open>
  \<open>Do\<close>: the defaults for absent fields (one attempt, the package's own \<open>Wait\<close>, nothing
  retryable), then the loop. \<open>Wait\<close> itself (a timer raced with the context) is the environment's,
  passed as \<open>default_wait\<close>.
\<close>

definition Do ::
  "(int \<Rightarrow> ('w, unit) prog) \<Rightarrow> 'w retry_config \<Rightarrow> ('w, 'a) prog \<Rightarrow> ('w, 'a) prog" where
  "Do default_wait cfg operation =
     (let attempts = (if rc_attempts cfg \<le> 0 then 1 else rc_attempts cfg);
          wait = (case rc_wait cfg of None \<Rightarrow> default_wait | Some f \<Rightarrow> f);
          retryable = (case rc_retryable cfg of None \<Rightarrow> (\<lambda>_. False) | Some f \<Rightarrow> f)
      in Do_loop cfg attempts wait retryable operation 1)"

definition IsContextCanceled :: "err \<Rightarrow> bool" where
  "IsContextCanceled e = errors_is e Canceled"

section \<open>The loop against a specification on attempts\<close>

text \<open>
  Reference semantics: one attempt, then as long as attempts remain and the error is retryable,
  a wait and the rest. It counts what is left instead of what was done.
\<close>

fun retry_spec ::
  "(nat \<Rightarrow> err \<Rightarrow> 'w \<Rightarrow> unit outcome \<times> 'w) \<Rightarrow> (err \<Rightarrow> bool) \<Rightarrow> ('w, 'a) prog \<Rightarrow> nat \<Rightarrow> ('w, 'a) prog"
where
  "retry_spec pause retryable operation 0 = operation"
| "retry_spec pause retryable operation (Suc n) = (\<lambda>w.
     case operation w of
       (Err e, w1) \<Rightarrow>
         if retryable e
         then thenP (pause n e) (\<lambda>_. retry_spec pause retryable operation n) w1
         else (Err e, w1)
     | done \<Rightarrow> done)"

lemma Do_loop_spec:
  assumes "attempt \<le> attempts"
    and "n = nat (attempts - attempt)"
    and pause: "\<And>m e w. pause m e w =
       (let a = attempts - 1 - int m; d = Delay (rc_initial cfg) (rc_maximum cfg) a
        in wait d (run_onRetry cfg a d e w))"
  shows "Do_loop cfg attempts wait retryable operation attempt w =
         retry_spec pause retryable operation n w"
  using assms(1,2)
proof (induction n arbitrary: attempt w)
  case 0
  then have "attempt = attempts" by simp
  then show ?case
    by (subst Do_loop.simps) (simp split: prod.split outcome.split)
next
  case (Suc n)
  then have less: "attempt < attempts" and n: "n = nat (attempts - (attempt + 1))"
    and a: "attempts - 1 - int n = attempt" by auto
  have IH: "Do_loop cfg attempts wait retryable operation (attempt + 1) v =
        retry_spec pause retryable operation n v" for v
    by (rule Suc.IH) (use less n in auto)
  have p: "pause n e v = (let d = Delay (rc_initial cfg) (rc_maximum cfg) attempt
      in wait d (run_onRetry cfg attempt d e v))" for e v
    using pause [of n e v] a by (simp add: Let_def)
  show ?case
    using less
    by (simp add: Do_loop.simps [of cfg attempts _ _ _ attempt] thenP_def p IH Let_def
        split: prod.split outcome.split)
qed

text \<open>\<open>Do\<close> against the same reference: how many attempts it makes, and what its pauses do.\<close>

definition attempts_of :: "'w retry_config \<Rightarrow> nat" where
  "attempts_of cfg = (if rc_attempts cfg \<le> 0 then 1 else nat (rc_attempts cfg))"

definition wait_of :: "(int \<Rightarrow> ('w, unit) prog) \<Rightarrow> 'w retry_config \<Rightarrow> int \<Rightarrow> ('w, unit) prog" where
  "wait_of default_wait cfg = (case rc_wait cfg of None \<Rightarrow> default_wait | Some f \<Rightarrow> f)"

definition retryable_of :: "'w retry_config \<Rightarrow> err \<Rightarrow> bool" where
  "retryable_of cfg = (case rc_retryable cfg of None \<Rightarrow> (\<lambda>_. False) | Some f \<Rightarrow> f)"

definition pause_of ::
  "(int \<Rightarrow> ('w, unit) prog) \<Rightarrow> 'w retry_config \<Rightarrow> nat \<Rightarrow> err \<Rightarrow> 'w \<Rightarrow> unit outcome \<times> 'w" where
  "pause_of default_wait cfg m e w =
     (let a = int (attempts_of cfg) - 1 - int m; d = Delay (rc_initial cfg) (rc_maximum cfg) a
      in wait_of default_wait cfg d (run_onRetry cfg a d e w))"

lemma Do_spec:
  "Do default_wait cfg operation w =
     retry_spec (pause_of default_wait cfg) (retryable_of cfg) operation (attempts_of cfg - 1) w"
proof -
  have a: "(if rc_attempts cfg \<le> 0 then 1 else rc_attempts cfg) = int (attempts_of cfg)"
    by (simp add: attempts_of_def)
  have "Do default_wait cfg operation w =
      Do_loop cfg (int (attempts_of cfg)) (wait_of default_wait cfg) (retryable_of cfg) operation 1 w"
    by (simp add: Do_def Let_def a wait_of_def retryable_of_def)
  also have "\<dots> = retry_spec (pause_of default_wait cfg) (retryable_of cfg) operation (attempts_of cfg - 1) w"
  proof (rule Do_loop_spec)
    show "(1 :: int) \<le> int (attempts_of cfg)" "attempts_of cfg - 1 = nat (int (attempts_of cfg) - 1)"
      by (auto simp: attempts_of_def)
  qed (simp add: pause_of_def)
  finally show ?thesis .
qed

text \<open>A measure of the state that every run of the operation and every wait raises by a bounded amount.\<close>

lemma retry_spec_bounded:
  fixes size :: "'w \<Rightarrow> nat"
  assumes "\<And>w. size (snd (operation w)) \<le> size w + a" and "\<And>m e w. size (snd (pause m e w)) \<le> size w + b"
  shows "size (snd (retry_spec pause retryable operation n w)) \<le> size w + Suc n * a + n * b"
proof (induction n arbitrary: w)
  case 0
  then show ?case using assms(1) by simp
next
  case (Suc n)
  obtain r w1 where r: "operation w = (r, w1)" by fastforce
  have w1: "size w1 \<le> size w + a" using assms(1) [of w] r by simp
  have step: "size (snd (thenP (pause n e) (\<lambda>_. retry_spec pause retryable operation n) w1)) \<le>
      size w1 + b + (Suc n * a + n * b)" for e
  proof -
    obtain r2 w2 where r2: "pause n e w1 = (r2, w2)" by fastforce
    have "size w2 \<le> size w1 + b" using assms(2) [of n e w1] r2 by simp
    with Suc.IH [of w2] r2 show ?thesis by (cases r2) (simp_all add: thenP_def)
  qed
  show ?case
  proof (cases r)
    case (Err e)
    with r w1 step [of e] show ?thesis by (simp add: algebra_simps)
  qed (use r w1 in simp_all)
qed

text \<open>
  C39: A retried operation is run at most as often as configured (once, if nothing or a non-positive number is
  configured), with one wait less: whatever a run and a wait add to a measure of the state, the whole adds
  at most that often as much. The loop always ends.
\<close>

theorem Do_bounded:
  fixes size :: "'w \<Rightarrow> nat"
  assumes "\<And>w. size (snd (operation w)) \<le> size w + a"
    and "\<And>d w. size (snd (wait_of default_wait cfg d w)) \<le> size w + b"
    and "\<And>k d e w. size (run_onRetry cfg k d e w) \<le> size w"
  shows "size (snd (Do default_wait cfg operation w)) \<le>
    size w + attempts_of cfg * a + (attempts_of cfg - 1) * b"
proof -
  have "size (snd (pause_of default_wait cfg m e w)) \<le> size w + b" for m e w
    using order_trans [OF assms(2) add_right_mono [OF assms(3)]] by (simp add: pause_of_def Let_def)
  from retry_spec_bounded [of size operation a, OF assms(1) this] have
    "size (snd (Do default_wait cfg operation w)) \<le>
       size w + Suc (attempts_of cfg - 1) * a + (attempts_of cfg - 1) * b"
    by (simp add: Do_spec)
  moreover have "Suc (attempts_of cfg - 1) = attempts_of cfg" by (simp add: attempts_of_def)
  ultimately show ?thesis by simp
qed

text \<open>Three failing attempts, counted: three runs and two waits.\<close>

definition counting_config :: "(nat \<times> nat) retry_config" where
  "counting_config = \<lparr>rc_attempts = 3, rc_initial = 1, rc_maximum = 0, rc_wait = None,
     rc_retryable = Some (\<lambda>e. True), rc_onRetry = None\<rparr>"

theorem Do_bounded_witness:
  "Do (\<lambda>d (runs, waits). (Ok (), (runs, Suc waits))) counting_config
     (\<lambda>(runs, waits). (Err Canceled :: nat outcome, (Suc runs, waits))) (0, 0) = (Err Canceled, (3, 2)) \<and>
   fst (snd (Do (\<lambda>d (runs, waits). (Ok (), (runs, Suc waits))) counting_config
     (\<lambda>(runs, waits). (Err Canceled :: nat outcome, (Suc runs, waits))) (0, 0))) \<le> 3"
proof
  show "Do (\<lambda>d (runs, waits). (Ok (), (runs, Suc waits))) counting_config
     (\<lambda>(runs, waits). (Err Canceled :: nat outcome, (Suc runs, waits))) (0, 0) = (Err Canceled, (3, 2))"
    by (simp add: Do_def counting_config_def Do_loop.simps run_onRetry_def Let_def)
  have "attempts_of counting_config = 3" by (simp add: attempts_of_def counting_config_def)
  with Do_bounded [of fst "\<lambda>(runs, waits). (Err Canceled :: nat outcome, (Suc runs, waits))" 1
      "\<lambda>d (runs, waits). (Ok (), (runs, Suc waits))" counting_config 0 "(0, 0)"]
  show "fst (snd (Do (\<lambda>d (runs, waits). (Ok (), (runs, Suc waits))) counting_config
     (\<lambda>(runs, waits). (Err Canceled :: nat outcome, (Suc runs, waits))) (0, 0))) \<le> 3"
    by (simp add: wait_of_def counting_config_def run_onRetry_def split_beta)
qed

section \<open>The contract of a retried operation\<close>

text \<open>
  What the loop's clients promise of the operation they hand over and of the wait: from states
  satisfying \<open>I\<close> they append only events of \<open>A\<close>, and a failed attempt leaves \<open>I\<close> true for the
  next one. \<open>I\<close> speaks about captured variables that survive from attempt to attempt.
\<close>

locale retried =
  fixes tr :: "'w \<Rightarrow> 'e list"
    and A :: "'e set"
    and I :: "'w \<Rightarrow> bool"
    and pause :: "int \<Rightarrow> ('w, unit) prog"
    and operation :: "('w, 'a) prog"
  assumes op_emits:
      "I w \<Longrightarrow> \<exists>es. tr (snd (operation w)) = tr w @ es \<and> set es \<subseteq> A"
    and op_keeps: "I w \<Longrightarrow> operation w = (Err e, w') \<Longrightarrow> I w'"
    and pause_emits: "\<exists>es. tr (snd (pause d w)) = tr w @ es \<and> set es \<subseteq> A"
    and pause_keeps: "I w \<Longrightarrow> I (snd (pause d w))"
begin

lemma loop_emits:
  assumes on: "\<And>a d e w. run_onRetry cfg a d e w = w"
  shows "I w \<Longrightarrow> \<exists>es. tr (snd (Do_loop cfg attempts pause retryable operation attempt w)) = tr w @ es
           \<and> set es \<subseteq> A"
proof (induction "nat (attempts + 1 - attempt)" arbitrary: attempt w)
  case 0
  then show ?case by (simp add: Do_loop.simps [of cfg attempts])
next
  case (Suc n)
  obtain r w1 where r: "operation w = (r, w1)" by fastforce
  obtain es where es: "tr w1 = tr w @ es" "set es \<subseteq> A" using op_emits [OF Suc(3)] r by auto
  show ?case
  proof (cases "\<exists>e. r = Err e \<and> retryable e \<and> attempt < attempts")
    case False
    with r es Suc(2) show ?thesis
      by (auto simp: Do_loop.simps [of cfg attempts _ _ _ attempt] split: outcome.split)
  next
    case True
    then obtain e where e: "r = Err e" "retryable e" "attempt < attempts" by blast
    have w1: "I w1" using op_keeps [OF Suc(3)] r e(1) by simp
    define d where "d = Delay (rc_initial cfg) (rc_maximum cfg) attempt"
    obtain r2 w3 where r2: "pause d w1 = (r2, w3)" by fastforce
    obtain fs where fs: "tr w3 = tr w1 @ fs" "set fs \<subseteq> A"
      using pause_emits [of d w1] r2 by auto
    have w3: "I w3" using pause_keeps [OF w1, of d] r2 by simp
    have "n = nat (attempts + 1 - (attempt + 1))" using Suc(2) by simp
    from Suc(1) [OF this w3] obtain gs where
      "tr (snd (Do_loop cfg attempts pause retryable operation (attempt + 1) w3)) = tr w3 @ gs"
      "set gs \<subseteq> A" by blast
    with es fs e r r2 show ?thesis
      by (cases r2) (auto simp: Do_loop.simps [of cfg attempts _ _ _ attempt] Let_def
          on d_def [symmetric])
  qed
qed

lemma retry_emits:
  assumes "rc_wait cfg = None \<or> rc_wait cfg = Some pause"
    and "\<And>a d e w. run_onRetry cfg a d e w = w" and "I w"
  shows "\<exists>es. tr (snd (Do pause cfg operation w)) = tr w @ es \<and> set es \<subseteq> A"
  unfolding Do_def Let_def using loop_emits [OF assms(2,3)] assms(1) by auto

end

text \<open>Without captured variables the contract is a plain \<open>emits\<close>.\<close>

lemma retriedI:
  assumes "emits tr A operation" and "\<And>d. emits tr A (pause d)"
  shows "retried tr A (\<lambda>_. True) pause operation"
  by unfold_locales (use assms in \<open>auto simp: emits_def\<close>)

lemma Do_emits [emits_intros]:
  assumes "emits tr A operation" and "\<And>d. emits tr A (default_wait d)"
    and "rc_wait cfg = None \<or> rc_wait cfg = Some default_wait"
    and "\<And>a d e w. run_onRetry cfg a d e w = w"
  shows "emits tr A (Do default_wait cfg operation)"
  using retried.retry_emits [OF retriedI, OF assms] by (simp add: emits_def)

section \<open>Results and invariants of the loop\<close>

text \<open>A result of the loop is a result of the operation in some state of the run.\<close>

lemma Do_loop_Ok:
  assumes "Do_loop cfg attempts wait retryable operation attempt w = (Ok x, w')"
  shows "\<exists>v. operation v = (Ok x, w')"
  using assms
proof (induction "nat (attempts + 1 - attempt)" arbitrary: attempt w)
  case 0
  then show ?case by (simp add: Do_loop.simps [of cfg attempts])
next
  case (Suc n)
  then have n: "n = nat (attempts + 1 - (attempt + 1))" by simp
  from Suc(3) show ?case
    by (subst (asm) Do_loop.simps)
      (auto simp: Let_def split: prod.splits outcome.splits if_splits dest: Suc(1) [OF n])
qed

lemma Do_Ok: "Do default_wait cfg operation w = (Ok x, w') \<Longrightarrow> \<exists>v. operation v = (Ok x, w')"
  unfolding Do_def Let_def by (rule Do_loop_Ok)

text \<open>An operation that succeeds at once, or fails for good at once, is run exactly once.\<close>

lemma Do_first_Ok: "operation w = (Ok x, w') \<Longrightarrow> Do default_wait cfg operation w = (Ok x, w')"
  by (simp add: Do_def Let_def Do_loop.simps)

lemma Do_first_Panic:
  "operation w = (Panic s, w') \<Longrightarrow> Do default_wait cfg operation w = (Panic s, w')"
  by (simp add: Do_def Let_def Do_loop.simps)

lemma Do_first_permanent:
  "operation w = (Err e, w') \<Longrightarrow> rc_retryable cfg = Some f \<Longrightarrow> \<not> f e \<Longrightarrow>
   Do default_wait cfg operation w = (Err e, w')"
  by (simp add: Do_def Let_def Do_loop.simps)

text \<open>An invariant of the operation and of waiting is an invariant of the loop.\<close>

lemma Do_loop_invariant:
  assumes op: "\<And>w. I w \<Longrightarrow> I (snd (operation w))" and wt: "\<And>d w. I w \<Longrightarrow> I (snd (wait d w))"
    and on: "\<And>a d e w. I w \<Longrightarrow> I (run_onRetry cfg a d e w)"
  shows "I w \<Longrightarrow> I (snd (Do_loop cfg attempts wait retryable operation attempt w))"
proof (induction "nat (attempts + 1 - attempt)" arbitrary: attempt w)
  case 0
  then show ?case by (simp add: Do_loop.simps [of cfg attempts])
next
  case (Suc n)
  then have n: "n = nat (attempts + 1 - (attempt + 1))" by simp
  obtain r w1 where r: "operation w = (r, w1)" by fastforce
  with op [OF Suc(3)] have w1: "I w1" by simp
  define d where "d = Delay (rc_initial cfg) (rc_maximum cfg) attempt"
  show ?case
  proof (cases "\<exists>e. r = Err e \<and> retryable e \<and> attempt < attempts")
    case False
    with r w1 Suc(2) show ?thesis
      by (auto simp: Do_loop.simps [of cfg attempts _ _ _ attempt] split: outcome.split)
  next
    case True
    then obtain e where e: "r = Err e" "retryable e" "attempt < attempts" by blast
    obtain r2 w3 where r2: "wait d (run_onRetry cfg attempt d e w1) = (r2, w3)" by fastforce
    have w3: "I w3" using wt [OF on [OF w1], of d attempt d e] r2 by simp
    show ?thesis
      using Suc(1) [OF n w3] w3 e r r2
      by (cases r2) (auto simp: Do_loop.simps [of cfg attempts _ _ _ attempt] Let_def
          d_def [symmetric])
  qed
qed

lemma Do_invariant:
  assumes "\<And>w. I w \<Longrightarrow> I (snd (operation w))" and "\<And>d w. I w \<Longrightarrow> I (snd (default_wait d w))"
    and "\<And>f d w. rc_wait cfg = Some f \<Longrightarrow> I w \<Longrightarrow> I (snd (f d w))"
    and "\<And>a d e w. I w \<Longrightarrow> I (run_onRetry cfg a d e w)"
    and "I w"
  shows "I (snd (Do default_wait cfg operation w))"
  unfolding Do_def Let_def
  by (rule Do_loop_invariant) (use assms in \<open>auto split: option.splits\<close>)

text \<open>The successful attempt ran in a state the failed attempts and the waits could reach.\<close>

lemma Do_loop_Ok_inv:
  assumes op: "\<And>w e w'. I w \<Longrightarrow> operation w = (Err e, w') \<Longrightarrow> I w'"
    and wt: "\<And>d w. I w \<Longrightarrow> I (snd (wait d w))"
    and on: "\<And>a d e w. run_onRetry cfg a d e w = w"
  shows "I w \<Longrightarrow> Do_loop cfg attempts wait retryable operation attempt w = (Ok x, w') \<Longrightarrow>
    \<exists>v. I v \<and> operation v = (Ok x, w')"
proof (induction "nat (attempts + 1 - attempt)" arbitrary: attempt w)
  case 0
  then show ?case by (simp add: Do_loop.simps [of cfg attempts])
next
  case (Suc n)
  then have n: "n = nat (attempts + 1 - (attempt + 1))" by simp
  obtain r w1 where r: "operation w = (r, w1)" by fastforce
  define d where "d = Delay (rc_initial cfg) (rc_maximum cfg) attempt"
  show ?case
  proof (cases r)
    case (Err e)
    then have w1: "I w1" using op Suc(3) r by blast
    obtain r2 w3 where r2: "wait d w1 = (r2, w3)" by fastforce
    have w3: "I w3" using wt [OF w1, of d] r2 by simp
    from Suc(4) r Err r2 have "Do_loop cfg attempts wait retryable operation (attempt + 1) w3 = (Ok x, w')"
      by (subst (asm) Do_loop.simps) (auto simp: on Let_def d_def [symmetric]
          split: if_splits outcome.splits)
    from Suc(1) [OF n w3 this] show ?thesis .
  qed (use Suc r in \<open>auto simp: Do_loop.simps [of cfg attempts _ _ _ attempt] split: if_splits\<close>)
qed

lemma Do_Ok_inv:
  assumes "Do default_wait cfg operation w = (Ok x, w')" and "I w"
    and "\<And>w e w'. I w \<Longrightarrow> operation w = (Err e, w') \<Longrightarrow> I w'"
    and "\<And>d w. I w \<Longrightarrow> I (snd (default_wait d w))"
    and "\<And>a d e w. run_onRetry cfg a d e w = w" and "rc_wait cfg = None"
  shows "\<exists>v. I v \<and> operation v = (Ok x, w')"
  using Do_loop_Ok_inv [where I = I and cfg = cfg and operation = operation and wait = default_wait
      and w = w and w' = w' and x = x, OF assms(3-5)] assms(1,2,6)
  by (auto simp: Do_def Let_def)

text \<open>A loop that ends with an error ends in a state the failed attempts and the waits can reach.\<close>

lemma Do_loop_Err_inv:
  assumes op: "\<And>w e w'. I w \<Longrightarrow> operation w = (Err e, w') \<Longrightarrow> I w'"
    and wt: "\<And>d w. I w \<Longrightarrow> I (snd (wait d w))"
    and on: "\<And>a d e w. run_onRetry cfg a d e w = w"
  shows "I w \<Longrightarrow> Do_loop cfg attempts wait retryable operation attempt w = (Err e, w') \<Longrightarrow> I w'"
proof (induction "nat (attempts + 1 - attempt)" arbitrary: attempt w)
  case 0
  then show ?case by (simp add: Do_loop.simps [of cfg attempts])
next
  case (Suc n)
  then have n: "n = nat (attempts + 1 - (attempt + 1))" by simp
  obtain r w1 where r: "operation w = (r, w1)" by fastforce
  define d where "d = Delay (rc_initial cfg) (rc_maximum cfg) attempt"
  show ?case
  proof (cases r)
    case (Err e1)
    then have w1: "I w1" using op Suc(3) r by blast
    obtain r2 w3 where r2: "wait d w1 = (r2, w3)" by fastforce
    have w3: "I w3" using wt [OF w1, of d] r2 by simp
    show ?thesis
      using Suc(1) [OF n w3] Suc(3,4) r Err r2 w1 w3
      by (auto simp: Do_loop.simps [of cfg attempts _ _ _ attempt] on Let_def d_def [symmetric]
          split: if_splits outcome.splits)
  qed (use Suc r in \<open>auto simp: Do_loop.simps [of cfg attempts _ _ _ attempt] split: if_splits\<close>)
qed

lemma Do_Err_inv:
  assumes "Do default_wait cfg operation w = (Err e, w')" and "I w"
    and "\<And>w e w'. I w \<Longrightarrow> operation w = (Err e, w') \<Longrightarrow> I w'"
    and "\<And>d w. I w \<Longrightarrow> I (snd (default_wait d w))"
    and "\<And>a d e w. run_onRetry cfg a d e w = w" and "rc_wait cfg = None"
  shows "I w'"
  using Do_loop_Err_inv [where I = I and cfg = cfg and operation = operation and wait = default_wait
      and w = w and w' = w' and e = e, OF assms(3-5)] assms(1,2,6)
  by (auto simp: Do_def Let_def)

text \<open>The loop panics only when the operation or the wait does.\<close>

lemma no_panic_Do_loop:
  assumes op: "no_panic operation" and wt: "\<And>d. no_panic (wait d)"
  shows "fst (Do_loop cfg attempts wait retryable operation attempt w) \<noteq> Panic s"
proof (induction "nat (attempts + 1 - attempt)" arbitrary: attempt w)
  case 0
  then show ?case by (simp add: Do_loop.simps [of cfg attempts])
next
  case (Suc n)
  then have n: "n = nat (attempts + 1 - (attempt + 1))" by simp
  show ?case
    by (subst Do_loop.simps)
      (auto simp: Let_def Suc(1) [OF n] split: prod.split outcome.split
          dest: no_panicE [OF _ op] no_panicE [OF _ wt])
qed

lemma no_panic_Do [no_panic_intros]:
  assumes "no_panic operation" and "\<And>d. no_panic (default_wait d)"
    and "rc_wait cfg = None \<or> rc_wait cfg = Some default_wait"
  shows "no_panic (Do default_wait cfg operation)"
  using assms no_panic_Do_loop [of operation default_wait]
  by (auto simp: no_panic_def Do_def Let_def)

section \<open>The contract of an error classifier\<close>

text \<open>
  What every \<open>Retryable\<close> function of the program promises: a cancelled context is never retried, a
  deadline of one attempt always is.
\<close>

locale retry_classifier =
  fixes retryable :: "err \<Rightarrow> bool"
  assumes canceled: "errors_is e Canceled \<Longrightarrow> \<not> retryable e"
    and deadline: "errors_is e DeadlineExceeded \<Longrightarrow> \<not> errors_is e Canceled \<Longrightarrow> retryable e"
begin

text \<open>A cancelled operation ends the loop at once: one run, no wait.\<close>

lemma canceled_stops:
  assumes "rc_retryable cfg = Some retryable" and "operation w = (Err e, w')" and "errors_is e Canceled"
  shows "Do default_wait cfg operation w = (Err e, w')"
  using assms canceled [OF assms(3)] by (simp add: Do_def Let_def Do_loop.simps)

text \<open>A deadline with attempts left is waited out and tried again.\<close>

lemma deadline_continues:
  assumes "rc_retryable cfg = Some retryable" and "rc_attempts cfg > 1"
    and "operation w = (Err e, w1)" and "errors_is e DeadlineExceeded" and "\<not> errors_is e Canceled"
    and "rc_wait cfg = Some wait" and "\<And>a d e w. run_onRetry cfg a d e w = w"
    and "wait (Delay (rc_initial cfg) (rc_maximum cfg) 1) w1 = (Ok (), w2)"
  shows "Do default_wait cfg operation w =
    Do_loop cfg (rc_attempts cfg) wait retryable operation 2 w2"
  unfolding Do_def Let_def using assms deadline [OF assms(4,5)]
  by (subst Do_loop.simps) (simp add: Let_def)

end

end
