(* ===== verification/Kube_Client.thy ===== *)
theory Kube_Client
  imports Sample Retry
begin

text \<open>
  \<open>internal/tools/kube/client.go\<close> and \<open>options.go\<close>: create-or-update (\<open>Apply\<close>), delete-if-present
  (\<open>Uninstall\<close>) and \<open>Get\<close> over the Kubernetes client, the first two inside the retry loop. The
  object handed in is captured by the retried closure and mutated by it (its resourceVersion is
  set from what the server holds), so it is part of the loop's state.
\<close>

definition clientRetryAttempts :: int where "clientRetryAttempts = 10"
definition clientRetryInitialDelay :: int where "clientRetryInitialDelay = 100 * millisecond"
definition clientRetryMaximumDelay :: int where "clientRetryMaximumDelay = 100 * millisecond"

definition isRetryableClientError :: "err \<Rightarrow> bool" where
  "isRetryableClientError e = (if errors_is e Canceled then False else True)"

definition client_retry :: "'w retry_config" where
  "client_retry = \<lparr>rc_attempts = clientRetryAttempts, rc_initial = clientRetryInitialDelay,
     rc_maximum = clientRetryMaximumDelay, rc_wait = None,
     rc_retryable = Some isRetryableClientError, rc_onRetry = None\<rparr>"

text \<open>One attempt of \<open>Apply\<close>; the captured variable is the object.\<close>

definition apply_attempt :: "'s env \<Rightarrow> apply_options \<Rightarrow> (kobj \<times> 's world, unit) prog" where
  "apply_attempt E opts =
     thenP getVar (\<lambda>obj1.
     thenP (tryP (besideP (k_get E obj1))) (\<lambda>got.
     case got of
       Inl e \<Rightarrow>
         if IsNotFound E e
         then thenP (besideP (k_create E opts obj1)) setVar
         else failP e
     | Inr tmp \<Rightarrow>
         (let obj2 = obj1\<lparr>ko_resourceVersion := ko_resourceVersion tmp\<rparr>
          in thenP (setVar obj2) (\<lambda>_.
             thenP (besideP (k_update E opts obj2)) setVar))))"

text \<open>\<open>Apply\<close> returns the object as the caller sees it afterwards.\<close>

definition Apply :: "'s env \<Rightarrow> kobj \<Rightarrow> apply_options \<Rightarrow> ('s world, kobj) prog" where
  "Apply E obj1 opts = (\<lambda>w.
     case Do (\<lambda>d. besideP (Wait E d)) client_retry (apply_attempt E opts) (obj1, w) of
       (Ok _, (obj2, w')) \<Rightarrow> (Ok obj2, w')
     | (Err e, (_, w')) \<Rightarrow> (Err e, w')
     | (Panic s, (_, w')) \<Rightarrow> (Panic s, w'))"

definition uninstall_attempt :: "'s env \<Rightarrow> uninstall_options \<Rightarrow> (kobj \<times> 's world, unit) prog" where
  "uninstall_attempt E opts =
     thenP getVar (\<lambda>obj1.
     thenP (tryP (besideP (k_get E obj1))) (\<lambda>got.
     case got of
       Inl e \<Rightarrow> if IsNotFound E e then returnP () else failP e
     | Inr tmp \<Rightarrow>
         (let obj2 = obj1\<lparr>ko_resourceVersion := ko_resourceVersion tmp\<rparr>
          in thenP (setVar obj2) (\<lambda>_.
             thenP (tryP (besideP (k_delete E opts obj2))) (\<lambda>del.
             case del of
               Inl e \<Rightarrow> if IsNotFound E e then returnP () else failP e
             | Inr _ \<Rightarrow> returnP ())))))"

definition Uninstall :: "'s env \<Rightarrow> kobj \<Rightarrow> uninstall_options \<Rightarrow> ('s world, unit) prog" where
  "Uninstall E obj1 opts = (\<lambda>w.
     case Do (\<lambda>d. besideP (Wait E d)) client_retry (uninstall_attempt E opts) (obj1, w) of
       (r, (_, w')) \<Rightarrow> (r, w'))"

definition Get :: "'s env \<Rightarrow> kobj \<Rightarrow> ('s world, kobj) prog" where
  "Get E obj1 = k_get E obj1"

section \<open>What they call\<close>

text \<open>Two objects that differ at most in their resourceVersion.\<close>

definition same_object :: "kobj \<Rightarrow> kobj \<Rightarrow> bool" where
  "same_object o1 o2 \<longleftrightarrow> o1\<lparr>ko_resourceVersion := ''''\<rparr> = o2\<lparr>ko_resourceVersion := ''''\<rparr>"

lemma same_object_refl [simp]: "same_object o1 o1"
  by (simp add: same_object_def)

lemma same_object_set_rv [simp]:
  "same_object (o1\<lparr>ko_resourceVersion := v\<rparr>) o2 = same_object o1 o2"
  by (simp add: same_object_def)

lemma same_object_fields:
  "same_object o1 o2 \<Longrightarrow> ko_kind o1 = ko_kind o2 \<and> ko_apiVersion o1 = ko_apiVersion o2 \<and>
     ko_name o1 = ko_name o2 \<and> ko_namespace o1 = ko_namespace o2 \<and> ko_body o1 = ko_body o2"
  by (cases o1, cases o2) (simp add: same_object_def)

fun apply_event :: "apply_options \<Rightarrow> kobj \<Rightarrow> event \<Rightarrow> bool" where
  "apply_event opts o1 (EvGet k a ns n) =
     (k = ko_kind o1 \<and> a = ko_apiVersion o1 \<and> ns = ko_namespace o1 \<and> n = ko_name o1)"
| "apply_event opts o1 (EvCreate ao o2) = (ao = opts \<and> same_object o2 o1)"
| "apply_event opts o1 (EvUpdate ao o2) = (ao = opts \<and> same_object o2 o1)"
| "apply_event opts o1 (EvWait d) = True"
| "apply_event opts o1 _ = False"

fun uninstall_event :: "uninstall_options \<Rightarrow> kobj \<Rightarrow> event \<Rightarrow> bool" where
  "uninstall_event opts o1 (EvGet k a ns n) =
     (k = ko_kind o1 \<and> a = ko_apiVersion o1 \<and> ns = ko_namespace o1 \<and> n = ko_name o1)"
| "uninstall_event opts o1 (EvDelete uo o2) = (uo = opts \<and> same_object o2 o1)"
| "uninstall_event opts o1 (EvWait d) = True"
| "uninstall_event opts o1 _ = False"

interpretation apply_op: retried
  "\<lambda>s. w_trace (snd s)" "{ev. apply_event opts orig ev}" "\<lambda>s. same_object (fst s) orig"
  "\<lambda>d. besideP (Wait E d)" "apply_attempt E opts"
  for E :: "'s env" and opts orig
proof
  fix w :: "kobj \<times> 's world"
  assume "same_object (fst w) orig"
  then show "\<exists>es. w_trace (snd (snd (apply_attempt E opts w))) = w_trace (snd w) @ es
      \<and> set es \<subseteq> {ev. apply_event opts orig ev}"
    using same_object_fields [of "fst w" orig]
    by (cases w) (auto simp: apply_attempt_def prog_defs call_defs call_apply Let_def split: sum.split)
next
  fix w :: "kobj \<times> 's world" and e w'
  assume "same_object (fst w) orig" "apply_attempt E opts w = (Err e, w')"
  then show "same_object (fst w') orig"
    by (cases w) (auto simp: apply_attempt_def prog_defs call_defs call_apply Let_def
        split: sum.splits if_splits)
next
  fix d and w :: "kobj \<times> 's world"
  show "\<exists>es. w_trace (snd (snd (besideP (Wait E d) w))) = w_trace (snd w) @ es
      \<and> set es \<subseteq> {ev. apply_event opts orig ev}"
    by (cases w) (auto simp: prog_defs call_defs call_apply)
next
  fix d and w :: "kobj \<times> 's world"
  assume "same_object (fst w) orig"
  then show "same_object (fst (snd (besideP (Wait E d) w))) orig"
    by (cases w) (auto simp: prog_defs split: prod.split)
qed

interpretation uninstall_op: retried
  "\<lambda>s. w_trace (snd s)" "{ev. uninstall_event opts orig ev}" "\<lambda>s. same_object (fst s) orig"
  "\<lambda>d. besideP (Wait E d)" "uninstall_attempt E opts"
  for E :: "'s env" and opts orig
proof
  fix w :: "kobj \<times> 's world"
  assume "same_object (fst w) orig"
  then show "\<exists>es. w_trace (snd (snd (uninstall_attempt E opts w))) = w_trace (snd w) @ es
      \<and> set es \<subseteq> {ev. uninstall_event opts orig ev}"
    using same_object_fields [of "fst w" orig]
    by (cases w) (auto simp: uninstall_attempt_def prog_defs call_defs call_apply Let_def split: sum.split)
next
  fix w :: "kobj \<times> 's world" and e w'
  assume "same_object (fst w) orig" "uninstall_attempt E opts w = (Err e, w')"
  then show "same_object (fst w') orig"
    by (cases w) (auto simp: uninstall_attempt_def prog_defs call_defs call_apply Let_def
        split: sum.splits if_splits)
next
  fix d and w :: "kobj \<times> 's world"
  show "\<exists>es. w_trace (snd (snd (besideP (Wait E d) w))) = w_trace (snd w) @ es
      \<and> set es \<subseteq> {ev. uninstall_event opts orig ev}"
    by (cases w) (auto simp: prog_defs call_defs call_apply)
next
  fix d and w :: "kobj \<times> 's world"
  assume "same_object (fst w) orig"
  then show "same_object (fst (snd (besideP (Wait E d) w))) orig"
    by (cases w) (auto simp: prog_defs split: prod.split)
qed

lemma client_retry_simps [simp]:
  "rc_wait client_retry = None" "rc_retryable client_retry = Some isRetryableClientError"
  "run_onRetry client_retry a d e w = w"
  by (simp_all add: client_retry_def run_onRetry_def)

lemma snd_Apply: "snd (Apply E o1 opts w) =
  snd (snd (Do (\<lambda>d. besideP (Wait E d)) client_retry (apply_attempt E opts) (o1, w)))"
  by (simp add: Apply_def split: prod.split outcome.split)

lemma snd_Uninstall: "snd (Uninstall E o1 opts w) =
  snd (snd (Do (\<lambda>d. besideP (Wait E d)) client_retry (uninstall_attempt E opts) (o1, w)))"
  by (simp add: Uninstall_def split: prod.split)

lemma emits_Apply [emits_intros]:
  "(\<And>ev. apply_event opts o1 ev \<Longrightarrow> ev \<in> A) \<Longrightarrow> emits w_trace A (Apply E o1 opts)"
proof (rule emitsI)
  fix w
  assume A: "\<And>ev. apply_event opts o1 ev \<Longrightarrow> ev \<in> A"
  obtain es where "w_trace (snd (Apply E o1 opts w)) = w_trace w @ es"
      "set es \<subseteq> {ev. apply_event opts o1 ev}"
    using apply_op.retry_emits [of client_retry E "(o1, w)" o1 opts] by (auto simp: snd_Apply)
  with A show "\<exists>es. w_trace (snd (Apply E o1 opts w)) = w_trace w @ es \<and> set es \<subseteq> A" by blast
qed

lemma emits_Uninstall [emits_intros]:
  "(\<And>ev. uninstall_event opts o1 ev \<Longrightarrow> ev \<in> A) \<Longrightarrow> emits w_trace A (Uninstall E o1 opts)"
proof (rule emitsI)
  fix w
  assume A: "\<And>ev. uninstall_event opts o1 ev \<Longrightarrow> ev \<in> A"
  obtain es where "w_trace (snd (Uninstall E o1 opts w)) = w_trace w @ es"
      "set es \<subseteq> {ev. uninstall_event opts o1 ev}"
    using uninstall_op.retry_emits [of client_retry E "(o1, w)" o1 opts] by (auto simp: snd_Uninstall)
  with A show "\<exists>es. w_trace (snd (Uninstall E o1 opts w)) = w_trace w @ es \<and> set es \<subseteq> A" by blast
qed

lemma emits_Get [emits_intros]:
  "EvGet (ko_kind o1) (ko_apiVersion o1) (ko_namespace o1) (ko_name o1) \<in> A \<Longrightarrow>
   emits w_trace A (Get E o1)"
  by (simp add: Get_def emits_intros)

lemma apply_attempt_sample: "\<exists>o2 w'. apply_attempt sample_env ao (o1, w) = (Ok (), (o2, w'))"
  by (cases "find_obj (ko_kind o1) (ko_namespace o1) (ko_name o1) (w_ext w)")
    (simp_all add: apply_attempt_def prog_defs sample_get, simp_all add: k_create_def k_update_def
      call_apply sample_env_def sample_put_def Let_def setVar_def)

lemma always_ok_Apply_sample: "always_ok (Apply sample_env o1 ao)"
  unfolding always_ok_def
proof
  fix w
  obtain o2 w' where "apply_attempt sample_env ao (o1, w) = (Ok (), (o2, w'))"
    using apply_attempt_sample by blast
  then have "Do (\<lambda>d. besideP (Wait sample_env d)) client_retry (apply_attempt sample_env ao) (o1, w) =
      (Ok (), (o2, w'))"
    by (rule Do_first_Ok)
  then show "\<exists>x w'. Apply sample_env o1 ao w = (Ok x, w')"
    by (simp add: Apply_def)
qed

lemma no_panic_Apply [no_panic_intros]: "no_panic (Apply E o1 opts)"
proof -
  have "no_panic (apply_attempt E opts)"
    unfolding apply_attempt_def Let_def by (intro no_panic_intros)
  then have "no_panic (Do (\<lambda>d. besideP (Wait E d)) client_retry (apply_attempt E opts))"
    by (intro no_panic_Do no_panic_besideP no_panic_calls) simp_all
  then show ?thesis
    by (auto simp: no_panic_def Apply_def split: prod.split outcome.split) (metis fst_conv)
qed

lemma no_panic_Uninstall [no_panic_intros]: "no_panic (Uninstall E o1 opts)"
proof -
  have "no_panic (uninstall_attempt E opts)"
    unfolding uninstall_attempt_def Let_def by (intro no_panic_intros)
  then have "no_panic (Do (\<lambda>d. besideP (Wait E d)) client_retry (uninstall_attempt E opts))"
    by (intro no_panic_Do no_panic_besideP no_panic_calls) simp_all
  then show ?thesis
    by (auto simp: no_panic_def Uninstall_def split: prod.split) (metis fst_conv)
qed

lemma no_panic_Get [no_panic_intros]: "no_panic (Get E o1)"
  by (simp add: Get_def no_panic_intros)

interpretation client_errors: retry_classifier isRetryableClientError
  by unfold_locales (simp_all add: isRetryableClientError_def)

end
