(* ===== verification/Watcher.thy ===== *)
theory Watcher
  imports Runtime
begin

text \<open>
  \<open>internal/tools/kube/watcher/watch.go\<close>. \<open>WatchResource\<close> starts a goroutine that scans the watch
  channel and reports on one of two channels, and selects between those and a deadline. It is
  modelled twice: as a step relation with every interleaving (goroutine, deadline, select, Stop),
  and as the function the other components call, which fixes which events precede the deadline.
\<close>

section \<open>One event\<close>

text \<open>
  The loop body: skip what is not an object of the watched type, report readiness, report
  deletion, or go on.
\<close>

datatype verdict = Ready | Failed err | Continue

definition slash_name :: "string \<Rightarrow> string \<Rightarrow> string" where
  "slash_name ns name = ns @ ''/'' @ name"

definition deleted_err :: "string \<Rightarrow> string \<Rightarrow> err" where
  "deleted_err ns name = Plain (''resource '' @ slash_name ns name @ '' deleted'')"

definition ended_err :: "string \<Rightarrow> string \<Rightarrow> err" where
  "ended_err ns name =
     Plain (''watch ended before resource '' @ slash_name ns name @ '' ready'')"

definition timeout_err :: "string \<Rightarrow> string \<Rightarrow> err" where
  "timeout_err ns name =
     Plain (''timeout waiting for resource '' @ slash_name ns name @ '' to be ready'')"

definition watch_body ::
  "(kobj \<Rightarrow> bool) \<Rightarrow> string \<Rightarrow> string \<Rightarrow> watch_event \<Rightarrow> verdict" where
  "watch_body checker ns name ev =
     (case we_object ev of
        None \<Rightarrow> Continue
      | Some typedObj \<Rightarrow>
          if checker typedObj then Ready
          else if we_type ev = ''DELETED'' then Failed (deleted_err ns name)
          else Continue)"

lemma watch_body_Ready:
  "watch_body checker ns name ev = Ready \<longleftrightarrow> (\<exists>o1. we_object ev = Some o1 \<and> checker o1)"
  by (auto simp: watch_body_def split: option.splits)

section \<open>All interleavings\<close>

text \<open>
  \<open>ws_queue\<close>: events in the channel the goroutine has not received; \<open>ws_closed\<close>: the channel is
  closed (by the server or by the deferred \<open>Stop\<close>); \<open>ws_errCh\<close>: the buffered error channel of
  capacity one; \<open>ws_ready\<close>: \<open>readyCh\<close> is closed; \<open>ws_done\<close>: the goroutine has returned;
  \<open>ws_expired\<close>: the deadline has passed; \<open>ws_result\<close>: what \<open>WatchResource\<close> returned, if it has;
  \<open>ws_seen\<close>: the events received so far, kept for the statements.
\<close>

record watch_state =
  ws_queue :: "watch_event list"
  ws_closed :: bool
  ws_errCh :: "err list"
  ws_ready :: bool
  ws_done :: bool
  ws_expired :: bool
  ws_result :: "err option option"
  ws_seen :: "watch_event list"

definition watch_init :: watch_state where
  "watch_init = \<lparr>ws_queue = [], ws_closed = False, ws_errCh = [], ws_ready = False,
     ws_done = False, ws_expired = False, ws_result = None, ws_seen = []\<rparr>"

definition errCh_capacity :: nat where "errCh_capacity = 1"

inductive watch_step ::
  "(kobj \<Rightarrow> bool) \<Rightarrow> string \<Rightarrow> string \<Rightarrow> watch_state \<Rightarrow> watch_state \<Rightarrow> bool"
  for checker ns name where
  server_event: "\<not> ws_closed s \<Longrightarrow>
     watch_step checker ns name s (s\<lparr>ws_queue := ws_queue s @ [ev]\<rparr>)"
| server_close: "watch_step checker ns name s (s\<lparr>ws_closed := True\<rparr>)"
| expire: "watch_step checker ns name s (s\<lparr>ws_expired := True\<rparr>)"
| recv_ready: "\<not> ws_done s \<Longrightarrow> ws_queue s = ev # q \<Longrightarrow> watch_body checker ns name ev = Ready \<Longrightarrow>
     watch_step checker ns name s
       (s\<lparr>ws_queue := q, ws_seen := ws_seen s @ [ev], ws_ready := True, ws_done := True\<rparr>)"
| recv_failed: "\<not> ws_done s \<Longrightarrow> ws_queue s = ev # q \<Longrightarrow>
     watch_body checker ns name ev = Failed e \<Longrightarrow> length (ws_errCh s) < errCh_capacity \<Longrightarrow>
     watch_step checker ns name s
       (s\<lparr>ws_queue := q, ws_seen := ws_seen s @ [ev], ws_errCh := ws_errCh s @ [e],
          ws_done := True\<rparr>)"
| recv_continue: "\<not> ws_done s \<Longrightarrow> ws_queue s = ev # q \<Longrightarrow>
     watch_body checker ns name ev = Continue \<Longrightarrow>
     watch_step checker ns name s (s\<lparr>ws_queue := q, ws_seen := ws_seen s @ [ev]\<rparr>)"
| channel_end: "\<not> ws_done s \<Longrightarrow> ws_queue s = [] \<Longrightarrow> ws_closed s \<Longrightarrow>
     length (ws_errCh s) < errCh_capacity \<Longrightarrow>
     watch_step checker ns name s
       (s\<lparr>ws_errCh := ws_errCh s @ [ended_err ns name], ws_done := True\<rparr>)"
| select_timeout: "ws_result s = None \<Longrightarrow> ws_expired s \<Longrightarrow>
     watch_step checker ns name s
       (s\<lparr>ws_result := Some (Some (timeout_err ns name)), ws_closed := True\<rparr>)"
| select_ready: "ws_result s = None \<Longrightarrow> ws_ready s \<Longrightarrow>
     watch_step checker ns name s (s\<lparr>ws_result := Some None, ws_closed := True\<rparr>)"
| select_error: "ws_result s = None \<Longrightarrow> ws_errCh s = e # es \<Longrightarrow>
     watch_step checker ns name s
       (s\<lparr>ws_result := Some (Some e), ws_errCh := es, ws_closed := True\<rparr>)"

inductive watch_reachable ::
  "(kobj \<Rightarrow> bool) \<Rightarrow> string \<Rightarrow> string \<Rightarrow> watch_state \<Rightarrow> bool" for checker ns name where
  watch_start: "watch_reachable checker ns name watch_init"
| watch_next: "watch_reachable checker ns name s \<Longrightarrow> watch_step checker ns name s t \<Longrightarrow>
     watch_reachable checker ns name t"

inductive_cases watch_stepE: "watch_step checker ns name s t"

text \<open>
  The invariant: until the goroutine returns it has reported nothing; \<open>readyCh\<close> is closed only
  after an event that passed the checker, and success is returned only then; after the return
  the channel is closed.
\<close>

definition watch_inv ::
  "(kobj \<Rightarrow> bool) \<Rightarrow> string \<Rightarrow> string \<Rightarrow> watch_state \<Rightarrow> bool" where
  "watch_inv checker ns name s \<longleftrightarrow>
     (\<not> ws_done s \<longrightarrow> ws_errCh s = [] \<and> \<not> ws_ready s) \<and>
     (ws_ready s \<longrightarrow> (\<exists>ev \<in> set (ws_seen s). watch_body checker ns name ev = Ready)) \<and>
     (ws_result s = Some None \<longrightarrow> ws_ready s) \<and>
     (ws_result s \<noteq> None \<longrightarrow> ws_closed s) \<and>
     length (ws_errCh s) \<le> errCh_capacity"

lemma watch_inv_init: "watch_inv checker ns name watch_init"
  by (simp add: watch_inv_def watch_init_def errCh_capacity_def)

lemma watch_step_inv:
  "watch_step checker ns name s t \<Longrightarrow> watch_inv checker ns name s \<Longrightarrow> watch_inv checker ns name t"
  by (induction rule: watch_step.induct) (auto simp: watch_inv_def errCh_capacity_def)

lemma watch_reachable_inv:
  "watch_reachable checker ns name s \<Longrightarrow> watch_inv checker ns name s"
  by (induction rule: watch_reachable.induct) (auto intro: watch_inv_init watch_step_inv)

text \<open>Steps of the goroutine alone, and how many it can still take once nothing more arrives.\<close>

definition goroutine_enabled ::
  "(kobj \<Rightarrow> bool) \<Rightarrow> string \<Rightarrow> string \<Rightarrow> watch_state \<Rightarrow> bool" where
  "goroutine_enabled checker ns name s \<longleftrightarrow> (\<exists>t. watch_step checker ns name s t \<and>
     (ws_done t \<and> \<not> ws_done s \<or> length (ws_queue t) < length (ws_queue s)))"

lemma goroutine_never_blocks:
  assumes inv: "watch_inv checker ns name s" and nd: "\<not> ws_done s"
    and q: "ws_queue s \<noteq> [] \<or> ws_closed s"
  shows "goroutine_enabled checker ns name s"
proof (cases "ws_queue s")
  case Nil
  with q have "ws_closed s" by simp
  from inv nd have "length (ws_errCh s) < errCh_capacity"
    by (simp add: watch_inv_def errCh_capacity_def)
  from watch_step.channel_end [OF nd Nil \<open>ws_closed s\<close> this] nd show ?thesis
    unfolding goroutine_enabled_def by force
next
  case (Cons ev q)
  from inv nd have c: "length (ws_errCh s) < errCh_capacity"
    by (simp add: watch_inv_def errCh_capacity_def)
  show ?thesis
  proof (cases "watch_body checker ns name ev")
    case Ready
    from watch_step.recv_ready [OF nd Cons Ready] nd show ?thesis
      unfolding goroutine_enabled_def by force
  next
    case (Failed e)
    from watch_step.recv_failed [OF nd Cons Failed c] nd show ?thesis
      unfolding goroutine_enabled_def by force
  next
    case Continue
    from watch_step.recv_continue [OF nd Cons Continue] Cons show ?thesis
      unfolding goroutine_enabled_def by force
  qed
qed

section \<open>The function the other components call\<close>

fun watch_loop ::
  "(kobj \<Rightarrow> bool) \<Rightarrow> string \<Rightarrow> string \<Rightarrow> watch_event list \<Rightarrow> bool \<Rightarrow> (unit, unit) prog" where
  "watch_loop checker ns name [] closed =
     (if closed then failP (ended_err ns name) else failP (timeout_err ns name))"
| "watch_loop checker ns name (ev # evs) closed =
     (case watch_body checker ns name ev of
        Ready \<Rightarrow> returnP ()
      | Failed e \<Rightarrow> failP e
      | Continue \<Rightarrow> watch_loop checker ns name evs closed)"

definition WatchResource ::
  "'s env \<Rightarrow> gvr \<Rightarrow> (kobj \<Rightarrow> bool) \<Rightarrow> string \<Rightarrow> string \<Rightarrow> ('s world, unit) prog" where
  "WatchResource E g checker ns name =
     thenP (wrapping (''error watching resource '' @ slash_name ns name @ '': '')
              (k_watch E g ns name))
       (\<lambda>run. \<lambda>w. (fst (watch_loop checker ns name (wr_events run) (wr_closed run) ()), w))"

text \<open>Its outcome for a finished scan: the first decisive event wins.\<close>

definition decisive :: "(kobj \<Rightarrow> bool) \<Rightarrow> string \<Rightarrow> string \<Rightarrow> watch_event \<Rightarrow> bool" where
  "decisive checker ns name ev \<longleftrightarrow> watch_body checker ns name ev \<noteq> Continue"

lemma watch_loop_outcome:
  "fst (watch_loop checker ns name evs closed ()) =
     (case find (decisive checker ns name) evs of
        None \<Rightarrow> Err (if closed then ended_err ns name else timeout_err ns name)
      | Some ev \<Rightarrow> (case watch_body checker ns name ev of
            Ready \<Rightarrow> Ok () | Failed e \<Rightarrow> Err e | Continue \<Rightarrow> Ok ()))"
  by (induction evs) (auto simp: decisive_def split: verdict.split)

lemma watch_loop_Ok:
  "fst (watch_loop checker ns name evs closed ()) = Ok () \<Longrightarrow>
   \<exists>ev \<in> set evs. watch_body checker ns name ev = Ready"
  by (induction evs) (auto split: verdict.splits if_splits)

lemma watch_loop_no_panic: "fst (watch_loop checker ns name evs closed ()) \<noteq> Panic s"
  by (induction evs) (auto split: verdict.splits)

lemma emits_WatchResource [emits_intros]:
  "EvWatch g ns name \<in> A \<Longrightarrow> emits w_trace A (WatchResource E g checker ns name)"
  unfolding WatchResource_def
  by (intro emits_thenP emits_onErr emits_calls) (simp_all add: emits_def)

text \<open>
  Every outcome of the function is an outcome of some interleaving: deliver the events, let the
  goroutine scan them, then let the select fire.
\<close>

lemma reach_deliver:
  assumes "watch_reachable checker ns name s" and "\<not> ws_closed s"
  shows "watch_reachable checker ns name (s\<lparr>ws_queue := ws_queue s @ evs\<rparr>)"
proof (induction evs rule: rev_induct)
  case Nil
  then show ?case using assms by simp
next
  case (snoc ev evs)
  from watch_step.server_event [of "s\<lparr>ws_queue := ws_queue s @ evs\<rparr>" checker ns name ev]
  have "watch_step checker ns name (s\<lparr>ws_queue := ws_queue s @ evs\<rparr>)
      (s\<lparr>ws_queue := ws_queue s @ evs @ [ev]\<rparr>)" using assms(2) by simp
  with snoc show ?case by (rule watch_reachable.watch_next)
qed

lemma reach_scan:
  assumes "watch_reachable checker ns name s" and "\<not> ws_done s" and "ws_errCh s = []"
    and "ws_result s = None" and "ws_queue s = evs" and "ws_closed s = closed"
  shows "\<exists>t. watch_reachable checker ns name t \<and> (\<exists>r. ws_result t = Some r \<and>
      fst (watch_loop checker ns name evs closed ()) = (case r of None \<Rightarrow> Ok () | Some e \<Rightarrow> Err e))"
  using assms
proof (induction evs arbitrary: s)
  case Nil
  show ?case
  proof (cases closed)
    case True
    with Nil have "watch_reachable checker ns name
        (s\<lparr>ws_errCh := [ended_err ns name], ws_done := True\<rparr>)"
      using watch_step.channel_end [of s checker ns name]
      by (metis append_Nil errCh_capacity_def less_numeral_extra(1) list.size(3)
          watch_reachable.watch_next)
    from watch_reachable.watch_next [OF this watch_step.select_error] Nil(4) True
    show ?thesis by (intro exI conjI) (assumption | simp)+
  next
    case False
    from watch_reachable.watch_next [OF Nil(1) watch_step.expire]
    have "watch_reachable checker ns name (s\<lparr>ws_expired := True\<rparr>)" .
    from watch_reachable.watch_next [OF this watch_step.select_timeout] Nil(4) False
    show ?thesis by (intro exI conjI) (assumption | simp)+
  qed
next
  case (Cons ev evs)
  show ?case
  proof (cases "watch_body checker ns name ev")
    case Ready
    from watch_reachable.watch_next [OF Cons.prems(1)
        watch_step.recv_ready [OF Cons.prems(2) Cons.prems(5) Ready]]
    have "watch_reachable checker ns name
      (s\<lparr>ws_queue := evs, ws_seen := ws_seen s @ [ev], ws_ready := True, ws_done := True\<rparr>)" .
    from watch_reachable.watch_next [OF this watch_step.select_ready] Cons.prems(4) Ready
    show ?thesis by (intro exI conjI) (assumption | simp)+
  next
    case (Failed e)
    from watch_reachable.watch_next [OF Cons.prems(1)
        watch_step.recv_failed [OF Cons.prems(2) Cons.prems(5) Failed]] Cons.prems(3)
    have "watch_reachable checker ns name
      (s\<lparr>ws_queue := evs, ws_seen := ws_seen s @ [ev], ws_errCh := [e], ws_done := True\<rparr>)"
      by (simp add: errCh_capacity_def)
    from watch_reachable.watch_next [OF this watch_step.select_error] Cons.prems(4) Failed
    show ?thesis by (intro exI conjI) (assumption | simp)+
  next
    case Continue
    from watch_reachable.watch_next [OF Cons.prems(1)
        watch_step.recv_continue [OF Cons.prems(2) Cons.prems(5) Continue]]
    have "watch_reachable checker ns name
      (s\<lparr>ws_queue := evs, ws_seen := ws_seen s @ [ev]\<rparr>)" .
    from Cons.IH [OF this] Cons.prems Continue show ?thesis by simp
  qed
qed

section \<open>What every interleaving guarantees\<close>

definition watch_ready :: kobj where "watch_ready = zero_obj"

definition ready_event :: watch_event where
  "ready_event = \<lparr>we_type = ''ADDED'', we_object = Some watch_ready\<rparr>"

text \<open>
  C30: Whatever the interleaving of the server, the goroutine, the deadline and the select: success is
  reported only after an event whose object passed the checker was received; a goroutine that has not
  returned can always go on when there is an event to receive or the channel is closed, so it neither
  blocks on reporting nor outlives the watch; and once a result is returned the channel is closed.
\<close>

theorem watch_reachable_safe:
  assumes "watch_reachable checker ns name s"
  shows "(ws_result s = Some None \<longrightarrow> (\<exists>ev \<in> set (ws_seen s). \<exists>o1. we_object ev = Some o1 \<and> checker o1)) \<and>
    (\<not> ws_done s \<and> (ws_queue s \<noteq> [] \<or> ws_closed s) \<longrightarrow> goroutine_enabled checker ns name s) \<and>
    (ws_result s \<noteq> None \<longrightarrow> ws_closed s)"
  using watch_reachable_inv [OF assms] goroutine_never_blocks
  by (auto simp: watch_inv_def watch_body_Ready)

theorem watch_reachable_safe_witness:
  "\<exists>s. watch_reachable (\<lambda>_. True) ''ns'' ''n'' s \<and> ws_result s = Some None \<and>
     (\<exists>ev \<in> set (ws_seen s). \<exists>o1. we_object ev = Some o1)"
proof -
  let ?s1 = "watch_init\<lparr>ws_queue := [ready_event]\<rparr>"
  have "watch_step (\<lambda>_. True) ''ns'' ''n'' watch_init ?s1"
    using watch_step.server_event [of watch_init "\<lambda>_. True" "''ns''" "''n''" ready_event]
    by (simp add: watch_init_def)
  then have r1: "watch_reachable (\<lambda>_. True) ''ns'' ''n'' ?s1"
    by (rule watch_reachable.watch_next [OF watch_reachable.watch_start])
  obtain s r where s: "watch_reachable (\<lambda>_. True) ''ns'' ''n'' s" "ws_result s = Some r"
      "fst (watch_loop (\<lambda>_. True) ''ns'' ''n'' [ready_event] False ()) = (case r of None \<Rightarrow> Ok () | Some e \<Rightarrow> Err e)"
    using reach_scan [OF r1, of "[ready_event]" False] by (auto simp: watch_init_def)
  then have "r = None" by (cases r) (simp_all add: watch_body_def ready_event_def)
  with s watch_reachable_safe [OF s(1)] show ?thesis by auto
qed


end
