(* ===== verification/Crd.thy ===== *)
theory Crd
  imports Generation Kube_Client Watcher
begin

text \<open>
  \<open>internal/tools/crd/crd.go\<close>: reading, applying and removing the CustomResourceDefinition of a
  composition kind, and the conversion webhook configuration put into it.
\<close>

definition crdRetryAttempts :: int where "crdRetryAttempts = 10"
definition crdRetryInitialDelay :: int where "crdRetryInitialDelay = 100 * millisecond"
definition crdRetryMaximumDelay :: int where "crdRetryMaximumDelay = 100 * millisecond"

definition isRetryableCRDError :: "err \<Rightarrow> bool" where
  "isRetryableCRDError e = (if errors_is e Canceled then False else True)"

definition crd_retry :: "'w retry_config" where
  "crd_retry = \<lparr>rc_attempts = crdRetryAttempts, rc_initial = crdRetryInitialDelay,
     rc_maximum = crdRetryMaximumDelay, rc_wait = None,
     rc_retryable = Some isRetryableCRDError, rc_onRetry = None\<rparr>"

definition crdKind :: string where "crdKind = ''CustomResourceDefinition''"

text \<open>
  The typed, empty \<open>CustomResourceDefinition\<close> with the name \<open>gr.String()\<close> as the key of a read.
\<close>

definition crd_key :: "'s env \<Rightarrow> group_resource \<Rightarrow> kobj" where
  "crd_key E gr = zero_obj\<lparr>ko_kind := crdKind, ko_apiVersion := ''apiextensions.k8s.io/v1'',
     ko_name := env_gr_string E gr, ko_body := CrdBody zero_crd\<rparr>"

definition uninstall_crd_attempt :: "'s env \<Rightarrow> group_resource \<Rightarrow> ('s world, unit) prog" where
  "uninstall_crd_attempt E gr =
     thenP (tryP (k_get E (crd_key E gr))) (\<lambda>got.
     case got of
       Inl e \<Rightarrow> if IsNotFound E e then returnP () else failP e
     | Inr obj1 \<Rightarrow>
         thenP (tryP (k_delete E no_uninstall_options (typed crdKind obj1))) (\<lambda>del.
         case del of
           Inl e \<Rightarrow> if IsNotFound E e then returnP () else failP e
         | Inr _ \<Rightarrow> returnP ()))"

definition Uninstall_crd :: "'s env \<Rightarrow> group_resource \<Rightarrow> ('s world, unit) prog" where
  "Uninstall_crd E gr = Do (Wait E) crd_retry (uninstall_crd_attempt E gr)"

definition Get_crd :: "'s env \<Rightarrow> group_resource \<Rightarrow> ('s world, kobj option) prog" where
  "Get_crd E gr =
     thenP (tryP (k_get E (crd_key E gr))) (\<lambda>got.
     case got of
       Inl e \<Rightarrow> if IsNotFound E e then returnP None else failP e
     | Inr res \<Rightarrow> returnP (Some (typed crdKind res)))"

definition Lookup_crd :: "'s env \<Rightarrow> gvr \<Rightarrow> ('s world, bool) prog" where
  "Lookup_crd E g =
     thenP (tryP (k_get E (crd_key E (GroupResource g)))) (\<lambda>got.
     case got of
       Inl e \<Rightarrow> if IsNotFound E e then returnP False else failP e
     | Inr res \<Rightarrow> returnP (has_version (gvr_version g) (crd_versions (crd_of res))))"

record apply_opts =
  ap_caBundle :: "string option"
  ap_webhookServiceNamespace :: string
  ap_webhookServiceName :: string

definition injectConversionConfToCRD :: "crd \<Rightarrow> apply_opts \<Rightarrow> crd" where
  "injectConversionConfToCRD c opts =
     c\<lparr>crd_conversion_of := Some \<lparr>cn_strategy = ''Webhook'', cn_webhook = Some
        \<lparr>wc_reviewVersions = [''v1'', ''v1alpha1'', ''v1alpha2''], wc_clientConfig = Some
          \<lparr>cc_service = Some \<lparr>sr_namespace = ap_webhookServiceNamespace opts,
              sr_name = ap_webhookServiceName opts, sr_port = Some 9443, sr_path = Some ''/convert''\<rparr>,
           cc_caBundle = ap_caBundle opts\<rparr>\<rparr>\<rparr>\<rparr>"

fun established :: "(string \<times> string) list \<Rightarrow> bool" where
  "established [] = False"
| "established ((t, st) # conds) =
     (if t = ''Established'' \<and> st = ''True'' then True else established conds)"

definition IsReady_crd :: "kobj \<Rightarrow> bool" where
  "IsReady_crd o1 = established (crd_conditions (crd_of o1))"

definition crd_gvr :: gvr where
  "crd_gvr = \<lparr>gvr_group = ''apiextensions.k8s.io'', gvr_version = ''v1'',
     gvr_resource = ''customresourcedefinitions''\<rparr>"

definition wait_established :: "'s env \<Rightarrow> string \<Rightarrow> ('s world, unit) prog" where
  "wait_established E name =
     wrapping ''error waiting for CRD to be established: ''
       (WatchResource E crd_gvr IsReady_crd '''' name)"

text \<open>
  The update of an existing CRD: the status schema first (and nothing else then), nothing when the
  version is there, otherwise the new version with the conversion webhook.
\<close>

definition update_existing_crd ::
  "'s env \<Rightarrow> kobj \<Rightarrow> kobj \<Rightarrow> crd_version \<Rightarrow> apply_opts \<Rightarrow> ('s world, unit) prog" where
  "update_existing_crd E crd1 newcrd newv opts =
     thenP (wrapping ''error comparing CRD status: ''
       (liftSum (StatusEqual E (ko_name crd1) (crd_of crd1) (ko_name newcrd) (crd_of newcrd)))) (\<lambda>statusEqual.
     if \<not> statusEqual then
       thenP (case UpdateStatus (ko_name crd1) (crd_of crd1) newv of
           Ok c \<Rightarrow> returnP (with_crd c crd1)
         | Err e \<Rightarrow> failP (Wrap ''error updating CRD version: '' e '''')
         | Panic s \<Rightarrow> panicP s) (\<lambda>crd2.
       thenP (wrapping ''error applying CRD status update: '' (Apply E crd2 no_apply_options)) (\<lambda>crd3.
       wait_established E (ko_name crd3)))
     else if GVKExists (crd_of crd1) \<lparr>gvk_group = crd_group (crd_of newcrd),
         gvk_version = cv_name newv, gvk_kind = crd_kind (crd_of newcrd)\<rparr>
     then returnP ()
     else
       thenP (wrapping ''error appending version to CRD: ''
         (liftSum (AppendVersion (crd_of crd1) (crd_of newcrd)))) (\<lambda>c2.
       if ap_caBundle opts = None then failP (Plain ''CA bundle is nil'')
       else if ap_webhookServiceName opts = '''' then failP (Plain ''webhook service name is empty'')
       else if ap_webhookServiceNamespace opts = ''''
         then failP (Plain ''webhook service namespace is empty'')
       else
         thenP (wrapping ''error setting properties on CRD: ''
           (Apply E (with_crd (SetServedStorage (injectConversionConfToCRD c2 opts) (cv_name newv)
              True False) crd1) no_apply_options)) (\<lambda>crd3.
         wait_established E (ko_name crd3))))"

text \<open>
  \<open>ApplyOrUpdateCRD\<close> returns the resource and, beside it, the CRD behind the caller's pointer
  afterwards: creating it replaces it by the server's answer.
\<close>

definition ApplyOrUpdateCRD ::
  "'s env \<Rightarrow> kobj \<Rightarrow> apply_opts \<Rightarrow> ('s world, gvr \<times> kobj) prog" where
  "ApplyOrUpdateCRD E newcrd opts =
     (case crd_versions (crd_of newcrd) of
        [] \<Rightarrow> panicP index_out_of_range
      | newv # _ \<Rightarrow>
          (let g = \<lparr>gvr_group = crd_group (crd_of newcrd), gvr_version = cv_name newv,
                    gvr_resource = crd_plural (crd_of newcrd)\<rparr>
           in thenP (wrapping ''error getting CRD: '' (Get_crd E (GroupResource g))) (\<lambda>got.
              case got of
                None \<Rightarrow>
                  thenP (wrapping ''error applying CRD: '' (Apply E newcrd no_apply_options)) (\<lambda>newcrd2.
                  thenP (wait_established E (ko_name newcrd2)) (\<lambda>_. returnP (g, newcrd2)))
              | Some crd1 \<Rightarrow>
                  thenP (update_existing_crd E crd1 newcrd newv opts) (\<lambda>_. returnP (g, newcrd)))))"

section \<open>What they call\<close>

lemma crd_retry_simps [simp]:
  "rc_wait crd_retry = None" "rc_retryable crd_retry = Some isRetryableCRDError"
  "run_onRetry crd_retry a d e w = w"
  by (simp_all add: crd_retry_def run_onRetry_def)

lemma crd_key_simps [simp]:
  "ko_kind (crd_key E gr) = crdKind" "ko_apiVersion (crd_key E gr) = ''apiextensions.k8s.io/v1''"
  "ko_namespace (crd_key E gr) = ''''" "ko_name (crd_key E gr) = env_gr_string E gr"
  by (simp_all add: crd_key_def zero_obj_def)

definition crd_get_event :: "'s env \<Rightarrow> group_resource \<Rightarrow> event" where
  "crd_get_event E gr = EvGet crdKind ''apiextensions.k8s.io/v1'' '''' (env_gr_string E gr)"

lemma emits_Uninstall_crd [emits_intros]:
  assumes "crd_get_event E gr \<in> A" and "\<And>d. EvWait d \<in> A"
    and "\<And>o1. ko_kind o1 = crdKind \<Longrightarrow> EvDelete no_uninstall_options o1 \<in> A"
  shows "emits w_trace A (Uninstall_crd E gr)"
  unfolding Uninstall_crd_def uninstall_crd_attempt_def using assms
  by (intro emits_intros) (simp_all add: crd_get_event_def)

lemma emits_Get_crd [emits_intros]:
  "crd_get_event E gr \<in> A \<Longrightarrow> emits w_trace A (Get_crd E gr)"
  unfolding Get_crd_def by (intro emits_intros) (simp add: crd_get_event_def)

lemma emits_Lookup_crd [emits_intros]:
  "crd_get_event E (GroupResource g) \<in> A \<Longrightarrow> emits w_trace A (Lookup_crd E g)"
  unfolding Lookup_crd_def by (intro emits_intros) (simp add: crd_get_event_def)

lemma emits_case_outcome [emits_intros]:
  "(\<And>x. r = Ok x \<Longrightarrow> emits tr A (f x)) \<Longrightarrow> (\<And>e. r = Err e \<Longrightarrow> emits tr A (g e)) \<Longrightarrow>
   (\<And>s. r = Panic s \<Longrightarrow> emits tr A (h s)) \<Longrightarrow>
   emits tr A (case r of Ok x \<Rightarrow> f x | Err e \<Rightarrow> g e | Panic s \<Rightarrow> h s)"
  by (cases r) simp_all

lemma emits_wait_established [emits_intros]:
  "EvWatch crd_gvr '''' name \<in> A \<Longrightarrow> emits w_trace A (wait_established E name)"
  unfolding wait_established_def by (intro emits_intros)

lemma same_object_crd: "same_object o1 o2 \<Longrightarrow> crd_of o1 = crd_of o2 \<and> ko_kind o1 = ko_kind o2"
  using same_object_fields [of o1 o2] by (simp add: crd_of_def obj_crd_def)

text \<open>
  What \<open>ApplyOrUpdateCRD\<close> may do in general: read, wait, watch, and create or update CRDs.
\<close>

definition crd_upsert_events :: "event set" where
  "crd_upsert_events = {ev. case ev of
       EvGet k a ns n \<Rightarrow> k = crdKind
     | EvWait d \<Rightarrow> True
     | EvWatch g ns n \<Rightarrow> g = crd_gvr
     | EvCreate ao o1 \<Rightarrow> ko_kind o1 = crdKind \<and> ao = no_apply_options
     | EvUpdate ao o1 \<Rightarrow> ko_kind o1 = crdKind \<and> ao = no_apply_options
     | _ \<Rightarrow> False}"

lemma emits_Apply_crd:
  "ko_kind o1 = crdKind \<Longrightarrow> emits w_trace crd_upsert_events (Apply E o1 no_apply_options)"
proof (rule emits_Apply)
  fix ev
  assume "ko_kind o1 = crdKind" "apply_event no_apply_options o1 ev"
  then show "ev \<in> crd_upsert_events"
    by (cases ev) (auto simp: crd_upsert_events_def dest: same_object_crd)
qed

lemma yields_Get_crd: "yields (\<lambda>x. \<forall>o1. x = Some o1 \<longrightarrow> ko_kind o1 = crdKind) (Get_crd E gr)"
  by (auto simp: yields_def Get_crd_def prog_defs call_defs call_apply split: sum.splits if_splits)

lemma emits_update_existing_crd:
  assumes "ko_kind crd1 = crdKind"
  shows "emits w_trace crd_upsert_events (update_existing_crd E crd1 newcrd newv opts)"
proof -
  have w: "emits w_trace crd_upsert_events (wait_established E n)" for n
    by (rule emits_wait_established) (simp add: crd_upsert_events_def)
  have ap: "emits w_trace crd_upsert_events (Apply E (with_crd c crd1) no_apply_options)" for c
    using assms by (intro emits_Apply_crd) simp
  show ?thesis
    unfolding update_existing_crd_def
    by (cases "UpdateStatus (ko_name crd1) (crd_of crd1) newv";
        simp only: outcome.case thenP_returnP thenP_failP thenP_panicP;
        intro emits_thenP emits_if emits_onErr emits_liftSum emits_returnP emits_failP emits_panicP
          ap w)
qed

lemma emits_ApplyOrUpdateCRD:
  assumes k: "ko_kind newcrd = crdKind"
  shows "emits w_trace crd_upsert_events (ApplyOrUpdateCRD E newcrd opts)"
proof (cases "crd_versions (crd_of newcrd)")
  case Nil
  then show ?thesis by (simp add: ApplyOrUpdateCRD_def emits_panicP)
next
  case (Cons newv vs)
  have w: "emits w_trace crd_upsert_events (wait_established E n)" for n
    by (rule emits_wait_established) (simp add: crd_upsert_events_def)
  have g: "emits w_trace crd_upsert_events (Get_crd E gr)" for gr
    by (rule emits_Get_crd) (simp add: crd_upsert_events_def crd_get_event_def)
  show ?thesis
    unfolding ApplyOrUpdateCRD_def Cons Let_def list.case
  proof (rule emits_thenP_yields [OF emits_onErr [OF g] yields_onErr [OF yields_Get_crd]],
      rule emits_case_option)
    show "emits w_trace crd_upsert_events
       (thenP (wrapping ''error applying CRD: '' (Apply E newcrd no_apply_options))
         (\<lambda>newcrd2. thenP (wait_established E (ko_name newcrd2)) (\<lambda>_. returnP (g1, newcrd2))))" for g1 :: gvr
      using k by (intro emits_thenP emits_onErr emits_Apply_crd w emits_returnP)
  qed (auto intro!: emits_thenP emits_update_existing_crd emits_returnP)
qed

section \<open>Updating keeps every version\<close>

text \<open>\<open>new\<close> has all versions of \<open>old\<close>, in their order, and is acceptable to the API server.\<close>

definition extends_crd :: "crd \<Rightarrow> crd \<Rightarrow> bool" where
  "extends_crd old new \<longleftrightarrow>
     (\<exists>ys. map cv_name (crd_versions new) = map cv_name (crd_versions old) @ ys) \<and>
     well_stored (crd_versions new)"

fun crd_write_extends :: "crd \<Rightarrow> event \<Rightarrow> bool" where
  "crd_write_extends old (EvCreate ao o1) = extends_crd old (crd_of o1)"
| "crd_write_extends old (EvUpdate ao o1) = extends_crd old (crd_of o1)"
| "crd_write_extends old ev = (\<not> is_write ev)"

lemma well_stored_cong:
  "map cv_name vs' = map cv_name vs \<Longrightarrow> storage_names vs' = storage_names vs \<Longrightarrow>
   well_stored vs \<Longrightarrow> well_stored vs'"
  by (metis (no_types, lifting) list.set_map well_stored_def)

lemma SetServedStorage_names:
  "map cv_name (crd_versions (SetServedStorage c v a b)) = map cv_name (crd_versions c)"
  by (simp add: SetServedStorage_def)

lemma SetServedStorage_well_stored:
  assumes "well_stored (crd_versions c)" and "v \<notin> set (storage_names (crd_versions c))"
  shows "well_stored (crd_versions (SetServedStorage c v a False))"
proof -
  have "filter cv_storage (map (\<lambda>x. if cv_name x = v then x\<lparr>cv_served := a, cv_storage := False\<rparr> else x) vs)
      = filter cv_storage vs" if "v \<notin> set (storage_names vs)" for vs
    using that by (induction vs) (auto simp: storage_names_def split: if_splits)
  then have "storage_names (crd_versions (SetServedStorage c v a False)) = storage_names (crd_versions c)"
    using assms(2) by (simp add: SetServedStorage_def storage_names_def)
  with assms(1) SetServedStorage_names show ?thesis by (metis well_stored_cong)
qed

lemma extends_UpdateStatus:
  assumes "well_stored (crd_versions c)" and "UpdateStatus name c v = Ok c'"
  shows "extends_crd c c'"
proof -
  obtain s vs where vs: "set_status_all (status_prop s) (crd_versions c) = Ok vs"
    and c': "c' = c\<lparr>crd_versions := vs\<rparr>" using UpdateStatus_versions [OF assms(2)] by blast
  from well_stored_cong [OF set_status_all_keeps(1,2) [OF vs] assms(1)]
    set_status_all_keeps(1) [OF vs] show ?thesis
    by (simp add: extends_crd_def c')
qed

lemma append_new_storage:
  assumes "well_stored vs" and "cv_name v \<noteq> vacuum" and "cv_name v \<notin> cv_name ` set vs"
  shows "storage_names (append_one vs v) = [vacuum]"
proof -
  have "vacuum \<in> set (map cv_name (append_one vs v))"
    using assms(3) by (auto simp: append_one_names has_version_iff)
  with append_one_well_stored [OF assms(1,2)] show ?thesis by (simp add: well_stored_def)
qed

lemma extends_append:
  assumes c: "well_stored (crd_versions c)" and v: "cv_name v \<noteq> vacuum"
    and new: "cv_name v \<notin> cv_name ` set (crd_versions c)"
    and g: "AppendVersion c g = Inr c'" "crd_versions g = [v]"
  shows "extends_crd c (SetServedStorage (injectConversionConfToCRD c' opts) (cv_name v) True False)"
proof -
  let ?d = "injectConversionConfToCRD c' opts"
  have d: "crd_versions ?d = append_one (crd_versions c) v"
    using g by (auto simp: AppendVersion_def append_versions_fold injectConversionConfToCRD_def)
  have "well_stored (crd_versions (SetServedStorage ?d (cv_name v) True False))"
  proof (rule SetServedStorage_well_stored)
    show "well_stored (crd_versions ?d)" unfolding d by (rule append_one_well_stored [OF c v])
    show "cv_name v \<notin> set (storage_names (crd_versions ?d))"
      unfolding d using append_new_storage [OF c v new] v by simp
  qed
  then show ?thesis
    unfolding extends_crd_def SetServedStorage_names d by (simp add: append_one_names)
qed

lemma emits_Apply_extends:
  "extends_crd old (crd_of o1) \<Longrightarrow> emits w_trace {ev. crd_write_extends old ev} (Apply E o1 ao)"
proof (rule emits_Apply)
  fix ev
  assume "extends_crd old (crd_of o1)" "apply_event ao o1 ev"
  then show "ev \<in> {ev. crd_write_extends old ev}" by (cases ev) (auto dest: same_object_crd)
qed

lemma update_existing_crd_extends:
  assumes c: "well_stored (crd_versions (crd_of crd1))" and v: "cv_name newv \<noteq> vacuum"
    and g: "crd_versions (crd_of newcrd) = [newv]"
    and same: "crd_group (crd_of newcrd) = crd_group (crd_of crd1)"
      "crd_kind (crd_of newcrd) = crd_kind (crd_of crd1)"
  shows "emits w_trace {ev. crd_write_extends (crd_of crd1) ev}
     (update_existing_crd E crd1 newcrd newv opts)"
proof -
  let ?A = "{ev. crd_write_extends (crd_of crd1) ev}"
  have w: "emits w_trace ?A (wait_established E n)" for n
    by (rule emits_wait_established) simp
  have st: "emits w_trace ?A (Apply E (with_crd c crd1) no_apply_options)"
    if "UpdateStatus (ko_name crd1) (crd_of crd1) newv = Ok c" for c
    by (rule emits_Apply_extends) (simp add: extends_UpdateStatus [OF assms(1) that])
  have ad: "emits w_trace ?A (thenP (wrapping p (liftSum (AppendVersion (crd_of crd1) (crd_of newcrd))))
      (\<lambda>c2. if b then failP e1 else if b2 then failP e2 else if b3 then failP e3 else
        thenP (wrapping q (Apply E (with_crd (SetServedStorage (injectConversionConfToCRD c2 opts)
          (cv_name newv) True False) crd1) no_apply_options)) (\<lambda>crd3. wait_established E (ko_name crd3))))"
    if new: "\<not> GVKExists (crd_of crd1) \<lparr>gvk_group = crd_group (crd_of newcrd),
         gvk_version = cv_name newv, gvk_kind = crd_kind (crd_of newcrd)\<rparr>" for p q b b2 b3 e1 e2 e3
  proof (rule emits_thenP_yields [where P = "\<lambda>c2. AppendVersion (crd_of crd1) (crd_of newcrd) = Inr c2"])
    have "cv_name newv \<notin> cv_name ` set (crd_versions (crd_of crd1))"
      using new same by (simp add: GVKExists_def has_version_iff)
    note ext = extends_append [OF c v this _ g]
    show "emits w_trace ?A (if b then failP e1 else if b2 then failP e2 else if b3 then failP e3 else
        thenP (wrapping q (Apply E (with_crd (SetServedStorage (injectConversionConfToCRD c2 opts)
          (cv_name newv) True False) crd1) no_apply_options)) (\<lambda>crd3. wait_established E (ko_name crd3)))"
      if "AppendVersion (crd_of crd1) (crd_of newcrd) = Inr c2" for c2
      using ext [OF that]
      by (intro emits_if emits_failP emits_thenP emits_onErr emits_Apply_extends w) simp
  qed (auto simp: yields_def onErr_Ok_iff liftSum_Ok_iff intro: emits_onErr emits_liftSum)
  show ?thesis
    unfolding update_existing_crd_def
    by (cases "UpdateStatus (ko_name crd1) (crd_of crd1) newv";
        simp only: outcome.case thenP_returnP thenP_failP thenP_panicP;
        intro emits_thenP [OF emits_onErr [OF emits_liftSum]] emits_thenP [OF emits_onErr [OF st]]
          emits_if emits_returnP emits_failP emits_panicP w ad; assumption)
qed

text \<open>
  C7: \<open>ApplyOrUpdateCRD\<close> never loses a version. When the API server holds an acceptable CRD for the
  generated one (same group and kind), everything the call sends afterwards is a read, a wait, or
  a create or update whose version list extends the one found and is acceptable again: exactly one
  storage version and distinct names, on the status-refresh path as on the add-version path.
\<close>

theorem ApplyOrUpdateCRD_extends:
  assumes "crd_versions (crd_of newcrd) = [newv]" and "cv_name newv \<noteq> vacuum"
    and get: "env_get E crdKind ''apiextensions.k8s.io/v1'' '''' (env_gr_string E
       \<lparr>gr_group = crd_group (crd_of newcrd), gr_resource = crd_plural (crd_of newcrd)\<rparr>) (w_ext w)
       = (Inr crd1, s)"
    and "well_stored (crd_versions (crd_of crd1))"
    and "crd_group (crd_of newcrd) = crd_group (crd_of crd1)"
    and "crd_kind (crd_of newcrd) = crd_kind (crd_of crd1)"
  shows "\<exists>es. w_trace (snd (ApplyOrUpdateCRD E newcrd opts w)) = w_trace w @ es \<and>
    (\<forall>ev \<in> set es. crd_write_extends (crd_of crd1) ev)"
proof -
  let ?c = "typed crdKind crd1"
  let ?gr = "\<lparr>gr_group = crd_group (crd_of newcrd), gr_resource = crd_plural (crd_of newcrd)\<rparr>"
  let ?w1 = "w\<lparr>w_trace := w_trace w @ [crd_get_event E ?gr], w_ext := s\<rparr>"
  have tc: "crd_of ?c = crd_of crd1" by (simp add: crd_of_def obj_crd_def)
  have "Get_crd E ?gr w = (Ok (Some ?c), ?w1)"
    using get by (simp add: Get_crd_def k_get_def call_apply prog_defs crd_get_event_def)
  then have eq: "ApplyOrUpdateCRD E newcrd opts w = thenP (update_existing_crd E ?c newcrd newv opts)
      (\<lambda>_. returnP (\<lparr>gvr_group = crd_group (crd_of newcrd), gvr_version = cv_name newv,
         gvr_resource = crd_plural (crd_of newcrd)\<rparr>, newcrd)) ?w1"
    by (simp add: ApplyOrUpdateCRD_def assms(1) Let_def GroupResource_def thenP_def onErr_def)
  have "emits w_trace {ev. crd_write_extends (crd_of crd1) ev} (thenP
      (update_existing_crd E ?c newcrd newv opts) k)" if "\<And>x. emits w_trace
      {ev. crd_write_extends (crd_of crd1) ev} (k x)" for k :: "unit \<Rightarrow> ('a world, gvr \<times> kobj) prog"
    using update_existing_crd_extends [of ?c newv newcrd E opts] assms tc that
    by (intro emits_thenP) auto
  from emitsD [OF this [OF emits_returnP] eq [symmetric, THEN trans, OF prod.collapse [symmetric]]]
  obtain es where "w_trace (snd (ApplyOrUpdateCRD E newcrd opts w)) = w_trace ?w1 @ es"
    "set es \<subseteq> {ev. crd_write_extends (crd_of crd1) ev}" by blast
  then show ?thesis
    by (intro exI [of _ "crd_get_event E ?gr # es"]) (auto simp: crd_get_event_def)
qed

theorem ApplyOrUpdateCRD_extends_witness:
  "\<exists>es. w_trace (snd (ApplyOrUpdateCRD sample_env
       (crd_object (example_crd [example_version ''v1-1-0'' True True]))
       \<lparr>ap_caBundle = Some ''ca'', ap_webhookServiceNamespace = ''ns'', ap_webhookServiceName = ''svc''\<rparr>
       (sample_world [crd_object (example_crd [example_version ''v1-0-0'' True True])] []))) = [] @ es \<and>
     (\<forall>ev \<in> set es. crd_write_extends (example_crd [example_version ''v1-0-0'' True True]) ev)"
proof -
  let ?old = "example_crd [example_version ''v1-0-0'' True True]"
  let ?v = "example_version ''v1-1-0'' True True"
  let ?w = "sample_world [crd_object ?old] []"
  have "crd_of (crd_object c) = c" for c
    by (simp add: crd_of_def obj_crd_def crd_object_def)
  moreover have "well_stored (crd_versions ?old)"
    by (simp add: well_stored_def storage_names_def example_defs vacuum_def)
  moreover have "cv_name ?v \<noteq> vacuum" by (simp add: example_defs vacuum_def)
  moreover have "env_get sample_env crdKind ''apiextensions.k8s.io/v1'' '''' (env_gr_string sample_env
       \<lparr>gr_group = crd_group (example_crd [?v]), gr_resource = crd_plural (example_crd [?v])\<rparr>) (w_ext ?w)
       = (Inr (crd_object ?old), w_ext ?w)"
    by (simp add: sample_env_def sample_world_def find_obj_def example_defs crdKind_def)
  moreover have "w_trace ?w = []" by (simp add: sample_world_def)
  moreover have "crd_group ?old = crd_group (example_crd [?v])" "crd_kind ?old = crd_kind (example_crd [?v])"
    "crd_versions (example_crd [?v]) = [?v]"
    by (simp_all add: example_crd_def)
  ultimately show ?thesis
    using ApplyOrUpdateCRD_extends [of "crd_object (example_crd [?v])" ?v sample_env ?w
        "crd_object ?old" "w_ext ?w"] by simp
qed

interpretation crd_errors: retry_classifier isRetryableCRDError
  by unfold_locales (simp_all add: isRetryableCRDError_def)

end
