(* ===== verification/Objects.thy ===== *)
theory Objects
  imports Runtime
begin

text \<open>
  \<open>internal/tools/objects\<close>: the template values of \<open>templates.go\<close> and \<open>CreateK8sObject\<close> of
  \<open>object.go\<close>, which reads a template file, renders it with those values and decodes the result
  into an object of the requested type. Rendering and decoding are the environment's.
\<close>

record render_options =
  ro_group :: string
  ro_version :: string
  ro_resource :: string
  ro_namespace :: string
  ro_name :: string

definition Values :: "render_options \<Rightarrow> gmap" where
  "Values opts =
     (let name = (if length (ro_name opts) = 0 then ro_resource opts @ ''-controller''
                  else ro_name opts);
          namespace = (if length (ro_namespace opts) = 0 then ''default'' else ro_namespace opts)
      in fmap_of_list [(''apiGroup'', GStr (ro_group opts)), (''apiVersion'', GStr (ro_version opts)),
           (''resource'', GStr (ro_resource opts)), (''name'', GStr name),
           (''namespace'', GStr namespace)])"

text \<open>
  The variadic additional values, as the code walks them: an odd number is an error, a key that is
  not a string is an error, otherwise each pair overwrites or adds an entry. (The code formats a
  nil error with \<open>%w\<close> in both messages.)
\<close>

fun add_values :: "gmap \<Rightarrow> gval list \<Rightarrow> err + gmap" where
  "add_values values (GStr key # v # rest) = add_values (fmupd key v values) rest"
| "add_values values (k # v # rest) = Inl (Plain ''additionalvalues key must be a string: %!w(<nil>)'')"
| "add_values values _ = Inr values"

definition additional_values ::
  "gmap \<Rightarrow> gval list \<Rightarrow> err + gmap" where
  "additional_values values extra =
     (if length extra mod 2 \<noteq> 0
      then Inl (Plain ''additionalvalues must be in pairs: %!w(<nil>)'')
      else add_values values extra)"

text \<open>
  \<open>CreateK8sObject\<close>; \<open>otype\<close> names the Go type of the object pointer, which decides how the text
  is decoded.
\<close>

definition CreateK8sObject ::
  "'s env \<Rightarrow> string \<Rightarrow> gvr \<Rightarrow> namespaced_name \<Rightarrow> string \<Rightarrow> gval list \<Rightarrow> ('s world, kobj) prog" where
  "CreateK8sObject E otype g nn path extra =
     thenP (wrapping ''failed to read object template file: '' (read_file E path)) (\<lambda>templateF.
     thenP (liftSum (additional_values
              (Values \<lparr>ro_group = gvr_group g, ro_version = gvr_version g,
                 ro_resource = gvr_resource g, ro_namespace = nn_namespace nn,
                 ro_name = nn_name nn\<rparr>) extra)) (\<lambda>values.
     thenP (liftSum (env_render E templateF values)) (\<lambda>dat.
     onErr (\<lambda>e. Wrap ''failed to decode object: '' e
              ('' - path: '' @ path @ '' - values: '' @ dat))
       (liftSum (map_sum id (typed otype) (env_decode E otype dat))))))"

lemma yields_CreateK8sObject: "yields (\<lambda>o1. ko_kind o1 = otype) (CreateK8sObject E otype g nn path extra)"
  by (auto simp: yields_def CreateK8sObject_def ok_iffs map_sum_Inr)

lemma no_panic_CreateK8sObject [no_panic_intros]: "no_panic (CreateK8sObject E otype g nn path extra)"
  unfolding CreateK8sObject_def by (intro no_panic_intros)

lemma emits_CreateK8sObject [emits_intros]:
  "EvReadFile path \<in> A \<Longrightarrow> emits w_trace A (CreateK8sObject E otype g nn path extra)"
  unfolding CreateK8sObject_def by (intro emits_intros)

text \<open>The object that template \<open>T\<close> gives, when reading files has no effect and always succeeds.\<close>

definition rendered ::
  "'s env \<Rightarrow> string \<Rightarrow> string \<Rightarrow> gvr \<Rightarrow> namespaced_name \<Rightarrow> string \<Rightarrow> gval list \<Rightarrow> err + kobj" where
  "rendered E content otype g nn path extra =
     (case additional_values
              (Values \<lparr>ro_group = gvr_group g, ro_version = gvr_version g,
                 ro_resource = gvr_resource g, ro_namespace = nn_namespace nn,
                 ro_name = nn_name nn\<rparr>) extra of
        Inl e \<Rightarrow> Inl e
      | Inr values \<Rightarrow>
          (case env_render E content values of
             Inl e \<Rightarrow> Inl e
           | Inr dat \<Rightarrow>
               (case env_decode E otype dat of
                  Inl e \<Rightarrow> Inl (Wrap ''failed to decode object: '' e
                     ('' - path: '' @ path @ '' - values: '' @ dat))
                | Inr o1 \<Rightarrow> Inr (typed otype o1))))"

lemma CreateK8sObject_rendered:
  assumes "env_read_file E path (w_ext w) = (Inr content, s)"
  shows "CreateK8sObject E otype g nn path extra w =
     (outcome_of (rendered E content otype g nn path extra),
      w\<lparr>w_trace := w_trace w @ [EvReadFile path], w_ext := s\<rparr>)"
  using assms
  by (auto simp: CreateK8sObject_def rendered_def prog_defs read_file_def call_apply
      split: sum.split)

text \<open>Later pairs win, and the standard values are there unless overwritten.\<close>

lemma add_values_pairs:
  "add_values m (concat (map (\<lambda>(k, v). [GStr k, v]) kvs)) = Inr (m ++\<^sub>f fmap_of_list (rev kvs))"
proof (induction kvs arbitrary: m)
  case (Cons kv kvs)
  obtain k v where kv: "kv = (k, v)" by fastforce
  have "fmupd k v m ++\<^sub>f fmap_of_list (rev kvs) = m ++\<^sub>f fmap_of_list (rev kvs @ [(k, v)])"
    by (rule fmap_ext) (auto simp: fmlookup_of_list map_add_def split: option.split)
  with Cons kv show ?case by simp
qed simp

end
