(* ===== verification/Deployment.thy ===== *)
theory Deployment
  imports Runtime
begin

text \<open>
  \<open>internal/tools/deployment/deployment.go\<close>: looking up, restarting and checking the readiness of
  the controller Deployment, and removing the restart annotation before it is hashed.
\<close>

definition restartedAt :: string where
  "restartedAt = ''kubectl.kubernetes.io/restartedAt''"

definition deployment_parts :: "kobj \<Rightarrow> (deployment_spec \<times> deployment_status) option" where
  "deployment_parts d = (case ko_body d of DeploymentBody s t \<Rightarrow> Some (s, t) | _ \<Rightarrow> None)"

definition zero_deployment_status :: deployment_status where
  "zero_deployment_status = \<lparr>dt_readyReplicas = 0, dt_conditions = []\<rparr>"

text \<open>Spec and status of a Deployment value (the zero value has zero parts).\<close>

definition dep_parts :: "kobj \<Rightarrow> deployment_spec \<times> deployment_status" where
  "dep_parts d = (case deployment_parts d of
     Some p \<Rightarrow> p | None \<Rightarrow> (zero_deployment_spec, zero_deployment_status))"

definition LookupDeployment ::
  "'s env \<Rightarrow> kobj \<Rightarrow> ('s world, bool \<times> bool \<times> kobj) prog" where
  "LookupDeployment E obj1 =
     thenP (tryP (k_get E obj1)) (\<lambda>got.
     case got of
       Inl e \<Rightarrow> if IsNotFound E e then returnP (False, False, obj1) else failP e
     | Inr d \<Rightarrow>
         (let (spec, status) = dep_parts d;
              ready = (case ds_replicas spec of
                         None \<Rightarrow> False
                       | Some n \<Rightarrow> n = dt_readyReplicas status)
          in returnP (True, ready, d)))"

definition with_dep_spec :: "(deployment_spec \<Rightarrow> deployment_spec) \<Rightarrow> kobj \<Rightarrow> kobj" where
  "with_dep_spec f d =
     (case ko_body d of
        DeploymentBody s t \<Rightarrow> d\<lparr>ko_body := DeploymentBody (f s) t\<rparr>
      | _ \<Rightarrow> d)"

text \<open>Set the annotation on the pod template (making the map if it is nil) and patch.\<close>

definition set_restart_annotation :: "string \<Rightarrow> deployment_spec \<Rightarrow> deployment_spec" where
  "set_restart_annotation now s =
     (let annotations = (case ds_annotations s of None \<Rightarrow> fmempty | Some m \<Rightarrow> m)
      in s\<lparr>ds_annotations := Some (fmupd restartedAt now annotations)\<rparr>)"

definition RestartDeployment :: "'s env \<Rightarrow> kobj \<Rightarrow> ('s world, kobj) prog" where
  "RestartDeployment E obj1 =
     thenP (now_rfc3339 E) (\<lambda>now.
     k_patch E obj1 (with_dep_spec (set_restart_annotation now) obj1))"

definition clean_restart_annotation :: "deployment_spec \<Rightarrow> deployment_spec" where
  "clean_restart_annotation s =
     (case ds_annotations s of
        None \<Rightarrow> s
      | Some m \<Rightarrow> s\<lparr>ds_annotations := Some (fmdrop restartedAt m)\<rparr>)"

definition CleanFromRestartAnnotation :: "kobj \<Rightarrow> kobj" where
  "CleanFromRestartAnnotation d = with_dep_spec clean_restart_annotation d"

fun any_true_condition :: "string \<Rightarrow> (string \<times> string) list \<Rightarrow> bool" where
  "any_true_condition t [] = False"
| "any_true_condition t ((ct, st) # cs) =
     (if ct = t \<and> st = ''True'' then True else any_true_condition t cs)"

definition IsReady :: "kobj \<Rightarrow> bool" where
  "IsReady d =
     (let (spec, status) = dep_parts d
      in if (case ds_replicas spec of None \<Rightarrow> False | Some n \<Rightarrow> dt_readyReplicas status \<noteq> n)
         then False
         else any_true_condition ''Available'' (dt_conditions status))"

lemma any_true_condition_iff: "any_true_condition t cs \<longleftrightarrow> (t, ''True'') \<in> set cs"
  by (induction t cs rule: any_true_condition.induct) auto

lemma IsReady_iff:
  "ko_body d = DeploymentBody s t \<Longrightarrow> IsReady d \<longleftrightarrow>
     (ds_replicas s = None \<or> ds_replicas s = Some (dt_readyReplicas t)) \<and>
     (''Available'', ''True'') \<in> set (dt_conditions t)"
  by (auto simp: IsReady_def dep_parts_def deployment_parts_def any_true_condition_iff
      split: option.splits)

text \<open>
  Cleaning undoes restarting, up to the difference between a nil and an empty annotation map.
\<close>

definition annotations_or_empty :: "deployment_spec \<Rightarrow> (string, string) fmap" where
  "annotations_or_empty s = (case ds_annotations s of None \<Rightarrow> fmempty | Some m \<Rightarrow> m)"

lemma clean_idem: "clean_restart_annotation (clean_restart_annotation s) = clean_restart_annotation s"
  by (auto simp: clean_restart_annotation_def fmdrop_idle' split: option.split)

lemma fmdrop_fmupd_same_key [simp]: "fmdrop k (fmupd k v m) = fmdrop k m"
  by (rule fmap_ext) simp

lemma clean_after_set:
  "clean_restart_annotation (set_restart_annotation now s) =
     s\<lparr>ds_annotations := Some (fmdrop restartedAt (annotations_or_empty s))\<rparr>"
  by (auto simp: clean_restart_annotation_def set_restart_annotation_def annotations_or_empty_def
      Let_def split: option.split)

lemma obj_depSpec_with: "obj_depSpec (with_dep_spec f d) =
  (case ko_body d of DeploymentBody s t \<Rightarrow> f s | _ \<Rightarrow> zero_deployment_spec)"
  by (simp add: with_dep_spec_def obj_depSpec_def split: obj_body.split)

lemma with_dep_spec_meta [simp]:
  "ko_name (with_dep_spec f d) = ko_name d" "ko_namespace (with_dep_spec f d) = ko_namespace d"
  "ko_kind (with_dep_spec f d) = ko_kind d" "ko_apiVersion (with_dep_spec f d) = ko_apiVersion d"
  by (simp_all add: with_dep_spec_def split: obj_body.split)

lemma emits_LookupDeployment [emits_intros]:
  "EvGet (ko_kind d) (ko_apiVersion d) (ko_namespace d) (ko_name d) \<in> A \<Longrightarrow>
   emits w_trace A (LookupDeployment E d)"
  unfolding LookupDeployment_def Let_def by (intro emits_intros)

lemma emits_RestartDeployment:
  "(\<And>o2. EvPatch d o2 \<in> A) \<Longrightarrow> emits w_trace A (RestartDeployment E d)"
  unfolding RestartDeployment_def by (intro emits_intros)

end
