(* ===== verification/Paths.thy ===== *)
theory Paths
  imports Prelude
begin

text \<open>
  The slash-separated path functions of Go's \<open>path\<close> and \<open>path/filepath\<close> that the program uses
  (\<open>Clean\<close>, \<open>Dir\<close>, \<open>Base\<close>, \<open>Join\<close>) and \<open>strings.Split\<close> / \<open>strings.Join\<close> on one-character
  separators.
\<close>

fun split_on :: "char \<Rightarrow> string \<Rightarrow> string list" where
  "split_on c [] = [[]]"
| "split_on c (x # xs) =
     (if x = c then [] # split_on c xs
      else (case split_on c xs of [] \<Rightarrow> [[x]] | y # ys \<Rightarrow> (x # y) # ys))"

fun join_with :: "char \<Rightarrow> string list \<Rightarrow> string" where
  "join_with c [] = []"
| "join_with c [s] = s"
| "join_with c (s # t # ss) = s @ c # join_with c (t # ss)"

lemma split_on_nonempty [simp]: "split_on c s \<noteq> []"
  by (induction s) (auto split: list.split)

lemma join_split [simp]: "join_with c (split_on c s) = s"
proof (induction s)
  case (Cons x xs)
  then show ?case by (cases "split_on c xs"; cases "tl (split_on c xs)") auto
qed simp

lemma split_on_no_sep: "c \<notin> set s \<Longrightarrow> split_on c s = [s]"
  by (induction s) auto

lemma split_on_parts: "p \<in> set (split_on c s) \<Longrightarrow> c \<notin> set p"
proof (induction s arbitrary: p)
  case (Cons x xs)
  then show ?case by (cases "split_on c xs"; cases "x = c") fastforce+
qed simp

lemma split_on_append: "c \<notin> set s \<Longrightarrow> split_on c (s @ c # t) = s # split_on c t"
  by (induction s) auto

lemma split_join:
  "ss \<noteq> [] \<Longrightarrow> (\<And>s. s \<in> set ss \<Longrightarrow> c \<notin> set s) \<Longrightarrow> split_on c (join_with c ss) = ss"
  by (induction c ss rule: join_with.induct) (auto simp: split_on_no_sep split_on_append)

text \<open>
  \<open>Clean\<close>: drop empty and \<open>.\<close> elements, resolve \<open>..\<close> against what precedes it, at the root drop
  it; the empty result is \<open>.\<close>. The stack holds the kept elements, last first.
\<close>

definition slash :: char where "slash = CHR ''/''"

fun clean_parts :: "bool \<Rightarrow> string list \<Rightarrow> string list \<Rightarrow> string list" where
  "clean_parts rooted stack [] = rev stack"
| "clean_parts rooted stack (p # ps) =
     (if p = '''' \<or> p = ''.'' then clean_parts rooted stack ps
      else if p = ''..'' then
        (case stack of
           [] \<Rightarrow> if rooted then clean_parts rooted [] ps else clean_parts rooted [p] ps
         | q # qs \<Rightarrow> if q = ''..'' then clean_parts rooted (p # stack) ps
                     else clean_parts rooted qs ps)
      else clean_parts rooted (p # stack) ps)"

definition is_rooted :: "string \<Rightarrow> bool" where
  "is_rooted p = (case p of [] \<Rightarrow> False | c # _ \<Rightarrow> c = slash)"

definition Clean :: "string \<Rightarrow> string" where
  "Clean p =
     (let rooted = is_rooted p; ps = clean_parts rooted [] (split_on slash p)
      in if rooted then slash # join_with slash ps
         else if ps = [] then ''.'' else join_with slash ps)"

text \<open>The prefix up to and including the last slash, as \<open>path.Split\<close> cuts.\<close>

definition dir_prefix :: "string \<Rightarrow> string" where
  "dir_prefix p = rev (dropWhile (\<lambda>c. c \<noteq> slash) (rev p))"

definition last_element :: "string \<Rightarrow> string" where
  "last_element p = rev (takeWhile (\<lambda>c. c \<noteq> slash) (rev p))"

definition Dir :: "string \<Rightarrow> string" where
  "Dir p = Clean (dir_prefix p)"

definition Base :: "string \<Rightarrow> string" where
  "Base p =
     (if p = '''' then ''.''
      else (let q = rev (dropWhile (\<lambda>c. c = slash) (rev p)); b = last_element q
            in if b = '''' then [slash] else b))"

definition Join :: "string list \<Rightarrow> string" where
  "Join ps = (let qs = filter (\<lambda>p. p \<noteq> '''') ps
              in if qs = [] then '''' else Clean (join_with slash qs))"

lemma dir_prefix_last_element: "dir_prefix p @ last_element p = p"
  unfolding dir_prefix_def last_element_def
  by (metis rev_append rev_rev_ident takeWhile_dropWhile_id)

section \<open>The directory of a path is shorter\<close>

definition parts_cost :: "string list \<Rightarrow> nat" where
  "parts_cost ps = sum_list (map (\<lambda>p. length p + 1) ps)"

lemma parts_cost_simps [simp]:
  "parts_cost [] = 0" "parts_cost (p # ps) = length p + 1 + parts_cost ps"
  "parts_cost (ps @ qs) = parts_cost ps + parts_cost qs" "parts_cost (rev ps) = parts_cost ps"
  by (simp_all add: parts_cost_def sum_list_rev rev_map [symmetric])

lemma split_cost: "parts_cost (split_on c s) = length s + 1"
  by (induction s) (auto split: list.split)

lemma join_cost: "ps \<noteq> [] \<Longrightarrow> length (join_with c ps) + 1 = parts_cost ps"
  by (induction c ps rule: join_with.induct) auto

lemma clean_parts_cost:
  "parts_cost (clean_parts rooted stack ps) \<le> parts_cost stack + parts_cost (filter (\<lambda>p. p \<noteq> '''') ps)"
proof (induction rooted stack ps rule: clean_parts.induct)
  case (2 rooted stack p ps)
  then show ?case by (auto split: list.splits if_splits simp: add.assoc intro: le_trans)
qed simp

lemma split_on_snoc: "split_on c (s @ [c]) = split_on c s @ ['''']"
proof (induction s)
  case (Cons x xs)
  then show ?case by (cases "split_on c xs") auto
qed simp

lemma Clean_dir_shorter:
  assumes "s \<noteq> ''''"
  shows "length (Clean (s @ [slash])) < length (s @ [slash])"
proof -
  let ?q = "s @ [slash]" let ?rooted = "is_rooted ?q"
  let ?res = "clean_parts ?rooted [] (split_on slash ?q)"
  have f: "parts_cost (filter (\<lambda>p. p \<noteq> '''') (split_on slash s)) + (if ?rooted then 1 else 0)
      \<le> parts_cost (split_on slash s)"
  proof -
    have le: "parts_cost (filter P ps) \<le> parts_cost ps" for P ps by (induction ps) auto
    show ?thesis
    proof (cases ?rooted)
      case True
      then obtain t where "s = slash # t" using assms by (cases s) (auto simp: is_rooted_def)
      with True le [of "\<lambda>p. p \<noteq> ''''" "split_on slash t"] show ?thesis by simp
    qed (use le in simp)
  qed
  have cost: "parts_cost ?res + (if ?rooted then 1 else 0) \<le> length s + 1"
    using clean_parts_cost [of ?rooted "[]" "split_on slash ?q"] f split_cost [of slash s]
    by (simp add: split_on_snoc)
  show ?thesis
  proof (cases "?res = []")
    case True
    then show ?thesis using assms by (cases s) (auto simp: Clean_def Let_def)
  next
    case False
    from join_cost [OF this, of slash] cost show ?thesis
      using False by (auto simp: Clean_def Let_def split: if_splits)
  qed
qed

lemma dir_prefix_cases: "dir_prefix p = '''' \<or> (\<exists>s. dir_prefix p = s @ [slash])"
proof (cases "dropWhile (\<lambda>c. c \<noteq> slash) (rev p)")
  case (Cons c cs)
  then have "c = slash" using hd_dropWhile [of "\<lambda>c. c \<noteq> slash" "rev p"] by auto
  with Cons show ?thesis by (simp add: dir_prefix_def)
qed (simp add: dir_prefix_def)

lemma Clean_empty [simp]: "Clean '''' = ''.''" and Clean_slash [simp]: "Clean [slash] = [slash]"
  by (simp_all add: Clean_def is_rooted_def slash_def)

text \<open>The directory is \<open>.\<close>, or the path is \<open>/\<close> itself, or it got shorter.\<close>

lemma Dir_shorter: "Dir p = ''.'' \<or> Dir p = p \<or> length (Dir p) < length p"
proof -
  have len: "length (dir_prefix p) \<le> length p"
    by (metis dir_prefix_last_element le_add1 length_append)
  consider "dir_prefix p = ''''" | "dir_prefix p = [slash]" | s where "dir_prefix p = s @ [slash]" "s \<noteq> ''''"
    using dir_prefix_cases [of p] by (metis append_Nil)
  then show ?thesis
  proof cases
    case 1
    then show ?thesis by (simp add: Dir_def)
  next
    case 2
    show ?thesis
    proof (cases "last_element p = ''''")
      case True
      then have "p = [slash]" using 2 dir_prefix_last_element [of p] by simp
      then show ?thesis using 2 by (simp add: Dir_def)
    next
      case False
      then have "length p > 1" using 2 dir_prefix_last_element [of p]
        by (metis One_nat_def length_append length_greater_0_conv less_add_same_cancel1 list.size(3,4) add.commute plus_1_eq_Suc)
      then show ?thesis using 2 by (simp add: Dir_def)
    qed
  next
    case 3
    then show ?thesis using Clean_dir_shorter [of s] len by (simp add: Dir_def)
  qed
qed

section \<open>File names in one directory\<close>

definition plain_name :: "string \<Rightarrow> bool" where
  "plain_name n \<longleftrightarrow> n \<noteq> '''' \<and> n \<noteq> ''.'' \<and> n \<noteq> ''..'' \<and> slash \<notin> set n"

lemma clean_parts_snoc:
  "plain_name n \<Longrightarrow> clean_parts rooted stack (ps @ [n]) = clean_parts rooted stack ps @ [n]"
  by (induction rooted stack ps rule: clean_parts.induct) (auto simp: plain_name_def split: list.split)

lemma join_with_snoc: "join_with c (ps @ [n]) = join_with c (ps @ ['''']) @ n"
  by (induction c ps rule: join_with.induct) auto

lemma split_on_append_sep: "split_on c (p @ c # q) = split_on c p @ split_on c q"
proof (induction p)
  case (Cons x xs)
  then show ?case by (cases "split_on c xs") auto
qed simp

lemma Join_prefix: "\<exists>pre. \<forall>n. plain_name n \<longrightarrow> Join [p, n] = pre @ n" if "p \<noteq> ''''"
proof -
  let ?ps = "clean_parts (is_rooted p) [] (split_on slash p)"
  have "Join [p, n] = ((if is_rooted p then [slash] else []) @ join_with slash (?ps @ [''''])) @ n"
    if n: "plain_name n" for n
  proof -
    have "is_rooted (p @ slash # n) = is_rooted p"
      using \<open>p \<noteq> ''''\<close> by (cases p) (auto simp: is_rooted_def)
    moreover have "split_on slash (p @ slash # n) = split_on slash p @ [n]"
      using n by (simp add: split_on_append_sep split_on_no_sep plain_name_def)
    moreover have "n \<noteq> ''''" using n by (simp add: plain_name_def)
    ultimately show ?thesis
      using \<open>p \<noteq> ''''\<close> n by (simp add: Join_def Clean_def Let_def clean_parts_snoc join_with_snoc [where n = n])
  qed
  then show ?thesis by blast
qed

lemma Join_inj: "p \<noteq> '''' \<Longrightarrow> plain_name m \<Longrightarrow> plain_name n \<Longrightarrow> Join [p, m] = Join [p, n] \<longleftrightarrow> m = n"
  using Join_prefix [of p] by auto

end
