(* ===== verification/Deploy.thy ===== *)
theory Deploy
  imports Crd Objects Deployment Paths
begin

text \<open>
  \<open>internal/tools/deploy/deploy.go\<close>: rendering, applying, hashing, reading back and removing the
  bundle of cluster objects that runs one composition-dynamic-controller.
\<close>

section \<open>Names and options\<close>

definition CompositionVersionLabel :: string where
  "CompositionVersionLabel = ''krateo.io/composition-version''"

definition controllerResourceSuffix :: string where "controllerResourceSuffix = ''-controller''"
definition configmapResourceSuffix :: string where "configmapResourceSuffix = ''-configmap''"

record undeploy_options =
  ud_namespace :: string
  ud_gvr :: gvr
  ud_spec :: "chart_info option"
  ud_rbacFolderPath :: string
  ud_skipCRD :: bool
  ud_deploymentTemplatePath :: string
  ud_serviceTemplatePath :: string
  ud_configmapTemplatePath :: string
  ud_jsonSchemaTemplatePath :: string
  ud_jsonSchemaBytes :: string

record deploy_options =
  do_gvr :: gvr
  do_namespace :: string
  do_spec :: "chart_info option"
  do_rbacFolderPath :: string
  do_deploymentTemplatePath :: string
  do_configmapTemplatePath :: string
  do_jsonSchemaTemplatePath :: string
  do_serviceTemplatePath :: string
  do_jsonSchemaBytes :: string
  do_dryRunServer :: bool

definition resourceNamer :: "string \<Rightarrow> string \<Rightarrow> string" where
  "resourceNamer resourceName chartVersion = resourceName @ ''-'' @ chartVersion"

definition getCDCConfigmapNN :: "namespaced_name \<Rightarrow> namespaced_name" where
  "getCDCConfigmapNN nn = \<lparr>nn_namespace = nn_namespace nn,
     nn_name = nn_name nn @ configmapResourceSuffix\<rparr>"

definition getCDCDeploymentNN :: "namespaced_name \<Rightarrow> namespaced_name" where
  "getCDCDeploymentNN nn = \<lparr>nn_namespace = nn_namespace nn,
     nn_name = nn_name nn @ controllerResourceSuffix\<rparr>"

definition getCDCrbacNN :: "namespaced_name \<Rightarrow> namespaced_name" where
  "getCDCrbacNN nn = \<lparr>nn_namespace = nn_namespace nn,
     nn_name = nn_name nn @ controllerResourceSuffix\<rparr>"

definition getJsonSchemaConfigmapNN :: "namespaced_name \<Rightarrow> namespaced_name" where
  "getJsonSchemaConfigmapNN nn = \<lparr>nn_namespace = nn_namespace nn,
     nn_name = nn_name nn @ ''-jsonschema'' @ configmapResourceSuffix\<rparr>"

definition getServiceNN :: "namespaced_name \<Rightarrow> namespaced_name" where
  "getServiceNN nn = \<lparr>nn_namespace = nn_namespace nn, nn_name = nn_name nn @ ''-service''\<rparr>"

definition nil_dereference :: string where
  "nil_dereference = ''invalid memory address or nil pointer dereference''"

text \<open>Reading \<open>opts.Spec.Credentials\<close> panics when \<open>opts.Spec\<close> is nil.\<close>

definition spec_credentials :: "chart_info option \<Rightarrow> ('w, credentials option) prog" where
  "spec_credentials spec = (case spec of
     None \<Rightarrow> panicP nil_dereference | Some c \<Rightarrow> returnP (ci_credentials c))"

section \<open>RBAC resources\<close>

record rbac =
  rb_sa :: kobj
  rb_clusterrole :: kobj
  rb_clusterrolebinding :: kobj
  rb_role :: kobj
  rb_rolebinding :: kobj

definition sa_values :: "kobj \<Rightarrow> gval list" where
  "sa_values sa = [GStr ''serviceAccount'', GStr (ko_name sa),
                   GStr ''saNamespace'', GStr (ko_namespace sa)]"

definition createRBACResources ::
  "'s env \<Rightarrow> gvr \<Rightarrow> namespaced_name \<Rightarrow> string \<Rightarrow> ('s world, rbac) prog" where
  "createRBACResources E g nn folder =
     thenP (CreateK8sObject E ''ServiceAccount'' g nn (Join [folder, ''serviceaccount.yaml'']) []) (\<lambda>sa.
     thenP (CreateK8sObject E ''ClusterRole'' g nn (Join [folder, ''clusterrole.yaml'']) []) (\<lambda>clusterrole.
     thenP (CreateK8sObject E ''ClusterRoleBinding'' g nn (Join [folder, ''clusterrolebinding.yaml''])
              (sa_values sa)) (\<lambda>clusterrolebinding.
     thenP (CreateK8sObject E ''Role'' g nn (Join [folder, ''compositiondefinition-role.yaml'']) []) (\<lambda>role.
     thenP (CreateK8sObject E ''RoleBinding'' g nn (Join [folder, ''compositiondefinition-rolebinding.yaml''])
              (sa_values sa)) (\<lambda>rolebinding.
     returnP \<lparr>rb_sa = sa, rb_clusterrole = clusterrole, rb_clusterrolebinding = clusterrolebinding,
              rb_role = role, rb_rolebinding = rolebinding\<rparr>)))))"

text \<open>
  \<open>hsh.SumHash(...)\<close> whose error is reformatted with \<open>%v\<close>, which drops the chain.
\<close>

definition hashing ::
  "'s env \<Rightarrow> string \<Rightarrow> object_hash \<Rightarrow> jfield list \<Rightarrow> ('w, object_hash) prog" where
  "hashing E what h vals = onErr (\<lambda>e. Plain (what @ err_msg e)) (liftSum (SumHash E h vals))"

text \<open>The fields of each kind of object that enter the digest.\<close>

definition rules_fields :: "kobj \<Rightarrow> jfield list" where
  "rules_fields o1 = [JString (ko_name o1), JString (ko_namespace o1), JVal (obj_rules o1)]"

definition binding_fields :: "kobj \<Rightarrow> jfield list" where
  "binding_fields o1 = [JString (ko_name o1), JString (ko_namespace o1),
     JVal (obj_subjects o1), JVal (obj_roleRef o1)]"

definition name_fields :: "kobj \<Rightarrow> jfield list" where
  "name_fields o1 = [JString (ko_name o1), JString (ko_namespace o1)]"

definition data_fields :: "kobj \<Rightarrow> jfield list" where
  "data_fields o1 = [JString (ko_name o1), JString (ko_namespace o1), JVal (obj_data o1)]"

definition depspec_fields :: "kobj \<Rightarrow> jfield list" where
  "depspec_fields o1 = [JString (ko_name o1), JString (ko_namespace o1),
     JDeploymentSpec (obj_depSpec o1)]"

definition svcspec_fields :: "kobj \<Rightarrow> jfield list" where
  "svcspec_fields o1 = [JString (ko_name o1), JString (ko_namespace o1), JVal (obj_svcSpec o1)]"

definition installRBACResources ::
  "'s env \<Rightarrow> rbac \<Rightarrow> object_hash option \<Rightarrow> apply_options \<Rightarrow> ('s world, object_hash) prog" where
  "installRBACResources E rb hsh applyOpts =
     (case hsh of None \<Rightarrow> failP (Plain ''hasher is required'') | Some h0 \<Rightarrow>
     thenP (Apply E (rb_clusterrole rb) applyOpts) (\<lambda>clusterrole.
     thenP (hashing E ''error hashing clusterrole: '' h0 (rules_fields clusterrole)) (\<lambda>h1.
     thenP (Apply E (rb_clusterrolebinding rb) applyOpts) (\<lambda>clusterrolebinding.
     thenP (hashing E ''error hashing clusterrolebinding: '' h1 (binding_fields clusterrolebinding)) (\<lambda>h2.
     thenP (Apply E (rb_role rb) applyOpts) (\<lambda>role.
     thenP (hashing E ''error hashing role: '' h2 (rules_fields role)) (\<lambda>h3.
     thenP (Apply E (rb_rolebinding rb) applyOpts) (\<lambda>rolebinding.
     thenP (hashing E ''error hashing rolebinding: '' h3 (binding_fields rolebinding)) (\<lambda>h4.
     thenP (Apply E (rb_sa rb) applyOpts) (\<lambda>sa.
     hashing E ''error hashing serviceaccount: '' h4 (name_fields sa)))))))))))"

text \<open>
  A read whose \<open>NotFound\<close> stands for the zero object and whose other errors are wrapped.
\<close>

definition get_or_zero :: "'s env \<Rightarrow> string \<Rightarrow> kobj \<Rightarrow> ('s world, kobj) prog" where
  "get_or_zero E what o1 =
     thenP (tryP (Get E o1)) (\<lambda>got.
     case got of
       Inl e \<Rightarrow> if IsNotFound E e then returnP zero_obj else failP (Wrap what e '''')
     | Inr o2 \<Rightarrow> returnP o2)"

definition lookupRBACResources ::
  "'s env \<Rightarrow> rbac \<Rightarrow> object_hash option \<Rightarrow> ('s world, object_hash) prog" where
  "lookupRBACResources E rb hsh =
     (case hsh of None \<Rightarrow> failP (Plain ''hasher is required'') | Some h0 \<Rightarrow>
     thenP (get_or_zero E ''error getting clusterrole: '' (rb_clusterrole rb)) (\<lambda>clusterrole.
     thenP (hashing E ''error hashing clusterrole: '' h0 (rules_fields clusterrole)) (\<lambda>h1.
     thenP (get_or_zero E ''error getting clusterrolebinding: '' (rb_clusterrolebinding rb)) (\<lambda>clusterrolebinding.
     thenP (hashing E ''error hashing clusterrolebinding: '' h1 (binding_fields clusterrolebinding)) (\<lambda>h2.
     thenP (get_or_zero E ''error getting role: '' (rb_role rb)) (\<lambda>role.
     thenP (hashing E ''error hashing role: '' h2 (rules_fields role)) (\<lambda>h3.
     thenP (get_or_zero E ''error getting rolebinding: '' (rb_rolebinding rb)) (\<lambda>rolebinding.
     thenP (hashing E ''error hashing rolebinding: '' h3 (binding_fields rolebinding)) (\<lambda>h4.
     thenP (get_or_zero E ''error getting serviceaccount: '' (rb_sa rb)) (\<lambda>sa.
     hashing E ''error hashing serviceaccount: '' h4 (name_fields sa)))))))))))"

definition uninstallRBACResources :: "'s env \<Rightarrow> rbac \<Rightarrow> ('s world, unit) prog" where
  "uninstallRBACResources E rb =
     thenP (Uninstall E (rb_clusterrole rb) no_uninstall_options) (\<lambda>_.
     thenP (Uninstall E (rb_clusterrolebinding rb) no_uninstall_options) (\<lambda>_.
     thenP (Uninstall E (rb_role rb) no_uninstall_options) (\<lambda>_.
     thenP (Uninstall E (rb_rolebinding rb) no_uninstall_options) (\<lambda>_.
     Uninstall E (rb_sa rb) no_uninstall_options))))"

section \<open>The bundle\<close>

definition bundle_nn :: "string \<Rightarrow> gvr \<Rightarrow> namespaced_name" where
  "bundle_nn namespace g = \<lparr>nn_namespace = namespace,
     nn_name = resourceNamer (gvr_resource g) (gvr_version g)\<rparr>"

definition secret_nn :: "credentials \<Rightarrow> namespaced_name \<Rightarrow> namespaced_name" where
  "secret_nn cred nn = getCDCrbacNN \<lparr>nn_namespace = sk_namespace (cr_passwordRef cred),
     nn_name = nn_name nn\<rparr>"

definition secret_role ::
  "'s env \<Rightarrow> gvr \<Rightarrow> credentials \<Rightarrow> namespaced_name \<Rightarrow> string \<Rightarrow> ('s world, kobj) prog" where
  "secret_role E g cred nn folder =
     CreateK8sObject E ''Role'' g (secret_nn cred nn) (Join [folder, ''secret-role.yaml''])
       [GStr ''secretName'', GStr (sk_name (cr_passwordRef cred))]"

text \<open>Removing renders the binding without the values that applying and looking up hand over.\<close>

definition secret_rolebinding ::
  "'s env \<Rightarrow> gvr \<Rightarrow> credentials \<Rightarrow> namespaced_name \<Rightarrow> string \<Rightarrow> gval list \<Rightarrow> ('s world, kobj) prog" where
  "secret_rolebinding E g cred nn folder extra =
     CreateK8sObject E ''RoleBinding'' g (secret_nn cred nn)
       (Join [folder, ''secret-rolebinding.yaml'']) extra"

definition jsonSchemaConfigmap ::
  "'s env \<Rightarrow> gvr \<Rightarrow> namespaced_name \<Rightarrow> string \<Rightarrow> string \<Rightarrow> ('s world, kobj) prog" where
  "jsonSchemaConfigmap E g nn path schemaBytes =
     wrapping ''error creating ConfigMap for JSON schema: ''
       (CreateK8sObject E ''ConfigMap'' g (getJsonSchemaConfigmapNN nn) path
         [GStr ''schema'', GStr schemaBytes])"

definition controllerConfigmap ::
  "'s env \<Rightarrow> gvr \<Rightarrow> namespaced_name \<Rightarrow> string \<Rightarrow> kobj \<Rightarrow> ('s world, kobj) prog" where
  "controllerConfigmap E g nn path sa =
     CreateK8sObject E ''ConfigMap'' g (getCDCConfigmapNN nn) path
       [GStr ''composition_controller_sa_name'', GStr (ko_name sa),
        GStr ''composition_controller_sa_namespace'', GStr (ko_namespace sa)]"

definition controllerDeployment ::
  "'s env \<Rightarrow> gvr \<Rightarrow> namespaced_name \<Rightarrow> string \<Rightarrow> kobj \<Rightarrow> ('s world, kobj) prog" where
  "controllerDeployment E g nn path sa =
     CreateK8sObject E ''Deployment'' g (getCDCDeploymentNN nn) path
       [GStr ''serviceAccountName'', GStr (ko_name sa)]"

definition controllerService ::
  "'s env \<Rightarrow> gvr \<Rightarrow> namespaced_name \<Rightarrow> string \<Rightarrow> ('s world, kobj) prog" where
  "controllerService E g nn path = CreateK8sObject E ''Service'' g (getCDCDeploymentNN nn) path []"

section \<open>Deploy\<close>

definition deployment_gvr :: gvr where
  "deployment_gvr = \<lparr>gvr_group = ''apps'', gvr_version = ''v1'', gvr_resource = ''deployments''\<rparr>"

text \<open>The secret's Role and RoleBinding, when the chart needs credentials.\<close>

definition deploy_secret ::
  "'s env \<Rightarrow> deploy_options \<Rightarrow> kobj \<Rightarrow> apply_options \<Rightarrow> object_hash \<Rightarrow> ('s world, object_hash) prog" where
  "deploy_secret E opts sa applyOpts h0 =
     (let nn = bundle_nn (do_namespace opts) (do_gvr opts)
      in thenP (spec_credentials (do_spec opts)) (\<lambda>creds.
         case creds of None \<Rightarrow> returnP h0 | Some cred \<Rightarrow>
         thenP (secret_role E (do_gvr opts) cred nn (do_rbacFolderPath opts)) (\<lambda>role.
         thenP (Apply E role applyOpts) (\<lambda>role2.
         thenP (hashing E ''error hashing role: '' h0 (rules_fields role2)) (\<lambda>h1.
         thenP (secret_rolebinding E (do_gvr opts) cred nn (do_rbacFolderPath opts) (sa_values sa)) (\<lambda>rb.
         thenP (Apply E rb applyOpts) (\<lambda>rb2.
         hashing E ''error hashing rolebinding: '' h1 (binding_fields rb2))))))))"

definition deploy_service ::
  "'s env \<Rightarrow> deploy_options \<Rightarrow> apply_options \<Rightarrow> object_hash \<Rightarrow> ('s world, object_hash) prog" where
  "deploy_service E opts applyOpts h0 =
     (let nn = bundle_nn (do_namespace opts) (do_gvr opts)
      in thenP (tryP (stat_file E (do_serviceTemplatePath opts))) (\<lambda>st.
         case st of Inl _ \<Rightarrow> returnP h0 | Inr _ \<Rightarrow>
         thenP (controllerService E (do_gvr opts) nn (do_serviceTemplatePath opts)) (\<lambda>svc.
         thenP (Apply E svc applyOpts) (\<lambda>svc2.
         hashing E ''error hashing service: '' h0 (svcspec_fields svc2)))))"

text \<open>Waiting, restarting, waiting again: only outside a dry run.\<close>

definition deploy_restart :: "'s env \<Rightarrow> kobj \<Rightarrow> ('s world, unit) prog" where
  "deploy_restart E dep =
     thenP (wrapping ''error waiting for deployment to be ready: ''
       (WatchResource E deployment_gvr IsReady (ko_namespace dep) (ko_name dep))) (\<lambda>_.
     thenP (RestartDeployment E dep) (\<lambda>dep2.
     wrapping ''waiting for deployment to be ready: ''
       (WatchResource E deployment_gvr IsReady (ko_namespace dep2) (ko_name dep2))))"

definition deploy_applyOpts :: "deploy_options \<Rightarrow> apply_options" where
  "deploy_applyOpts opts =
     (if do_dryRunServer opts then no_apply_options\<lparr>ao_dryRun := [''All'']\<rparr> else no_apply_options)"

definition Deploy :: "'s env \<Rightarrow> deploy_options \<Rightarrow> ('s world, string) prog" where
  "Deploy E opts =
     (let nn = bundle_nn (do_namespace opts) (do_gvr opts);
          applyOpts = deploy_applyOpts opts
      in thenP (createRBACResources E (do_gvr opts) (getCDCrbacNN nn) (do_rbacFolderPath opts)) (\<lambda>rb.
         thenP (deploy_secret E opts (rb_sa rb) applyOpts NewFNVObjectHash) (\<lambda>h1.
         thenP (installRBACResources E rb (Some h1) applyOpts) (\<lambda>h2.
         thenP (jsonSchemaConfigmap E (do_gvr opts) nn (do_jsonSchemaTemplatePath opts)
                  (do_jsonSchemaBytes opts)) (\<lambda>jcm.
         thenP (wrapping ''error applying ConfigMap for JSON schema: '' (Apply E jcm applyOpts)) (\<lambda>jcm2.
         thenP (hashing E ''error hashing JSON schema configmap: '' h2 (name_fields jcm2)) (\<lambda>h3.
         thenP (controllerConfigmap E (do_gvr opts) nn (do_configmapTemplatePath opts) (rb_sa rb)) (\<lambda>cm.
         thenP (Apply E cm applyOpts) (\<lambda>cm2.
         thenP (hashing E ''error hashing configmap: '' h3 (data_fields cm2)) (\<lambda>h4.
         thenP (controllerDeployment E (do_gvr opts) nn (do_deploymentTemplatePath opts) (rb_sa rb)) (\<lambda>dep.
         thenP (Apply E dep applyOpts) (\<lambda>dep2.
         (let dep3 = CleanFromRestartAnnotation dep2 in
         thenP (hashing E ''error hashing deployment spec: '' h4 (depspec_fields dep3)) (\<lambda>h5.
         thenP (deploy_service E opts applyOpts h5) (\<lambda>h6.
         thenP (whenP (\<not> do_dryRunServer opts) (deploy_restart E dep3)) (\<lambda>_.
         returnP (GetHash h6)))))))))))))))))"

section \<open>Lookup\<close>

definition lookup_secret ::
  "'s env \<Rightarrow> deploy_options \<Rightarrow> kobj \<Rightarrow> object_hash \<Rightarrow> ('s world, object_hash) prog" where
  "lookup_secret E opts sa h0 =
     (let nn = bundle_nn (do_namespace opts) (do_gvr opts)
      in thenP (spec_credentials (do_spec opts)) (\<lambda>creds.
         case creds of None \<Rightarrow> returnP h0 | Some cred \<Rightarrow>
         thenP (secret_role E (do_gvr opts) cred nn (do_rbacFolderPath opts)) (\<lambda>role.
         thenP (Get E role) (\<lambda>role2.
         thenP (hashing E ''error hashing role: '' h0 (rules_fields role2)) (\<lambda>h1.
         thenP (secret_rolebinding E (do_gvr opts) cred nn (do_rbacFolderPath opts) (sa_values sa)) (\<lambda>rb.
         thenP (Get E rb) (\<lambda>rb2.
         hashing E ''error hashing rolebinding: '' h1 (binding_fields rb2))))))))"

definition lookup_service ::
  "'s env \<Rightarrow> deploy_options \<Rightarrow> object_hash \<Rightarrow> ('s world, object_hash) prog" where
  "lookup_service E opts h0 =
     (let nn = bundle_nn (do_namespace opts) (do_gvr opts)
      in thenP (tryP (stat_file E (do_serviceTemplatePath opts))) (\<lambda>st.
         case st of Inl _ \<Rightarrow> returnP h0 | Inr _ \<Rightarrow>
         thenP (controllerService E (do_gvr opts) nn (do_serviceTemplatePath opts)) (\<lambda>svc.
         thenP (get_or_zero E ''error fetching service: '' svc) (\<lambda>svc2.
         hashing E ''error hashing service: '' h0 (svcspec_fields svc2)))))"

definition Lookup :: "'s env \<Rightarrow> deploy_options \<Rightarrow> ('s world, string) prog" where
  "Lookup E opts =
     (let nn = bundle_nn (do_namespace opts) (do_gvr opts)
      in thenP (createRBACResources E (do_gvr opts) (getCDCrbacNN nn) (do_rbacFolderPath opts)) (\<lambda>rb.
         thenP (lookup_secret E opts (rb_sa rb) NewFNVObjectHash) (\<lambda>h1.
         thenP (lookupRBACResources E rb (Some h1)) (\<lambda>h2.
         thenP (jsonSchemaConfigmap E (do_gvr opts) nn (do_jsonSchemaTemplatePath opts)
                  (do_jsonSchemaBytes opts)) (\<lambda>jcm.
         thenP (get_or_zero E ''error fetching ConfigMap for JSON schema: '' jcm) (\<lambda>jcm2.
         thenP (hashing E ''error hashing JSON schema configmap: '' h2 (name_fields jcm2)) (\<lambda>h3.
         thenP (controllerConfigmap E (do_gvr opts) nn (do_configmapTemplatePath opts) (rb_sa rb)) (\<lambda>cm.
         thenP (get_or_zero E ''error fetching configmap: '' cm) (\<lambda>cm2.
         thenP (hashing E ''error hashing configmap: '' h3 (data_fields cm2)) (\<lambda>h4.
         thenP (controllerDeployment E (do_gvr opts) nn (do_deploymentTemplatePath opts) (rb_sa rb)) (\<lambda>dep.
         thenP (get_or_zero E ''error fetching deployment: '' dep) (\<lambda>dep2.
         thenP (hashing E ''error hashing deployment spec: '' h4
                  (depspec_fields (CleanFromRestartAnnotation dep2))) (\<lambda>h5.
         thenP (lookup_service E opts h5) (\<lambda>h6.
         returnP (GetHash h6)))))))))))))))"

section \<open>Undeploy\<close>

definition undeploy_service :: "'s env \<Rightarrow> undeploy_options \<Rightarrow> ('s world, unit) prog" where
  "undeploy_service E opts =
     (let nn = bundle_nn (ud_namespace opts) (ud_gvr opts)
      in thenP (tryP (stat_file E (ud_serviceTemplatePath opts))) (\<lambda>st.
         case st of Inl _ \<Rightarrow> returnP () | Inr _ \<Rightarrow>
         thenP (controllerService E (ud_gvr opts) nn (ud_serviceTemplatePath opts)) (\<lambda>svc.
         Uninstall E svc no_uninstall_options)))"

definition undeploy_secret :: "'s env \<Rightarrow> undeploy_options \<Rightarrow> ('s world, unit) prog" where
  "undeploy_secret E opts =
     (let nn = bundle_nn (ud_namespace opts) (ud_gvr opts)
      in thenP (spec_credentials (ud_spec opts)) (\<lambda>creds.
         case creds of None \<Rightarrow> returnP () | Some cred \<Rightarrow>
         thenP (secret_role E (ud_gvr opts) cred nn (ud_rbacFolderPath opts)) (\<lambda>role.
         thenP (Uninstall E role no_uninstall_options) (\<lambda>_.
         thenP (secret_rolebinding E (ud_gvr opts) cred nn (ud_rbacFolderPath opts) []) (\<lambda>rb.
         Uninstall E rb no_uninstall_options)))))"

definition Undeploy :: "'s env \<Rightarrow> undeploy_options \<Rightarrow> ('s world, unit) prog" where
  "Undeploy E opts =
     (let nn = bundle_nn (ud_namespace opts) (ud_gvr opts)
      in thenP (createRBACResources E (ud_gvr opts) (getCDCrbacNN nn) (ud_rbacFolderPath opts)) (\<lambda>rb.
         thenP (jsonSchemaConfigmap E (ud_gvr opts) nn (ud_jsonSchemaTemplatePath opts)
                  (ud_jsonSchemaBytes opts)) (\<lambda>jcm.
         thenP (Uninstall E jcm no_uninstall_options) (\<lambda>_.
         thenP (controllerDeployment E (ud_gvr opts) nn (ud_deploymentTemplatePath opts) (rb_sa rb)) (\<lambda>dep.
         thenP (Uninstall E dep no_uninstall_options) (\<lambda>_.
         thenP (controllerConfigmap E (ud_gvr opts) nn (ud_configmapTemplatePath opts) (rb_sa rb)) (\<lambda>cm.
         thenP (Uninstall E cm no_uninstall_options) (\<lambda>_.
         thenP (uninstallRBACResources E rb) (\<lambda>_.
         thenP (undeploy_service E opts) (\<lambda>_.
         thenP (undeploy_secret E opts) (\<lambda>_.
         whenP (\<not> ud_skipCRD opts) (Uninstall_crd E (GroupResource (ud_gvr opts))))))))))))))"

end
