(* ===== verification/Bundle.thy ===== *)
theory Bundle
  imports Deploy
begin

text \<open>
  The bundle as data: one item per object, with how it is made, applied, read back and hashed.
  \<open>Deploy\<close> and \<open>Lookup\<close> are shown equal to loops over the same list of items, and their properties
  (what they may send, that the digests agree) are proved once for the loops.
\<close>

record 's item =
  it_make :: "('s world, kobj option) prog"
  it_apply_err :: "err \<Rightarrow> err"
  it_get :: "kobj \<Rightarrow> ('s world, kobj) prog"
  it_clean :: "kobj \<Rightarrow> kobj"
  it_what :: string
  it_fields :: "kobj \<Rightarrow> jfield list"

definition apply_item ::
  "'s env \<Rightarrow> apply_options \<Rightarrow> 's item \<Rightarrow> object_hash \<Rightarrow> ('s world, object_hash \<times> kobj option) prog" where
  "apply_item E ao it h =
     thenP (it_make it) (\<lambda>m. case m of
       None \<Rightarrow> returnP (h, None)
     | Some o1 \<Rightarrow>
         thenP (onErr (it_apply_err it) (Apply E o1 ao)) (\<lambda>o2.
         thenP (hashing E (it_what it) h (it_fields it (it_clean it o2))) (\<lambda>h2.
         returnP (h2, Some (it_clean it o2)))))"

fun apply_items ::
  "'s env \<Rightarrow> apply_options \<Rightarrow> 's item list \<Rightarrow> object_hash \<Rightarrow> ('s world, object_hash) prog" where
  "apply_items E ao [] h = returnP h"
| "apply_items E ao (it # its) h =
     thenP (apply_item E ao it h) (\<lambda>p. apply_items E ao its (fst p))"

definition lookup_item :: "'s env \<Rightarrow> 's item \<Rightarrow> object_hash \<Rightarrow> ('s world, object_hash) prog" where
  "lookup_item E it h =
     thenP (it_make it) (\<lambda>m. case m of
       None \<Rightarrow> returnP h
     | Some o1 \<Rightarrow>
         thenP (it_get it o1) (\<lambda>o2. hashing E (it_what it) h (it_fields it (it_clean it o2))))"

fun lookup_items :: "'s env \<Rightarrow> 's item list \<Rightarrow> object_hash \<Rightarrow> ('s world, object_hash) prog" where
  "lookup_items E [] h = returnP h"
| "lookup_items E (it # its) h = thenP (lookup_item E it h) (lookup_items E its)"

lemma lookup_items_fun:
  "lookup_items E [] = returnP"
  "lookup_items E (it # its) = (\<lambda>h. thenP (lookup_item E it h) (lookup_items E its))"
  by (rule ext, simp)+

lemma apply_items_append:
  "apply_items E ao (xs @ ys) h = thenP (apply_items E ao xs h) (apply_items E ao ys)"
  by (induction xs arbitrary: h) (simp_all add: thenP_assoc)

lemma lookup_items_append:
  "lookup_items E (xs @ ys) h = thenP (lookup_items E xs h) (lookup_items E ys)"
proof (induction xs arbitrary: h)
  case (Cons x xs)
  have "lookup_items E (xs @ ys) = (\<lambda>h. thenP (lookup_items E xs h) (lookup_items E ys))"
    using Cons by (rule ext)
  then show ?case by (simp add: thenP_assoc)
qed simp

section \<open>The items of the bundle\<close>

definition item :: "('s world, kobj) prog \<Rightarrow> (kobj \<Rightarrow> ('s world, kobj) prog) \<Rightarrow> string \<Rightarrow>
    (kobj \<Rightarrow> jfield list) \<Rightarrow> 's item" where
  "item mk get what flds = \<lparr>it_make = thenP mk (\<lambda>o1. returnP (Some o1)),
     it_apply_err = (\<lambda>e. e), it_get = get, it_clean = (\<lambda>o1. o1), it_what = what, it_fields = flds\<rparr>"

definition when_credentials ::
  "deploy_options \<Rightarrow> (credentials \<Rightarrow> ('s world, kobj) prog) \<Rightarrow> ('s world, kobj option) prog" where
  "when_credentials opts mk =
     thenP (spec_credentials (do_spec opts)) (\<lambda>creds.
     case creds of None \<Rightarrow> returnP None | Some cred \<Rightarrow> thenP (mk cred) (\<lambda>o1. returnP (Some o1)))"

definition secret_items :: "'s env \<Rightarrow> deploy_options \<Rightarrow> kobj \<Rightarrow> 's item list" where
  "secret_items E opts sa =
     (let nn = bundle_nn (do_namespace opts) (do_gvr opts) in
      [(item (returnP sa) (Get E) ''error hashing role: '' rules_fields)
         \<lparr>it_make := when_credentials opts (\<lambda>cred.
            secret_role E (do_gvr opts) cred nn (do_rbacFolderPath opts))\<rparr>,
       (item (returnP sa) (Get E) ''error hashing rolebinding: '' binding_fields)
         \<lparr>it_make := when_credentials opts (\<lambda>cred.
            secret_rolebinding E (do_gvr opts) cred nn (do_rbacFolderPath opts) (sa_values sa))\<rparr>])"

definition rbac_items :: "'s env \<Rightarrow> rbac \<Rightarrow> 's item list" where
  "rbac_items E rb =
     [item (returnP (rb_clusterrole rb)) (get_or_zero E ''error getting clusterrole: '')
        ''error hashing clusterrole: '' rules_fields,
      item (returnP (rb_clusterrolebinding rb)) (get_or_zero E ''error getting clusterrolebinding: '')
        ''error hashing clusterrolebinding: '' binding_fields,
      item (returnP (rb_role rb)) (get_or_zero E ''error getting role: '')
        ''error hashing role: '' rules_fields,
      item (returnP (rb_rolebinding rb)) (get_or_zero E ''error getting rolebinding: '')
        ''error hashing rolebinding: '' binding_fields,
      item (returnP (rb_sa rb)) (get_or_zero E ''error getting serviceaccount: '')
        ''error hashing serviceaccount: '' name_fields]"

definition config_items :: "'s env \<Rightarrow> deploy_options \<Rightarrow> kobj \<Rightarrow> 's item list" where
  "config_items E opts sa =
     (let nn = bundle_nn (do_namespace opts) (do_gvr opts) in
      [(item (jsonSchemaConfigmap E (do_gvr opts) nn (do_jsonSchemaTemplatePath opts)
                (do_jsonSchemaBytes opts))
         (get_or_zero E ''error fetching ConfigMap for JSON schema: '')
         ''error hashing JSON schema configmap: '' name_fields)
         \<lparr>it_apply_err := (\<lambda>e. Wrap ''error applying ConfigMap for JSON schema: '' e '''')\<rparr>,
       item (controllerConfigmap E (do_gvr opts) nn (do_configmapTemplatePath opts) sa)
         (get_or_zero E ''error fetching configmap: '') ''error hashing configmap: '' data_fields])"

definition deployment_item :: "'s env \<Rightarrow> deploy_options \<Rightarrow> kobj \<Rightarrow> 's item" where
  "deployment_item E opts sa =
     (let nn = bundle_nn (do_namespace opts) (do_gvr opts) in
      (item (controllerDeployment E (do_gvr opts) nn (do_deploymentTemplatePath opts) sa)
         (get_or_zero E ''error fetching deployment: '') ''error hashing deployment spec: ''
         depspec_fields) \<lparr>it_clean := CleanFromRestartAnnotation\<rparr>)"

definition service_item :: "'s env \<Rightarrow> deploy_options \<Rightarrow> 's item" where
  "service_item E opts =
     (let nn = bundle_nn (do_namespace opts) (do_gvr opts) in
      (item (returnP zero_obj) (get_or_zero E ''error fetching service: '')
         ''error hashing service: '' svcspec_fields)
       \<lparr>it_make := thenP (tryP (stat_file E (do_serviceTemplatePath opts))) (\<lambda>st.
          case st of Inl _ \<Rightarrow> returnP None
          | Inr _ \<Rightarrow> thenP (controllerService E (do_gvr opts) nn (do_serviceTemplatePath opts))
              (\<lambda>o1. returnP (Some o1)))\<rparr>)"

lemmas item_defs = item_def secret_items_def rbac_items_def config_items_def deployment_item_def
  service_item_def

definition bundle_items :: "'s env \<Rightarrow> deploy_options \<Rightarrow> rbac \<Rightarrow> 's item list" where
  "bundle_items E opts rb =
     secret_items E opts (rb_sa rb) @ rbac_items E rb @ config_items E opts (rb_sa rb) @
     [deployment_item E opts (rb_sa rb), service_item E opts]"

section \<open>Deploy and Lookup as loops over the items\<close>

lemma thenP_thenP_case_sum:
  "thenP (case r of Inl e \<Rightarrow> f e | Inr x \<Rightarrow> g x) k =
   (case r of Inl e \<Rightarrow> thenP (f e) k | Inr x \<Rightarrow> thenP (g x) k)"
  by (cases r) simp_all

lemma apply_item_item:
  "apply_item E ao (item mk get what flds) h =
     thenP mk (\<lambda>o1. thenP (Apply E o1 ao) (\<lambda>o2. thenP (hashing E what h (flds o2))
       (\<lambda>h2. returnP (h2, Some o2))))"
  by (simp add: apply_item_def item_def thenP_assoc)

lemma deploy_secret_items:
  "deploy_secret E opts sa ao h = apply_items E ao (secret_items E opts sa) h"
  by (cases "do_spec opts")
    (auto simp: deploy_secret_def secret_items_def apply_item_def item_def when_credentials_def
      spec_credentials_def Let_def thenP_assoc split: option.split)

lemma installRBAC_items:
  "installRBACResources E rb (Some h) ao = apply_items E ao (rbac_items E rb) h"
  by (simp add: installRBACResources_def rbac_items_def apply_item_item thenP_assoc)

lemma deploy_service_item:
  "deploy_service E opts ao h = apply_items E ao [service_item E opts] h"
  by (simp add: deploy_service_def service_item_def apply_item_def item_def Let_def thenP_assoc
      thenP_thenP_case_sum lookup_items_fun del: returnP_apply cong: sum.case_cong)

lemma lookup_secret_items:
  "lookup_secret E opts sa h = lookup_items E (secret_items E opts sa) h"
  by (cases "do_spec opts")
    (auto simp: lookup_secret_def secret_items_def lookup_item_def item_def lookup_items_fun when_credentials_def
      spec_credentials_def Let_def thenP_assoc split: option.split)

lemma lookup_item_item:
  "lookup_item E (item mk get what flds) h =
     thenP mk (\<lambda>o1. thenP (get o1) (\<lambda>o2. hashing E what h (flds o2)))"
  by (simp add: lookup_item_def item_def thenP_assoc)

lemma lookupRBAC_items:
  "lookupRBACResources E rb (Some h) = lookup_items E (rbac_items E rb) h"
  by (simp add: lookupRBACResources_def rbac_items_def lookup_item_item lookup_items_fun thenP_assoc)

lemma lookup_service_item:
  "lookup_service E opts h = lookup_items E [service_item E opts] h"
  by (simp add: lookup_service_def service_item_def lookup_item_def item_def Let_def thenP_assoc
      thenP_thenP_case_sum lookup_items_fun del: returnP_apply cong: sum.case_cong)

lemma apply_items_fun:
  "apply_items E ao [] = returnP"
  "apply_items E ao (it # its) = (\<lambda>h. thenP (apply_item E ao it h) (\<lambda>p. apply_items E ao its (fst p)))"
  by (rule ext, simp)+

lemma lookup_item_updates:
  "lookup_item E ((item mk get what flds)\<lparr>it_clean := c\<rparr>) h =
     thenP mk (\<lambda>o1. thenP (get o1) (\<lambda>o2. hashing E what h (flds (c o2))))"
  "lookup_item E ((item mk get what flds)\<lparr>it_apply_err := f\<rparr>) h =
     thenP mk (\<lambda>o1. thenP (get o1) (\<lambda>o2. hashing E what h (flds o2)))"
  by (simp_all add: lookup_item_def item_def thenP_assoc)

lemma apply_item_updates:
  "apply_item E ao ((item mk get what flds)\<lparr>it_clean := c\<rparr>) h =
     thenP mk (\<lambda>o1. thenP (Apply E o1 ao) (\<lambda>o2. thenP (hashing E what h (flds (c o2)))
       (\<lambda>h2. returnP (h2, Some (c o2)))))"
  "apply_item E ao ((item mk get what flds)\<lparr>it_apply_err := f\<rparr>) h =
     thenP mk (\<lambda>o1. thenP (onErr f (Apply E o1 ao)) (\<lambda>o2. thenP (hashing E what h (flds o2))
       (\<lambda>h2. returnP (h2, Some o2))))"
  by (simp_all add: apply_item_def item_def thenP_assoc)

lemma lookup_service_fun: "lookup_service E opts = lookup_item E (service_item E opts)"
  by (rule ext) (simp add: lookup_service_item lookup_items_fun del: returnP_apply)

text \<open>
  \<open>Lookup\<close> is the loop over the bundle's items that reads each object back and adds its
  fields to the hash.
\<close>

lemma Lookup_as_items:
  "Lookup E opts =
     thenP (createRBACResources E (do_gvr opts) (getCDCrbacNN (bundle_nn (do_namespace opts) (do_gvr opts)))
       (do_rbacFolderPath opts)) (\<lambda>rb.
     thenP (lookup_items E (bundle_items E opts rb) NewFNVObjectHash) (\<lambda>h. returnP (GetHash h)))"
  unfolding Lookup_def Let_def bundle_items_def lookup_secret_items lookupRBAC_items lookup_items_append
    lookup_service_fun
  by (simp add: config_items_def deployment_item_def lookup_item_item lookup_items_fun Let_def
      thenP_assoc lookup_item_updates del: returnP_apply)

text \<open>
  \<open>Deploy\<close> is the loop over the same items that applies each object and adds the fields of the
  server's answer to the hash, followed, outside a dry run, by waiting, restarting and waiting.
\<close>

lemma Deploy_as_items:
  "Deploy E opts =
     thenP (createRBACResources E (do_gvr opts) (getCDCrbacNN (bundle_nn (do_namespace opts) (do_gvr opts)))
       (do_rbacFolderPath opts)) (\<lambda>rb.
     thenP (apply_items E (deploy_applyOpts opts) (secret_items E opts (rb_sa rb) @ rbac_items E rb @
       config_items E opts (rb_sa rb)) NewFNVObjectHash) (\<lambda>h4.
     thenP (apply_item E (deploy_applyOpts opts) (deployment_item E opts (rb_sa rb)) h4) (\<lambda>p.
     thenP (apply_items E (deploy_applyOpts opts) [service_item E opts] (fst p)) (\<lambda>h6.
     thenP (whenP (\<not> do_dryRunServer opts) (deploy_restart E (the (snd p)))) (\<lambda>_.
     returnP (GetHash h6))))))"
  unfolding Deploy_def Let_def deploy_secret_items installRBAC_items apply_items_append
    deploy_service_item
  by (simp add: config_items_def deployment_item_def apply_items_fun Let_def
      thenP_assoc apply_item_updates apply_item_item del: returnP_apply)

section \<open>What they may send\<close>

definition file_reads :: "event set" where
  "file_reads = {ev. (\<exists>p. ev = EvReadFile p) \<or> (\<exists>p. ev = EvStat p)}"

definition plain_reads :: "event set" where
  "plain_reads = file_reads \<union> {ev. \<exists>k a ns n. ev = EvGet k a ns n}"

lemma file_reads_simps [simp]: "EvReadFile p \<in> file_reads" "EvStat p \<in> file_reads"
  by (simp_all add: file_reads_def)

lemma plain_reads_simps [simp]:
  "EvReadFile p \<in> plain_reads" "EvStat p \<in> plain_reads" "EvGet k a ns n \<in> plain_reads"
  by (simp_all add: plain_reads_def)

lemma emits_spec_credentials [emits_intros]: "emits tr A (spec_credentials spec)"
  unfolding spec_credentials_def by (cases spec) (auto intro: emits_intros)

lemma emits_hashing [emits_intros]: "emits tr A (hashing E what h vals)"
  unfolding hashing_def by (intro emits_intros)

lemma emits_createRBACResources:
  assumes "file_reads \<subseteq> A"
  shows "emits w_trace A (createRBACResources E g nn folder)"
  unfolding createRBACResources_def
  by (intro emits_intros; rule subsetD [OF assms]; simp)

lemma emits_make:
  "it \<in> set (bundle_items E opts rb) \<Longrightarrow> emits w_trace file_reads (it_make it)"
  unfolding bundle_items_def item_defs Let_def when_credentials_def secret_role_def
    secret_rolebinding_def jsonSchemaConfigmap_def controllerConfigmap_def
    controllerDeployment_def controllerService_def
  by (auto intro!: emits_intros simp del: returnP_apply)

lemma emits_get_or_zero [emits_intros]:
  "EvGet (ko_kind o1) (ko_apiVersion o1) (ko_namespace o1) (ko_name o1) \<in> A \<Longrightarrow>
   emits w_trace A (get_or_zero E what o1)"
  unfolding get_or_zero_def by (intro emits_intros)

lemma emits_item_get:
  "it \<in> set (bundle_items E opts rb) \<Longrightarrow> emits w_trace plain_reads (it_get it o1)"
  unfolding bundle_items_def item_defs Let_def
  by (auto intro!: emits_intros simp del: returnP_apply)

lemma emits_lookup_items:
  "(\<And>it. it \<in> set its \<Longrightarrow> emits w_trace A (it_make it)) \<Longrightarrow>
   (\<And>it o1. it \<in> set its \<Longrightarrow> emits w_trace A (it_get it o1)) \<Longrightarrow> emits w_trace A (lookup_items E its h)"
  by (induction its arbitrary: h) (auto simp: lookup_item_def intro!: emits_intros)

lemma emits_apply_item:
  "emits w_trace A (it_make it) \<Longrightarrow> (\<And>o1 ev. apply_event ao o1 ev \<Longrightarrow> ev \<in> A) \<Longrightarrow>
   emits w_trace A (apply_item E ao it h)"
  unfolding apply_item_def by (auto intro!: emits_intros)

lemma emits_apply_items:
  "(\<And>it. it \<in> set its \<Longrightarrow> emits w_trace A (it_make it)) \<Longrightarrow>
   (\<And>o1 ev. apply_event ao o1 ev \<Longrightarrow> ev \<in> A) \<Longrightarrow> emits w_trace A (apply_items E ao its h)"
proof (induction its arbitrary: h)
  case (Cons it its)
  then show ?case by (auto intro!: emits_thenP emits_apply_item)
qed (simp only: apply_items.simps emits_returnP)

lemma Lookup_reads: "emits w_trace plain_reads (Lookup E opts)"
proof -
  have "emits w_trace plain_reads (it_make it)" if "it \<in> set (bundle_items E opts rb)" for it rb
    by (rule emits_mono [OF emits_make [OF that]]) (simp add: plain_reads_def)
  then show ?thesis
    unfolding Lookup_as_items
    by (intro emits_thenP emits_createRBACResources emits_lookup_items emits_returnP emits_item_get)
      (auto simp: plain_reads_def)
qed

text \<open>The events of a dry-run apply: reads, waits, and creates and updates marked as dry runs.\<close>

definition dry_events :: "event set" where
  "dry_events = plain_reads \<union> {ev. \<exists>d. ev = EvWait d} \<union>
     {ev. (\<exists>ao o1. ev = EvCreate ao o1 \<or> ev = EvUpdate ao o1) \<and> is_dry ev}"

lemma dry_apply_event:
  "apply_event (no_apply_options\<lparr>ao_dryRun := [''All'']\<rparr>) o1 ev \<Longrightarrow> ev \<in> dry_events"
  by (cases ev) (auto simp: dry_events_def)

lemma Deploy_dry_events:
  assumes "do_dryRunServer opts"
  shows "emits w_trace dry_events (Deploy E opts)"
proof -
  have ao: "deploy_applyOpts opts = no_apply_options\<lparr>ao_dryRun := [''All'']\<rparr>"
    using assms by (simp add: deploy_applyOpts_def)
  have mk: "emits w_trace dry_events (it_make it)" if "it \<in> set (bundle_items E opts rb)" for it rb
    by (rule emits_mono [OF emits_make [OF that]]) (auto simp: dry_events_def plain_reads_def)
  have rbac: "emits w_trace dry_events (createRBACResources E g nn folder)" for g nn folder
    by (rule emits_createRBACResources) (auto simp: dry_events_def plain_reads_def)
  have its: "emits w_trace dry_events (apply_items E (deploy_applyOpts opts) its h)"
    if "set its \<subseteq> set (bundle_items E opts rb)" for its h rb
    unfolding ao by (rule emits_apply_items) (use mk that dry_apply_event in auto)
  have it: "emits w_trace dry_events (apply_item E (deploy_applyOpts opts) (deployment_item E opts (rb_sa rb)) h)"
    for h and rb :: rbac
    unfolding ao by (rule emits_apply_item) (auto intro: mk [of _ rb] dry_apply_event simp: bundle_items_def)
  show ?thesis
    unfolding Deploy_as_items using assms
    by (intro emits_thenP rbac it its emits_returnP)
      (auto simp: whenP_def bundle_items_def intro: emits_returnP)
qed

text \<open>
  C18: \<open>Deploy\<close> and \<open>Lookup\<close> work on the same bundle: both are a loop over one list of items (made from
  the same templates and values), one applying each and hashing the server's answer, the other reading
  each and hashing what it finds, in the same order and with the same fields; \<open>Deploy\<close> adds the waiting
  and the restart, outside a dry run.
\<close>

theorem Deploy_Lookup_same_items:
  "Lookup E opts =
     thenP (createRBACResources E (do_gvr opts) (getCDCrbacNN (bundle_nn (do_namespace opts) (do_gvr opts)))
       (do_rbacFolderPath opts)) (\<lambda>rb.
     thenP (lookup_items E (bundle_items E opts rb) NewFNVObjectHash) (\<lambda>h. returnP (GetHash h))) \<and>
   Deploy E opts =
     thenP (createRBACResources E (do_gvr opts) (getCDCrbacNN (bundle_nn (do_namespace opts) (do_gvr opts)))
       (do_rbacFolderPath opts)) (\<lambda>rb.
     thenP (apply_items E (deploy_applyOpts opts) (secret_items E opts (rb_sa rb) @ rbac_items E rb @
       config_items E opts (rb_sa rb)) NewFNVObjectHash) (\<lambda>h4.
     thenP (apply_item E (deploy_applyOpts opts) (deployment_item E opts (rb_sa rb)) h4) (\<lambda>p.
     thenP (apply_items E (deploy_applyOpts opts) [service_item E opts] (fst p)) (\<lambda>h6.
     thenP (whenP (\<not> do_dryRunServer opts) (deploy_restart E (the (snd p)))) (\<lambda>_.
     returnP (GetHash h6)))))) \<and>
   bundle_items E opts rb = secret_items E opts (rb_sa rb) @ rbac_items E rb @
     config_items E opts (rb_sa rb) @ [deployment_item E opts (rb_sa rb), service_item E opts]"
  by (intro conjI Lookup_as_items Deploy_as_items) (simp add: bundle_items_def)

section \<open>Deleting\<close>

text \<open>No deletion at all; no deletion of a CustomResourceDefinition.\<close>

definition no_delete :: "event set" where
  "no_delete = {ev. case ev of EvDelete uo o1 \<Rightarrow> False | _ \<Rightarrow> True}"

definition no_crd_delete :: "event set" where
  "no_crd_delete = {ev. case ev of EvDelete uo o1 \<Rightarrow> ko_kind o1 \<noteq> crdKind | _ \<Rightarrow> True}"

lemma no_delete_sub: "no_delete \<subseteq> no_crd_delete"
  by (auto simp: no_delete_def no_crd_delete_def split: event.splits)

lemma plain_reads_no_delete: "plain_reads \<subseteq> no_delete"
  by (auto simp: no_delete_def plain_reads_def file_reads_def)

lemma apply_event_no_delete: "apply_event ao o1 ev \<Longrightarrow> ev \<in> no_delete"
  by (cases ev) (simp_all add: no_delete_def)

lemma uninstall_event_no_crd_delete:
  "uninstall_event uo o1 ev \<Longrightarrow> ko_kind o1 \<noteq> crdKind \<Longrightarrow> ev \<in> no_crd_delete"
  by (cases ev) (auto simp: no_crd_delete_def dest: same_object_fields)

text \<open>Deploying deletes nothing.\<close>

lemma Deploy_no_delete: "emits w_trace no_delete (Deploy E opts)"
proof -
  have mk: "emits w_trace no_delete (it_make it)" if "it \<in> set (bundle_items E opts rb)" for it rb
    using emits_mono [OF emits_make [OF that]] plain_reads_no_delete by (simp add: plain_reads_def)
  have rbac: "emits w_trace no_delete (createRBACResources E g nn folder)" for g nn folder
    by (rule emits_createRBACResources) (use plain_reads_no_delete in \<open>auto simp: plain_reads_def\<close>)
  have its: "emits w_trace no_delete (apply_items E ao its h)"
    if "set its \<subseteq> set (bundle_items E opts rb)" for its h ao rb
    by (rule emits_apply_items) (use mk that apply_event_no_delete in auto)
  have it: "emits w_trace no_delete (apply_item E ao (deployment_item E opts (rb_sa rb)) h)"
    for h ao and rb :: rbac
    by (rule emits_apply_item) (auto intro: mk [of _ rb] apply_event_no_delete simp: bundle_items_def)
  have restart: "emits w_trace no_delete (deploy_restart E dep)" for dep
    unfolding deploy_restart_def
    by (intro emits_intros emits_RestartDeployment) (simp_all add: no_delete_def)
  show ?thesis
    unfolding Deploy_as_items
    by (intro emits_thenP emits_whenP rbac it its emits_returnP restart) (auto simp: bundle_items_def)
qed

text \<open>What the makers of the bundle's objects give, and removing one.\<close>

lemma yields_makers:
  "yields (\<lambda>o1. ko_kind o1 \<noteq> crdKind) (jsonSchemaConfigmap E g nn path sch)"
  "yields (\<lambda>o1. ko_kind o1 \<noteq> crdKind) (controllerConfigmap E g nn path sa)"
  "yields (\<lambda>o1. ko_kind o1 \<noteq> crdKind) (controllerDeployment E g nn path sa)"
  "yields (\<lambda>o1. ko_kind o1 \<noteq> crdKind) (controllerService E g nn path)"
  "yields (\<lambda>o1. ko_kind o1 \<noteq> crdKind) (secret_role E g cred nn path)"
  "yields (\<lambda>o1. ko_kind o1 \<noteq> crdKind) (secret_rolebinding E g cred nn path extra)"
  unfolding jsonSchemaConfigmap_def controllerConfigmap_def controllerDeployment_def
    controllerService_def secret_role_def secret_rolebinding_def
  by (rule yields_onErr yields_mono [OF yields_CreateK8sObject] | simp add: crdKind_def)+

definition rbac_not_crd :: "rbac \<Rightarrow> bool" where
  "rbac_not_crd rb \<longleftrightarrow> ko_kind (rb_sa rb) \<noteq> crdKind \<and> ko_kind (rb_clusterrole rb) \<noteq> crdKind \<and>
     ko_kind (rb_clusterrolebinding rb) \<noteq> crdKind \<and> ko_kind (rb_role rb) \<noteq> crdKind \<and>
     ko_kind (rb_rolebinding rb) \<noteq> crdKind"

lemma yields_createRBAC: "yields rbac_not_crd (createRBACResources E g nn folder)"
  unfolding yields_def createRBACResources_def rbac_not_crd_def
  by (auto simp: ok_iffs crdKind_def dest!: yieldsD [OF yields_CreateK8sObject])

lemma emits_Uninstall_not_crd:
  "ko_kind o1 \<noteq> crdKind \<Longrightarrow> emits w_trace no_crd_delete (Uninstall E o1 uo)"
  by (rule emits_Uninstall) (rule uninstall_event_no_crd_delete)

text \<open>Without the CRD, \<open>Undeploy\<close> never deletes a CustomResourceDefinition.\<close>

lemma Undeploy_skip_keeps_crds:
  assumes "ud_skipCRD opts"
  shows "emits w_trace no_crd_delete (Undeploy E opts)"
proof -
  have reads: "file_reads \<subseteq> no_crd_delete"
    using plain_reads_no_delete no_delete_sub by (auto simp: plain_reads_def)
  have st: "EvReadFile p \<in> no_crd_delete" "EvStat p \<in> no_crd_delete" for p
    by (simp_all add: no_crd_delete_def)
  have mk: "emits w_trace no_crd_delete (jsonSchemaConfigmap E g nn p sch)"
    "emits w_trace no_crd_delete (controllerConfigmap E g nn p sa)"
    "emits w_trace no_crd_delete (controllerDeployment E g nn p sa)"
    "emits w_trace no_crd_delete (controllerService E g nn p)"
    "emits w_trace no_crd_delete (secret_role E g cred nn p)"
    "emits w_trace no_crd_delete (secret_rolebinding E g cred nn p extra)" for g nn p sch sa cred extra
    unfolding jsonSchemaConfigmap_def controllerConfigmap_def controllerDeployment_def
      controllerService_def secret_role_def secret_rolebinding_def
    by (intro emits_intros st)+
  have rbac: "emits w_trace no_crd_delete (uninstallRBACResources E rb)" if "rbac_not_crd rb" for rb
    using that unfolding uninstallRBACResources_def rbac_not_crd_def
    by (intro emits_thenP emits_Uninstall_not_crd) auto
  have svc: "emits w_trace no_crd_delete (undeploy_service E opts)"
    unfolding undeploy_service_def Let_def
    by (intro emits_thenP emits_case_sum emits_tryP emits_returnP emits_calls st
        emits_thenP_yields [OF mk(4) yields_makers(4)] emits_Uninstall_not_crd)
  have sec: "emits w_trace no_crd_delete (undeploy_secret E opts)"
    unfolding undeploy_secret_def Let_def
    by (intro emits_thenP [OF emits_spec_credentials] emits_case_option emits_returnP
        emits_thenP_yields [OF mk(5) yields_makers(5)] emits_thenP [OF emits_Uninstall_not_crd]
        emits_thenP_yields [OF mk(6) yields_makers(6)] emits_Uninstall_not_crd)
  show ?thesis
    unfolding Undeploy_def Let_def
    by (rule emits_thenP_yields [OF emits_createRBACResources [OF reads] yields_createRBAC],
        rule emits_thenP_yields [OF mk(1) yields_makers(1)], rule emits_thenP [OF emits_Uninstall_not_crd], assumption,
        rule emits_thenP_yields [OF mk(3) yields_makers(3)], rule emits_thenP [OF emits_Uninstall_not_crd], assumption,
        rule emits_thenP_yields [OF mk(2) yields_makers(2)], rule emits_thenP [OF emits_Uninstall_not_crd], assumption,
        intro emits_thenP rbac svc sec emits_whenP) (use assms in simp_all)
qed

text \<open>With a nil chart, \<open>Undeploy\<close> cannot end well: it errs before or panics after removing the rest.\<close>

lemma Undeploy_nil_spec:
  assumes "ud_spec opts = None"
  shows "fst (Undeploy E opts w) \<noteq> Ok ()"
proof
  assume "fst (Undeploy E opts w) = Ok ()"
  then obtain w' where "Undeploy E opts w = (Ok (), w')" by (metis prod.collapse)
  then show False
    using assms by (auto simp: Undeploy_def undeploy_secret_def spec_credentials_def Let_def ok_iffs)
qed

end
