(* ===== verification/Convergence.thy ===== *)
theory Convergence
  imports Bundle
begin

text \<open>
  The digest that \<open>Deploy\<close> returns is the digest \<open>Lookup\<close> computes afterwards, against an API
  server that stores what it answers. What is assumed of the server, the files and the encoder
  are the three predicates of the first section; \<open>view\<close> reads the stored objects out of the
  environment's state.
\<close>

section \<open>What is assumed of the environment\<close>

definition key_of :: "kobj \<Rightarrow> string \<times> string \<times> string" where
  "key_of o1 = (ko_kind o1, ko_namespace o1, ko_name o1)"

type_synonym 's view = "'s \<Rightarrow> string \<times> string \<times> string \<Rightarrow> kobj option"

text \<open>The effect of a successful or failed real (not dry-run) create or update.\<close>

definition stores_answer ::
  "'s view \<Rightarrow> kobj \<Rightarrow> 's \<Rightarrow> (err + kobj) \<times> 's \<Rightarrow> bool" where
  "stores_answer view o1 s r =
     (case fst r of
        Inl e \<Rightarrow> view (snd r) = view s
      | Inr o2 \<Rightarrow> key_of o2 = key_of o1 \<and> view (snd r) = (view s)(key_of o1 \<mapsto> o2))"

definition storing_server :: "'s env \<Rightarrow> 's view \<Rightarrow> bool" where
  "storing_server E view \<longleftrightarrow>
     (\<forall>k a ns n s. \<exists>e. IsNotFound E e \<and> env_get E k a ns n s =
        (case view s (k, ns, n) of Some o1 \<Rightarrow> Inr o1 | None \<Rightarrow> Inl e, s)) \<and>
     (\<forall>ao o1 s. ao_dryRun ao = [] \<longrightarrow>
        stores_answer view o1 s (env_create E ao o1 s) \<and> stores_answer view o1 s (env_update E ao o1 s)) \<and>
     (\<forall>b o1 s. stores_answer view o1 s (env_patch E b o1 s) \<and>
        (\<forall>o2. fst (env_patch E b o1 s) = Inr o2 \<longrightarrow> obj_depSpec o2 = obj_depSpec o1)) \<and>
     (\<forall>d s. view (snd (env_wait E d s)) = view s) \<and>
     (\<forall>g ns n s. view (snd (env_watch E g ns n s)) = view s)"

definition static_files :: "'s env \<Rightarrow> bool" where
  "static_files E \<longleftrightarrow>
     (\<forall>p s s'. fst (env_read_file E p s) = fst (env_read_file E p s') \<and> snd (env_read_file E p s) = s) \<and>
     (\<forall>p s s'. fst (env_stat E p s) = fst (env_stat E p s') \<and> snd (env_stat E p s) = s)"

text \<open>\<open>omitempty\<close>: a nil and an empty annotation map encode alike.\<close>

definition omits_empty :: "'s env \<Rightarrow> bool" where
  "omits_empty E \<longleftrightarrow> (\<forall>s. env_marshal E (JDeploymentSpec (s\<lparr>ds_annotations := None\<rparr>)) =
     env_marshal E (JDeploymentSpec (s\<lparr>ds_annotations := Some fmempty\<rparr>)))"

section \<open>Programs that only read files\<close>

definition pure_reader :: "('s world, 'a) prog \<Rightarrow> bool" where
  "pure_reader m \<longleftrightarrow> (\<forall>w w'. fst (m w) = fst (m w') \<and> w_ext (snd (m w)) = w_ext w)"

lemma pure_readerD:
  "pure_reader m \<Longrightarrow> fst (m w) = fst (m w')" "pure_reader m \<Longrightarrow> w_ext (snd (m w)) = w_ext w"
  by (auto simp: pure_reader_def)

lemma pure_reader_basic:
  "pure_reader (returnP x)" "pure_reader (failP e)" "pure_reader (panicP s)" "pure_reader (liftSum r)"
  by (simp_all add: pure_reader_def liftSum_def split: sum.split)

lemma pure_reader_thenP:
  assumes "pure_reader m" and "\<And>x. pure_reader (k x)"
  shows "pure_reader (thenP m k)"
  unfolding pure_reader_def
proof (intro allI conjI)
  fix w w'
  obtain r w1 where m: "m w = (r, w1)" by fastforce
  obtain r' w2 where m': "m w' = (r', w2)" by fastforce
  have "r' = r" using pure_readerD(1) [OF assms(1), of w w'] m m' by simp
  then show "fst (thenP m k w) = fst (thenP m k w')"
    using m m' pure_readerD(1) [OF assms(2)] by (cases r) (simp_all add: thenP_def)
  show "w_ext (snd (thenP m k w)) = w_ext w"
    using m pure_readerD(2) [OF assms(2)] pure_readerD(2) [OF assms(1), of w]
    by (cases r) (simp_all add: thenP_def)
qed

lemma fst_tryP: "fst (tryP m w) = (case fst (m w) of Ok x \<Rightarrow> Ok (Inr x) | Err e \<Rightarrow> Ok (Inl e) | Panic s \<Rightarrow> Panic s)"
  by (simp add: tryP_def split: prod.split outcome.split)

lemma fst_onErr: "fst (onErr f m w) = (case fst (m w) of Ok x \<Rightarrow> Ok x | Err e \<Rightarrow> Err (f e) | Panic s \<Rightarrow> Panic s)"
  by (simp add: onErr_def split: prod.split outcome.split)

lemma pure_reader_tryP: "pure_reader m \<Longrightarrow> pure_reader (tryP m)"
  unfolding pure_reader_def fst_tryP snd_tryP by (metis (full_types))

lemma pure_reader_onErr: "pure_reader m \<Longrightarrow> pure_reader (onErr f m)"
  unfolding pure_reader_def fst_onErr snd_onErr by (metis (full_types))

lemma pure_reader_case_sum:
  "(\<And>e. pure_reader (f e)) \<Longrightarrow> (\<And>x. pure_reader (g x)) \<Longrightarrow>
   pure_reader (case r of Inl e \<Rightarrow> f e | Inr x \<Rightarrow> g x)"
  by (cases r) simp_all

lemma pure_reader_case_option:
  "pure_reader n \<Longrightarrow> (\<And>x. pure_reader (g x)) \<Longrightarrow>
   pure_reader (case r of None \<Rightarrow> n | Some x \<Rightarrow> g x)"
  by (cases r) simp_all

lemma pure_reader_files:
  assumes "static_files E"
  shows "pure_reader (read_file E p)" "pure_reader (stat_file E p)"
proof -
  have "fst (env_read_file E p s) = fst (env_read_file E p s')" for s s'
    using assms unfolding static_files_def by blast
  then have "outcome_of (fst (env_read_file E p s)) = outcome_of (fst (env_read_file E p s'))" for s s'
    by metis
  then show "pure_reader (read_file E p)"
    using assms by (simp add: pure_reader_def read_file_def call_apply static_files_def)
  have "fst (env_stat E p s) = fst (env_stat E p s')" for s s'
    using assms unfolding static_files_def by blast
  then have "outcome_of (fst (env_stat E p s)) = outcome_of (fst (env_stat E p s'))" for s s'
    by metis
  then show "pure_reader (stat_file E p)"
    using assms by (simp add: pure_reader_def stat_file_def call_apply static_files_def)
qed

lemmas pure_reader_intros = pure_reader_basic pure_reader_thenP pure_reader_tryP pure_reader_onErr
  pure_reader_case_sum pure_reader_case_option

lemma pure_reader_CreateK8sObject:
  "static_files E \<Longrightarrow> pure_reader (CreateK8sObject E otype g nn path extra)"
  unfolding CreateK8sObject_def by (intro pure_reader_intros pure_reader_files)

lemma pure_reader_createRBAC:
  "static_files E \<Longrightarrow> pure_reader (createRBACResources E g nn folder)"
  unfolding createRBACResources_def by (intro pure_reader_intros pure_reader_CreateK8sObject)

lemma pure_reader_spec_credentials: "pure_reader (spec_credentials spec)"
  unfolding spec_credentials_def by (intro pure_reader_intros)

lemma pure_reader_make:
  "static_files E \<Longrightarrow> it \<in> set (bundle_items E opts rb) \<Longrightarrow> pure_reader (it_make it)"
  unfolding bundle_items_def item_defs Let_def when_credentials_def secret_role_def
    secret_rolebinding_def jsonSchemaConfigmap_def controllerConfigmap_def
    controllerDeployment_def controllerService_def
  by (auto intro!: pure_reader_intros pure_reader_spec_credentials pure_reader_CreateK8sObject
      pure_reader_files simp del: returnP_apply)

section \<open>Applying and reading one object\<close>

lemma key_of_set_rv [simp]: "key_of (o1\<lparr>ko_resourceVersion := v\<rparr>) = key_of o1"
  by (simp add: key_of_def)

lemma key_of_Clean [simp]: "key_of (CleanFromRestartAnnotation o1) = key_of o1"
  by (simp add: key_of_def CleanFromRestartAnnotation_def)

lemma server_get:
  assumes "storing_server E view"
  shows "\<exists>e. IsNotFound E e \<and> k_get E o1 w =
     (outcome_of (case view (w_ext w) (key_of o1) of Some o2 \<Rightarrow> Inr o2 | None \<Rightarrow> Inl e),
      w\<lparr>w_trace := w_trace w @ [EvGet (ko_kind o1) (ko_apiVersion o1) (ko_namespace o1) (ko_name o1)]\<rparr>)"
proof -
  from assms obtain e where e: "IsNotFound E e"
    "env_get E (ko_kind o1) (ko_apiVersion o1) (ko_namespace o1) (ko_name o1) (w_ext w) =
      (case view (w_ext w) (ko_kind o1, ko_namespace o1, ko_name o1) of Some o2 \<Rightarrow> Inr o2 | None \<Rightarrow> Inl e, w_ext w)"
    unfolding storing_server_def by blast
  then show ?thesis
    by (intro exI [of _ e]) (simp add: k_get_def call_apply key_of_def)
qed

lemma server_write:
  assumes "storing_server E view" "ao_dryRun ao = []"
  shows "stores_answer view o1 s (env_create E ao o1 s)" "stores_answer view o1 s (env_update E ao o1 s)"
  using assms unfolding storing_server_def by blast+

text \<open>One attempt: an error leaves the stored objects alone, a result is what is now stored.\<close>

lemma apply_attempt_stores:
  assumes srv: "storing_server E view" and ao: "ao_dryRun ao = []"
    and run: "apply_attempt E ao (o1, w) = (r, (o2, w'))"
  shows "case r of
      Ok _ \<Rightarrow> key_of o2 = key_of o1 \<and> view (w_ext w') = (view (w_ext w))(key_of o1 \<mapsto> o2)
    | Err _ \<Rightarrow> key_of o2 = key_of o1 \<and> view (w_ext w') = view (w_ext w)
    | Panic _ \<Rightarrow> True"
proof -
  obtain e where e: "IsNotFound E e" and g: "k_get E o1 w =
     (outcome_of (case view (w_ext w) (key_of o1) of Some o2 \<Rightarrow> Inr o2 | None \<Rightarrow> Inl e),
      w\<lparr>w_trace := w_trace w @ [EvGet (ko_kind o1) (ko_apiVersion o1) (ko_namespace o1) (ko_name o1)]\<rparr>)"
    using server_get [OF srv] by blast
  show ?thesis
  proof (cases "view (w_ext w) (key_of o1)")
    case None
    with e g run server_write(1) [OF srv ao, of o1 "w_ext w"] show ?thesis
      by (cases "fst (env_create E ao o1 (w_ext w))")
        (auto simp: apply_attempt_def prog_defs k_create_def call_apply stores_answer_def)
  next
    case (Some tmp)
    let ?o = "o1\<lparr>ko_resourceVersion := ko_resourceVersion tmp\<rparr>"
    from Some g run server_write(2) [OF srv ao, of ?o "w_ext w"] show ?thesis
      by (cases "fst (env_update E ao ?o (w_ext w))")
        (auto simp: apply_attempt_def prog_defs k_update_def call_apply stores_answer_def Let_def)
  qed
qed

lemma Apply_stores:
  assumes srv: "storing_server E view" and ao: "ao_dryRun ao = []"
    and run: "Apply E o1 ao w = (Ok o2, w')"
  shows "key_of o2 = key_of o1 \<and> view (w_ext w') = (view (w_ext w))(key_of o1 \<mapsto> o2)"
proof -
  let ?I = "\<lambda>s. key_of (fst s) = key_of o1 \<and> view (w_ext (snd s)) = view (w_ext w)"
  have r: "Do (\<lambda>d. besideP (Wait E d)) client_retry (apply_attempt E ao) (o1, w) = (Ok (), (o2, w'))"
    using run by (auto simp: Apply_def split: prod.splits outcome.splits)
  have "\<exists>v. ?I v \<and> apply_attempt E ao v = (Ok (), (o2, w'))"
  proof (rule Do_Ok_inv [OF r])
    show "?I (o1, w)" by simp
    fix v e and v' :: "kobj \<times> 'a world"
    assume "?I v" "apply_attempt E ao v = (Err e, v')"
    then show "?I v'"
      using apply_attempt_stores [OF srv ao, of "fst v" "snd v" "Err e" "fst v'" "snd v'"] by auto
  next
    fix d and v :: "kobj \<times> 'a world"
    assume "?I v"
    then show "?I (snd (besideP (Wait E d) v))"
      using srv by (cases v) (auto simp: besideP_def Wait_def call_apply storing_server_def)
  qed simp_all
  then obtain v where "?I v" "apply_attempt E ao v = (Ok (), (o2, w'))" by blast
  then show ?thesis
    using apply_attempt_stores [OF srv ao, of "fst v" "snd v" "Ok ()" o2 w'] by auto
qed

definition reads_view :: "'s view \<Rightarrow> (kobj \<Rightarrow> ('s world, kobj) prog) \<Rightarrow> bool" where
  "reads_view view get \<longleftrightarrow> (\<forall>o1 o2 w. view (w_ext w) (key_of o1) = Some o2 \<longrightarrow>
     fst (get o1 w) = Ok o2 \<and> w_ext (snd (get o1 w)) = w_ext w)"

lemma reads_view_gets:
  assumes "storing_server E view"
  shows "reads_view view (Get E)" "reads_view view (get_or_zero E what)"
proof -
  show "reads_view view (Get E)"
    unfolding reads_view_def
  proof (intro allI impI)
    fix o1 o2 and w :: "'a world"
    assume "view (w_ext w) (key_of o1) = Some o2"
    then show "fst (Get E o1 w) = Ok o2 \<and> w_ext (snd (Get E o1 w)) = w_ext w"
      using server_get [OF assms, of o1 w] by (auto simp: Get_def)
  qed
  then show "reads_view view (get_or_zero E what)"
    unfolding reads_view_def get_or_zero_def thenP_def tryP_def
    by (auto split: prod.split outcome.split) (metis fst_conv outcome.simps snd_conv)+
qed

section \<open>Applying and reading a list of items\<close>

definition good_item :: "'s view \<Rightarrow> 's item \<Rightarrow> bool" where
  "good_item view it \<longleftrightarrow> pure_reader (it_make it) \<and> reads_view view (it_get it) \<and>
     (\<forall>o1. key_of (it_clean it o1) = key_of o1)"

lemma good_bundle_item:
  assumes "storing_server E view" "static_files E" "it \<in> set (bundle_items E opts rb)"
  shows "good_item view it"
proof -
  have "reads_view view (it_get it) \<and> (\<forall>o1. key_of (it_clean it o1) = key_of o1)"
    using assms(3) reads_view_gets [OF assms(1)]
    unfolding bundle_items_def item_defs Let_def by auto
  with pure_reader_make [OF assms(2,3)] show ?thesis by (simp add: good_item_def)
qed

text \<open>The object an item is about; with static files it does not depend on the world.\<close>

definition made :: "'s item \<Rightarrow> 's world \<Rightarrow> kobj option" where
  "made it w = (case fst (it_make it w) of Ok m \<Rightarrow> m | _ \<Rightarrow> None)"

definition made_keys :: "'s item list \<Rightarrow> 's world \<Rightarrow> (string \<times> string \<times> string) list" where
  "made_keys its w = concat (map (\<lambda>it. case made it w of None \<Rightarrow> [] | Some o1 \<Rightarrow> [key_of o1]) its)"

lemma made_indep: "good_item view it \<Longrightarrow> made it w = made it w'"
  using pure_readerD(1) [of "it_make it" w w'] by (simp add: made_def good_item_def)

lemma made_keys_indep: "(\<And>it. it \<in> set its \<Longrightarrow> good_item view it) \<Longrightarrow> made_keys its w = made_keys its w'"
proof (induction its)
  case (Cons it its)
  from Cons.prems made_indep [of view it w w'] have "made it w = made it w'" by simp
  with Cons show ?case by (simp add: made_keys_def)
qed (simp add: made_keys_def)

text \<open>What a successful application leaves behind.\<close>

definition item_effect ::
  "'s env \<Rightarrow> 's view \<Rightarrow> 's item \<Rightarrow> 's world \<Rightarrow> object_hash \<Rightarrow> object_hash \<Rightarrow> kobj option \<Rightarrow> 's world \<Rightarrow> bool"
where
  "item_effect E view it w h h2 m w' \<longleftrightarrow>
     (case made it w of
        None \<Rightarrow> fst (it_make it w) = Ok None \<and> h2 = h \<and> m = None \<and> view (w_ext w') = view (w_ext w)
      | Some o1 \<Rightarrow> (\<exists>o2. m = Some (it_clean it o2) \<and> key_of o2 = key_of o1 \<and>
          view (w_ext w') = (view (w_ext w))(key_of o1 \<mapsto> o2) \<and>
          SumHash E h (it_fields it (it_clean it o2)) = Inr h2))"

lemma apply_item_effect:
  assumes srv: "storing_server E view" and ao: "ao_dryRun ao = []" and good: "good_item view it"
    and run: "apply_item E ao it h w = (Ok (h2, m), w')"
  shows "item_effect E view it w h h2 m w'"
proof -
  obtain x w1 where mk: "it_make it w = (Ok x, w1)"
    and rest: "(case x of None \<Rightarrow> returnP (h, None) | Some o1 \<Rightarrow>
         thenP (onErr (it_apply_err it) (Apply E o1 ao)) (\<lambda>o2.
         thenP (hashing E (it_what it) h (it_fields it (it_clean it o2))) (\<lambda>h2.
         returnP (h2, Some (it_clean it o2))))) w1 = (Ok (h2, m), w')"
    using run by (auto simp: apply_item_def thenP_Ok_iff)
  have w1: "w_ext w1 = w_ext w"
    using good pure_readerD(2) [of "it_make it" w] mk by (simp add: good_item_def)
  show ?thesis
  proof (cases x)
    case None
    with rest mk w1 show ?thesis by (simp add: item_effect_def made_def)
  next
    case (Some o1)
    with rest obtain o2 w2 where o2: "Apply E o1 ao w1 = (Ok o2, w2)"
      and h: "SumHash E h (it_fields it (it_clean it o2)) = Inr h2"
      and m: "m = Some (it_clean it o2)" and w2: "w' = w2"
      by (auto simp: ok_iffs hashing_def)
    from Apply_stores [OF srv ao o2] w1 w2 h m mk Some show ?thesis
      by (auto simp: item_effect_def made_def)
  qed
qed

lemma lookup_item_run:
  assumes good: "good_item view it"
  shows "fst (it_make it w) = Ok None \<Longrightarrow>
      fst (lookup_item E it h w) = Ok h \<and> w_ext (snd (lookup_item E it h w)) = w_ext w"
    and "made it w = Some o1 \<Longrightarrow> view (w_ext w) (key_of o1) = Some o2 \<Longrightarrow>
      SumHash E h (it_fields it (it_clean it o2)) = Inr h2 \<Longrightarrow>
      fst (lookup_item E it h w) = Ok h2 \<and> w_ext (snd (lookup_item E it h w)) = w_ext w"
proof -
  obtain r w1 where mk: "it_make it w = (r, w1)" by fastforce
  have w1: "w_ext w1 = w_ext w"
    using good pure_readerD(2) [of "it_make it" w] mk by (simp add: good_item_def)
  show "fst (lookup_item E it h w) = Ok h \<and> w_ext (snd (lookup_item E it h w)) = w_ext w"
    if "fst (it_make it w) = Ok None"
    using that mk w1 by (simp add: lookup_item_def thenP_def)
  show "fst (lookup_item E it h w) = Ok h2 \<and> w_ext (snd (lookup_item E it h w)) = w_ext w"
    if m: "made it w = Some o1" and v: "view (w_ext w) (key_of o1) = Some o2"
      and s: "SumHash E h (it_fields it (it_clean it o2)) = Inr h2"
  proof -
    have r: "r = Ok (Some o1)" using m mk by (simp add: made_def split: outcome.splits)
    obtain g w2 where g: "it_get it o1 w1 = (g, w2)" by fastforce
    have "g = Ok o2" "w_ext w2 = w_ext w1"
      using good v w1 g unfolding good_item_def reads_view_def by (metis fst_conv snd_conv)+
    with r mk g s w1 show ?thesis
      by (simp add: lookup_item_def thenP_def hashing_def onErr_def liftSum_def)
  qed
qed

text \<open>
  Two worlds hold the same object for an item as far as its digest goes.
\<close>

definition agrees :: "'s env \<Rightarrow> 's view \<Rightarrow> 's item \<Rightarrow> 's world \<Rightarrow> 's world \<Rightarrow> bool" where
  "agrees E view it w w' \<longleftrightarrow>
     (case made it w of None \<Rightarrow> True | Some o1 \<Rightarrow>
       (\<exists>a b. view (w_ext w) (key_of o1) = Some a \<and> view (w_ext w') (key_of o1) = Some b \<and>
          map (env_marshal E) (it_fields it (it_clean it b)) =
          map (env_marshal E) (it_fields it (it_clean it a))))"

lemma SumHash_cong:
  "map (env_marshal E) vs = map (env_marshal E) ws \<Longrightarrow> SumHash E h vs = SumHash E h ws"
proof (induction vs arbitrary: ws h)
  case (Cons v vs)
  then obtain w ws' where "ws = w # ws'" "env_marshal E v = env_marshal E w"
    "map (env_marshal E) vs = map (env_marshal E) ws'" by (cases ws) auto
  with Cons.IH show ?case by (simp split: sum.split)
qed simp

lemma lookup_item_agrees:
  assumes good: "good_item view it" and eff: "item_effect E view it w h h2 m w1"
    and same: "\<And>o1. made it w = Some o1 \<Longrightarrow> view (w_ext w') (key_of o1) = view (w_ext w1) (key_of o1)"
    and ag: "agrees E view it w' w''"
  shows "fst (lookup_item E it h w'') = Ok h2 \<and> w_ext (snd (lookup_item E it h w'')) = w_ext w''"
proof (cases "made it w")
  case None
  then have "fst (it_make it w) = Ok None" "h2 = h" using eff by (simp_all add: item_effect_def)
  then have "fst (it_make it w'') = Ok None"
    using good pure_readerD(1) [of "it_make it" w w''] by (simp add: good_item_def)
  from lookup_item_run(1) [OF good this] \<open>h2 = h\<close> show ?thesis by simp
next
  case (Some o1)
  then obtain o2 where o2: "view (w_ext w1) (key_of o1) = Some o2"
    "SumHash E h (it_fields it (it_clean it o2)) = Inr h2"
    using eff by (auto simp: item_effect_def)
  have made: "made it w' = Some o1" "made it w'' = Some o1"
    using Some made_indep [OF good] by metis+
  then obtain b where b: "view (w_ext w'') (key_of o1) = Some b"
    "map (env_marshal E) (it_fields it (it_clean it b)) = map (env_marshal E) (it_fields it (it_clean it o2))"
    using ag same [OF Some] o2(1) by (auto simp: agrees_def)
  from lookup_item_run(2) [OF good made(2) b(1)] SumHash_cong [OF b(2)] o2(2) show ?thesis by simp
qed

lemma apply_items_converge:
  assumes srv: "storing_server E view" and ao: "ao_dryRun ao = []"
  shows "apply_items E ao its h w = (Ok h', w') \<Longrightarrow> (\<And>it. it \<in> set its \<Longrightarrow> good_item view it) \<Longrightarrow>
    distinct (made_keys its w) \<Longrightarrow>
    (\<forall>k. k \<notin> set (made_keys its w) \<longrightarrow> view (w_ext w') k = view (w_ext w) k) \<and>
    (\<forall>k \<in> set (made_keys its w). view (w_ext w') k \<noteq> None) \<and>
    (\<forall>w''. (\<forall>it \<in> set its. agrees E view it w' w'') \<longrightarrow>
       fst (lookup_items E its h w'') = Ok h' \<and> w_ext (snd (lookup_items E its h w'')) = w_ext w'')"
proof (induction its arbitrary: h w)
  case Nil
  then show ?case by (simp add: made_keys_def)
next
  case (Cons it its)
  have good: "good_item view it" and goods: "\<And>i. i \<in> set its \<Longrightarrow> good_item view i"
    using Cons.prems(2) by auto
  obtain h2 m w1 where one: "apply_item E ao it h w = (Ok (h2, m), w1)"
    and rest: "apply_items E ao its h2 w1 = (Ok h', w')"
    using Cons.prems(1) by (auto simp: thenP_Ok_iff)
  note eff = apply_item_effect [OF srv ao good one]
  let ?ks = "case made it w of None \<Rightarrow> [] | Some o1 \<Rightarrow> [key_of o1]"
  have keys: "made_keys (it # its) w = ?ks @ made_keys its w" by (simp add: made_keys_def)
  have rk: "made_keys its w1 = made_keys its w" by (rule made_keys_indep [OF goods])
  have dist: "distinct (made_keys its w1)" and disj: "set ?ks \<inter> set (made_keys its w) = {}"
    using Cons.prems(3) unfolding keys rk by auto
  note IH = Cons.IH [OF rest goods dist, unfolded rk]
  have step: "view (w_ext w1) k = view (w_ext w) k" if "k \<notin> set ?ks" for k
    using eff that by (auto simp: item_effect_def split: option.splits)
  have here: "view (w_ext w1) k \<noteq> None" if "k \<in> set ?ks" for k
    using eff that by (auto simp: item_effect_def split: option.splits)
  have keep: "view (w_ext w') k = view (w_ext w1) k" if "k \<in> set ?ks" for k
    using IH disj that by blast
  have "fst (lookup_items E (it # its) h w'') = Ok h' \<and>
      w_ext (snd (lookup_items E (it # its) h w'')) = w_ext w''"
    if ag: "\<forall>i \<in> set (it # its). agrees E view i w' w''" for w''
  proof -
    obtain r w3 where r: "lookup_item E it h w'' = (r, w3)" by fastforce
    have "r = Ok h2" "w_ext w3 = w_ext w''"
      using lookup_item_agrees [OF good eff keep, of w''] ag r by simp_all
    moreover have "\<forall>i \<in> set its. agrees E view i w' w3"
      using ag unfolding agrees_def \<open>w_ext w3 = w_ext w''\<close> by simp
    ultimately show ?thesis using IH r by (simp add: thenP_def)
  qed
  moreover have "view (w_ext w') k = view (w_ext w) k" if "k \<notin> set (made_keys (it # its) w)" for k
    using that IH step [of k] unfolding keys set_append Un_iff by metis
  moreover have "view (w_ext w') k \<noteq> None" if "k \<in> set (made_keys (it # its) w)" for k
    using that IH here [of k] keep [of k] unfolding keys set_append Un_iff by metis
  ultimately show ?case by blast
qed

section \<open>Restarting keeps the digest\<close>

lemma obj_depSpec_Clean: "obj_depSpec (CleanFromRestartAnnotation d) = clean_restart_annotation (obj_depSpec d)"
  unfolding CleanFromRestartAnnotation_def obj_depSpec_with
  by (cases "ko_body d") (simp_all add: obj_depSpec_def zero_deployment_spec_def
      clean_restart_annotation_def)

lemma clean_zero: "clean_restart_annotation zero_deployment_spec = zero_deployment_spec"
  by (simp add: zero_deployment_spec_def clean_restart_annotation_def)

lemma obj_depSpec_with_cases:
  "obj_depSpec (with_dep_spec f d) = f (obj_depSpec d) \<or>
   obj_depSpec (with_dep_spec f d) = zero_deployment_spec \<and> obj_depSpec d = zero_deployment_spec"
  unfolding obj_depSpec_with by (cases "ko_body d") (simp_all add: obj_depSpec_def)

lemma clean_set_marshal:
  assumes "omits_empty E"
  shows "env_marshal E (JDeploymentSpec (clean_restart_annotation (set_restart_annotation now
      (clean_restart_annotation s)))) = env_marshal E (JDeploymentSpec (clean_restart_annotation s))"
proof (cases "ds_annotations s")
  case None
  then have c: "clean_restart_annotation s = s" by (simp add: clean_restart_annotation_def)
  have s: "s\<lparr>ds_annotations := None\<rparr> = s" using None by simp
  have "env_marshal E (JDeploymentSpec (s\<lparr>ds_annotations := None\<rparr>)) =
      env_marshal E (JDeploymentSpec (s\<lparr>ds_annotations := Some fmempty\<rparr>))"
    using assms unfolding omits_empty_def by blast
  then show ?thesis
    using None unfolding c clean_after_set annotations_or_empty_def s
    by (simp add: fmdrop_idle')
next
  case (Some m)
  then have "clean_restart_annotation (set_restart_annotation now (clean_restart_annotation s)) =
      clean_restart_annotation s"
    by (simp add: clean_after_set annotations_or_empty_def)
      (simp add: clean_restart_annotation_def fmdrop_idle')
  then show ?thesis by simp
qed

text \<open>
  The wait, the patch and the second wait store, under the Deployment's key, an object whose digest
  fields encode like those of the cleaned one, and nothing else.
\<close>

lemma deploy_restart_stores:
  assumes srv: "storing_server E view" and om: "omits_empty E"
    and run: "deploy_restart E (CleanFromRestartAnnotation d) w = (Ok (), w')"
  shows "\<exists>b. view (w_ext w') = (view (w_ext w))(key_of d \<mapsto> b) \<and>
    map (env_marshal E) (depspec_fields (CleanFromRestartAnnotation b)) =
    map (env_marshal E) (depspec_fields (CleanFromRestartAnnotation d))"
proof -
  have watch: "view (w_ext v') = view (w_ext v)"
    if "wrapping p (WatchResource E g c ns n) v = (r, v')" for p g c ns n r v v'
    using srv that by (auto simp: WatchResource_def k_watch_def call_apply onErr_def thenP_def
        storing_server_def split: sum.splits prod.splits outcome.splits)
  let ?d = "CleanFromRestartAnnotation d"
  obtain w1 b w2 where w1: "view (w_ext w1) = view (w_ext w)"
    and b: "RestartDeployment E ?d w1 = (Ok b, w2)" and w2: "view (w_ext w') = view (w_ext w2)"
    using run unfolding deploy_restart_def thenP_Ok_iff by (auto dest!: watch)
  let ?o = "with_dep_spec (set_restart_annotation (env_now E (w_ext w1))) ?d"
  have p: "fst (env_patch E ?d ?o (w_ext w1)) = Inr b" "w_ext w2 = snd (env_patch E ?d ?o (w_ext w1))"
    using b by (auto simp: RestartDeployment_def now_rfc3339_def thenP_def k_patch_def call_apply)
  have "stores_answer view ?o (w_ext w1) (env_patch E ?d ?o (w_ext w1))" "obj_depSpec b = obj_depSpec ?o"
    using srv p(1) unfolding storing_server_def by blast+
  moreover have "key_of ?o = key_of d" by (simp add: key_of_def CleanFromRestartAnnotation_def)
  ultimately have k: "key_of b = key_of d" "view (w_ext w2) = (view (w_ext w1))(key_of d \<mapsto> b)"
    using p by (simp_all add: stores_answer_def)
  have "env_marshal E (JDeploymentSpec (clean_restart_annotation (obj_depSpec b))) =
      env_marshal E (JDeploymentSpec (obj_depSpec ?d))"
    using obj_depSpec_with_cases [of "set_restart_annotation (env_now E (w_ext w1))" ?d]
      \<open>obj_depSpec b = _\<close> clean_set_marshal [OF om, of "env_now E (w_ext w1)" "obj_depSpec d"]
    by (auto simp: obj_depSpec_Clean clean_zero)
  moreover have "ko_name b = ko_name d" "ko_namespace b = ko_namespace d"
    using k(1) by (simp_all add: key_of_def)
  ultimately have "map (env_marshal E) (depspec_fields (CleanFromRestartAnnotation b)) =
      map (env_marshal E) (depspec_fields ?d)"
    by (simp add: depspec_fields_def obj_depSpec_Clean) (simp add: CleanFromRestartAnnotation_def)
  with k(2) w1 w2 show ?thesis by auto
qed

section \<open>Deploy, then Lookup\<close>

lemma bundle_items_dryRun [simp]:
  "bundle_items E (opts\<lparr>do_dryRunServer := b\<rparr>) rb = bundle_items E opts rb"
  by (simp add: bundle_items_def item_defs when_credentials_def)

text \<open>No two objects of the bundle have the same kind, namespace and name.\<close>

definition bundle_rbac :: "'s env \<Rightarrow> deploy_options \<Rightarrow> ('s world, rbac) prog" where
  "bundle_rbac E opts = createRBACResources E (do_gvr opts)
     (getCDCrbacNN (bundle_nn (do_namespace opts) (do_gvr opts))) (do_rbacFolderPath opts)"

definition distinct_bundle :: "'s env \<Rightarrow> deploy_options \<Rightarrow> 's world \<Rightarrow> bool" where
  "distinct_bundle E opts w = (case fst (bundle_rbac E opts w) of
     Ok rb \<Rightarrow> distinct (made_keys (bundle_items E opts rb) w) | _ \<Rightarrow> True)"

lemma made_deployment:
  assumes "fst (apply_item E ao (deployment_item E opts sa) h w) = Ok (h2, m)"
  shows "made (deployment_item E opts sa) w \<noteq> None"
proof
  assume none: "made (deployment_item E opts sa) w = None"
  obtain x w1 where "it_make (deployment_item E opts sa) w = (Ok x, w1)"
    using assms by (auto simp: apply_item_def thenP_def split: prod.splits outcome.splits)
  moreover have "x \<noteq> None"
    using calculation by (auto simp: deployment_item_def item_def Let_def ok_iffs)
  ultimately show False using none by (simp add: made_def)
qed

lemma made_keys_member: "it \<in> set its \<Longrightarrow> made it w = Some o1 \<Longrightarrow> key_of o1 \<in> set (made_keys its w)"
  by (force simp: made_keys_def)

lemma made_keys_append: "made_keys (xs @ ys) w = made_keys xs w @ made_keys ys w"
  by (simp add: made_keys_def)

text \<open>
  A real \<open>Deploy\<close> applied the items one after the other; what the restart changed afterwards does not
  enter the digest.
\<close>

lemma Deploy_run:
  assumes srv: "storing_server E view" and fl: "static_files E" and om: "omits_empty E"
    and dry: "\<not> do_dryRunServer opts" and dist: "distinct_bundle E opts w"
    and run: "Deploy E opts w = (Ok digest, w')"
  shows "\<exists>rb w0 h6 w3. fst (bundle_rbac E opts w') = Ok rb \<and> digest = GetHash h6 \<and>
     apply_items E (deploy_applyOpts opts) (bundle_items E opts rb) NewFNVObjectHash w0 = (Ok h6, w3) \<and>
     distinct (made_keys (bundle_items E opts rb) w0) \<and>
     (\<forall>it \<in> set (bundle_items E opts rb). \<forall>w''. w_ext w'' = w_ext w' \<longrightarrow> agrees E view it w3 w'')"
proof -
  let ?ao = "deploy_applyOpts opts"
  have ao: "ao_dryRun ?ao = []" using dry by (simp add: deploy_applyOpts_def no_apply_options_def)
  obtain rb w0 h4 w1 h5 m w2 h6 w3 where rb: "bundle_rbac E opts w = (Ok rb, w0)"
    and pre: "apply_items E ?ao (secret_items E opts (rb_sa rb) @ rbac_items E rb @
       config_items E opts (rb_sa rb)) NewFNVObjectHash w0 = (Ok h4, w1)"
    and dep: "apply_item E ?ao (deployment_item E opts (rb_sa rb)) h4 w1 = (Ok (h5, m), w2)"
    and svc: "apply_items E ?ao [service_item E opts] h5 w2 = (Ok h6, w3)"
    and restart: "deploy_restart E (the m) w3 = (Ok (), w')" and digest: "digest = GetHash h6"
    using run dry unfolding Deploy_as_items whenP_def bundle_rbac_def [symmetric] thenP_Ok_iff
    by (auto simp: thenP_Ok_iff simp del: apply_items.simps)
  let ?its = "bundle_items E opts rb" and ?dep = "deployment_item E opts (rb_sa rb)"
  have all: "apply_items E ?ao ?its NewFNVObjectHash w0 = (Ok h6, w3)"
    using pre dep svc unfolding bundle_items_def
    by (simp add: append_assoc [symmetric] apply_items_append thenP_Ok_iff del: append_assoc) blast
  have good: "good_item view it" if "it \<in> set ?its" for it
    by (rule good_bundle_item [OF srv fl that])
  have keys: "made_keys ?its v = made_keys ?its v'" for v v'
    by (rule made_keys_indep [OF good])
  have dist0: "distinct (made_keys ?its w0)"
    using dist rb keys [of w w0] by (simp add: distinct_bundle_def)
  note conv = apply_items_converge [OF srv ao all good dist0]
  have gd: "good_item view ?dep" by (rule good) (simp add: bundle_items_def)
  from made_deployment [of E ?ao opts "rb_sa rb" h4 w1] dep obtain o1 where
    o1: "made ?dep w1 = Some o1" by auto
  with apply_item_effect [OF srv ao gd dep] obtain d where
    d: "m = Some (CleanFromRestartAnnotation d)" "key_of d = key_of o1"
      "view (w_ext w2) (key_of o1) = Some d"
    by (auto simp: item_effect_def deployment_item_def Let_def)
  have split: "made_keys ?its v = made_keys (secret_items E opts (rb_sa rb) @ rbac_items E rb @
       config_items E opts (rb_sa rb)) v @ [key_of o1] @ made_keys [service_item E opts] v" for v
    using o1 made_indep [OF gd, of v w1] by (simp add: bundle_items_def made_keys_def)
  have dist2: "distinct (made_keys ?its w2)"
    using dist rb keys [of w w2] by (simp add: distinct_bundle_def)
  then have o1_new: "key_of o1 \<notin> set (made_keys [service_item E opts] w2)"
    and "distinct (made_keys [service_item E opts] w2)" unfolding split by auto
  have "good_item view i" if "i \<in> set [service_item E opts]" for i
    using that good by (simp add: bundle_items_def)
  note keep = apply_items_converge [OF srv ao svc this \<open>distinct (made_keys [service_item E opts] w2)\<close>]
  have d3: "view (w_ext w3) (key_of d) = Some d"
    using conjunct1 [OF keep] o1_new d(2,3) by metis
  obtain b where b: "view (w_ext w') = (view (w_ext w3))(key_of d \<mapsto> b)"
    "map (env_marshal E) (depspec_fields (CleanFromRestartAnnotation b)) =
     map (env_marshal E) (depspec_fields (CleanFromRestartAnnotation d))"
    using deploy_restart_stores [OF srv om, of d w3 w'] restart d(1) by auto
  have agree: "agrees E view it w3 w''" if it: "it \<in> set ?its" and v: "w_ext w'' = w_ext w'" for it w''
  proof (cases "made it w3")
    case (Some o2)
    have k2: "key_of o2 \<in> set (made_keys ?its w0)"
      using it Some made_indep [OF good [OF it], of w0 w3] by (force simp: made_keys_def)
    then obtain a where a: "view (w_ext w3) (key_of o2) = Some a" using conv by blast
    show ?thesis
    proof (cases "key_of o2 = key_of d")
      case False
      with Some a b v show ?thesis by (simp add: agrees_def)
    next
      case True
      have "distinct (made_keys ?its w3)"
        using dist rb keys [of w w3] by (simp add: distinct_bundle_def)
      then have "it = ?dep"
        using it made_keys_member [of it _ w3, OF _ Some] True d(2) unfolding split
        by (auto simp: bundle_items_def)
      with Some True d3 b v show ?thesis by (simp add: agrees_def deployment_item_def Let_def item_def)
    qed
  qed (simp add: agrees_def)
  have "fst (bundle_rbac E opts w') = Ok rb"
    using pure_readerD(1) [OF pure_reader_createRBAC [OF fl], of "do_gvr opts"] rb
    unfolding bundle_rbac_def by (metis fst_conv)
  with all dist0 agree digest show ?thesis by blast
qed

lemma Deploy_leaves:
  assumes srv: "storing_server E view" and fl: "static_files E" and om: "omits_empty E"
    and dry: "\<not> do_dryRunServer opts" and dist: "distinct_bundle E opts w"
    and run: "Deploy E opts w = (Ok digest, w')"
  shows "\<exists>rb. fst (bundle_rbac E opts w') = Ok rb \<and> (\<forall>w''. w_ext w'' = w_ext w' \<longrightarrow>
     (\<exists>h. fst (lookup_items E (bundle_items E opts rb) NewFNVObjectHash w'') = Ok h \<and> digest = GetHash h))"
proof -
  obtain rb w0 h6 w3 where rb: "fst (bundle_rbac E opts w') = Ok rb" "digest = GetHash h6"
    and all: "apply_items E (deploy_applyOpts opts) (bundle_items E opts rb) NewFNVObjectHash w0 = (Ok h6, w3)"
    and dist0: "distinct (made_keys (bundle_items E opts rb) w0)"
    and agree: "\<forall>it \<in> set (bundle_items E opts rb). \<forall>w''. w_ext w'' = w_ext w' \<longrightarrow> agrees E view it w3 w''"
    using Deploy_run [OF assms] by blast
  have ao: "ao_dryRun (deploy_applyOpts opts) = []"
    using dry by (simp add: deploy_applyOpts_def no_apply_options_def)
  have good: "good_item view it" if "it \<in> set (bundle_items E opts rb)" for it
    by (rule good_bundle_item [OF srv fl that])
  from apply_items_converge [OF srv ao all good dist0] rb agree
  show ?thesis by blast
qed

text \<open>
  C5: After \<open>Deploy\<close> returned a digest, \<open>Lookup\<close> computes the same one, whichever the dry-run
  option, from the state it left: deploying, the restart included, does not look like drift. The
  server stores what it answers, the template files do not change, the encoder omits empty
  annotation maps, and the bundle's objects have different keys.
\<close>

theorem Deploy_then_Lookup:
  assumes "storing_server E view" and "static_files E" and "omits_empty E"
    and "\<not> do_dryRunServer opts" and "distinct_bundle E opts w"
    and "Deploy E opts w = (Ok digest, w')"
  shows "fst (Lookup E (opts\<lparr>do_dryRunServer := b\<rparr>) w') = Ok digest"
proof -
  obtain rb where rb: "fst (bundle_rbac E opts w') = Ok rb"
    and its: "\<And>w''. w_ext w'' = w_ext w' \<Longrightarrow>
      \<exists>h. fst (lookup_items E (bundle_items E opts rb) NewFNVObjectHash w'') = Ok h \<and> digest = GetHash h"
    using Deploy_leaves [OF assms] by blast
  obtain w1 where w1: "bundle_rbac E opts w' = (Ok rb, w1)" using rb by (metis prod.collapse)
  have "w_ext w1 = w_ext w'"
    using pure_readerD(2) [OF pure_reader_createRBAC [OF assms(2)]] w1
    unfolding bundle_rbac_def by (metis snd_conv)
  from its [OF this] w1 show ?thesis
    unfolding Lookup_as_items by (auto simp: bundle_rbac_def thenP_def split: prod.split outcome.split)
qed

section \<open>The sample environment meets the assumptions\<close>

definition sample_view :: "cluster view" where
  "sample_view c k = find_obj (fst k) (fst (snd k)) (snd (snd k)) c"

lemma sample_view_put: "sample_view (put_obj o1 c) = (sample_view c)(key_of o1 \<mapsto> o1)"
  by (rule ext) (auto simp: sample_view_def find_put key_of_def)

lemma sample_storing: "storing_server sample_env sample_view"
  unfolding storing_server_def
  by (intro conjI allI exI [of _ not_found])
    (simp_all add: sample_env_def stores_answer_def sample_put_def sample_view_put sample_view_def
      sample_errors_def not_found_def split: option.split)

lemma sample_static: "static_files sample_env"
  by (simp add: static_files_def sample_env_def)

lemma sample_omits: "omits_empty sample_env"
  by (simp add: omits_empty_def sample_env_def)

lemma additional_strings:
  "additional_values m [] = Inr m" "additional_values m [GStr k, v] = Inr (fmupd k v m)"
  "additional_values m [GStr k, v, GStr k2, v2] = Inr (fmupd k2 v2 (fmupd k v m))"
  by (simp_all add: additional_values_def)

lemma sample_Create:
  assumes "additional_values (Values \<lparr>ro_group = gvr_group g, ro_version = gvr_version g,
      ro_resource = gvr_resource g, ro_namespace = nn_namespace nn, ro_name = nn_name nn\<rparr>) extra = Inr v"
    and "otype \<noteq> crdKind"
  shows "CreateK8sObject sample_env otype g nn path extra w =
    (Ok (sample_obj otype (path @ sample_suffix v)), w\<lparr>w_trace := w_trace w @ [EvReadFile path]\<rparr>)"
  using assms
  by (simp add: CreateK8sObject_def prog_defs read_file_def call_apply sample_env_def sample_decode_def
      crdKind_def typed_def sample_obj_def)

lemma sample_names [simp]:
  "ko_kind (sample_obj k n) = k" "ko_name (sample_obj k n) = n" "ko_namespace (sample_obj k n) = ''ns''"
  by (simp_all add: sample_obj_def)

lemma sample_suffix_simps [simp]:
  "k \<noteq> ''apiVersion'' \<Longrightarrow> sample_suffix (fmupd k x m) = sample_suffix m" "sample_suffix (Values ro) = ro_version ro"
  by (simp_all add: sample_suffix_def Values_def Let_def)

lemmas sample_Create_run = sample_Create [OF additional_strings(1)] sample_Create [OF additional_strings(2)]
  sample_Create [OF additional_strings(3)]

lemma always_ok_sample_Create:
  "otype \<noteq> crdKind \<Longrightarrow> always_ok (CreateK8sObject sample_env otype g nn path [])"
  "otype \<noteq> crdKind \<Longrightarrow> always_ok (CreateK8sObject sample_env otype g nn path [GStr k, v])"
  "otype \<noteq> crdKind \<Longrightarrow> always_ok (CreateK8sObject sample_env otype g nn path [GStr k, v, GStr k2, v2])"
  by (simp_all add: always_ok_def sample_Create_run)

lemma sample_marshal_ok: "\<exists>b. sample_marshal v = Inr b"
  by (cases v) auto

lemma sample_hash_ok: "\<exists>h2. SumHash sample_env h vs = Inr h2"
proof (induction vs arbitrary: h)
  case (Cons v vs)
  from sample_marshal_ok [of v] obtain b where "env_marshal sample_env v = Inr b"
    by (auto simp: sample_env_def)
  with Cons show ?case by simp
qed simp

lemma always_ok_hashing: "always_ok (hashing sample_env what h vs)"
  unfolding hashing_def using sample_hash_ok by (metis always_ok_liftSum always_ok_onErr)

lemma always_ok_sample_watch: "always_ok (WatchResource sample_env deployment_gvr IsReady ns n)"
  by (simp add: always_ok_def WatchResource_def k_watch_def call_apply thenP_def onErr_def sample_env_def
      sample_ready_def deployment_gvr_def watch_body_def IsReady_def dep_parts_def deployment_parts_def
      sample_obj_def sample_spec_def sample_status_def)

lemmas always_ok_intros = always_ok_returnP always_ok_case_sum always_ok_thenP always_ok_onErr always_ok_whenP
  always_ok_sample_Create always_ok_Apply_sample always_ok_hashing always_ok_sample_watch

definition no_credentials :: "chart_info" where
  "no_credentials = \<lparr>ci_url = ''oci://charts/fireworks'', ci_version = ''1.0.0'', ci_repo = '''',
     ci_insecureSkipVerifyTLS = False, ci_credentials = None\<rparr>"

definition sample_options :: deploy_options where
  "sample_options = \<lparr>do_gvr = \<lparr>gvr_group = ''composition.krateo.io'', gvr_version = ''v1-0-0'',
     gvr_resource = ''fireworks''\<rparr>, do_namespace = ''ns'', do_spec = Some no_credentials,
     do_rbacFolderPath = ''rbac'', do_deploymentTemplatePath = ''deployment.yaml'',
     do_configmapTemplatePath = ''configmap.yaml'', do_jsonSchemaTemplatePath = ''schema.yaml'',
     do_serviceTemplatePath = ''service.yaml'', do_jsonSchemaBytes = ''{}'', do_dryRunServer = False\<rparr>"

lemma sample_options_simps [simp]:
  "do_dryRunServer sample_options = False" "do_spec sample_options = Some no_credentials"
  "ci_credentials no_credentials = None"
  by (simp_all add: sample_options_def no_credentials_def)

lemma always_ok_Deploy:
  "do_spec opts = Some no_credentials \<Longrightarrow> always_ok (Deploy sample_env opts)"
  unfolding Deploy_def Let_def createRBACResources_def deploy_secret_def installRBACResources_def
    option.case jsonSchemaConfigmap_def controllerConfigmap_def controllerDeployment_def
    deploy_service_def controllerService_def deploy_restart_def RestartDeployment_def sa_values_def
  by (simp add: spec_credentials_def del: returnP_apply)
    (intro always_ok_intros always_ok_sample always_ok_tryP; simp add: crdKind_def stat_file_def call_no_panic)

text \<open>Without credentials only the two ConfigMaps are of one kind.\<close>

lemma sample_distinct:
  "do_spec opts = Some no_credentials \<Longrightarrow> do_jsonSchemaTemplatePath opts \<noteq> do_configmapTemplatePath opts \<Longrightarrow>
   distinct_bundle sample_env opts w"
  by (simp add: distinct_bundle_def bundle_rbac_def createRBACResources_def thenP_def sample_Create_run
      crdKind_def sa_values_def made_keys_def made_def bundle_items_def item_defs Let_def
      when_credentials_def spec_credentials_def jsonSchemaConfigmap_def controllerConfigmap_def
      controllerDeployment_def onErr_def stat_file_def call_apply tryP_def)
    (simp add: sample_env_def key_of_def)

theorem Deploy_then_Lookup_witness:
  "\<exists>digest w'. Deploy sample_env sample_options (sample_world [] []) = (Ok digest, w') \<and>
     fst (Lookup sample_env (sample_options\<lparr>do_dryRunServer := True\<rparr>) w') = Ok digest"
proof -
  obtain digest w' where d: "Deploy sample_env sample_options (sample_world [] []) = (Ok digest, w')"
    using always_okD [OF always_ok_Deploy] by (metis sample_options_simps(2))
  have "distinct_bundle sample_env sample_options (sample_world [] [])"
    by (rule sample_distinct) (simp_all add: sample_options_def)
  from Deploy_then_Lookup [OF sample_storing sample_static sample_omits _ this d] d
  show ?thesis by auto
qed

end
