(* ===== verification/Base64.thy ===== *)
theory Base64
  imports Prelude
begin

text \<open>
  \<open>encoding/base64\<close> as the certificate code uses it: \<open>StdEncoding\<close> with padding, on byte strings.
  Decoding skips line breaks and does not check the unused bits of the last group.
\<close>

definition b64_alphabet :: string where
  "b64_alphabet = ''ABCDEFGHIJKLMNOPQRSTUVWXYZabcdefghijklmnopqrstuvwxyz0123456789+/''"

definition sextet_char :: "nat \<Rightarrow> char" where
  "sextet_char n = b64_alphabet ! n"

definition char_sextet :: "char \<Rightarrow> nat option" where
  "char_sextet c = find_index (\<lambda>d. d = c) b64_alphabet"

abbreviation byte :: "char \<Rightarrow> nat" where "byte c \<equiv> of_char c"

fun EncodeToString :: "string \<Rightarrow> string" where
  "EncodeToString [] = []"
| "EncodeToString [a] =
     [sextet_char (byte a div 4), sextet_char (byte a mod 4 * 16), CHR ''='', CHR ''='']"
| "EncodeToString [a, b] =
     [sextet_char (byte a div 4), sextet_char (byte a mod 4 * 16 + byte b div 16),
      sextet_char (byte b mod 16 * 4), CHR ''='']"
| "EncodeToString (a # b # c # rest) =
     sextet_char (byte a div 4) # sextet_char (byte a mod 4 * 16 + byte b div 16) #
     sextet_char (byte b mod 16 * 4 + byte c div 64) # sextet_char (byte c mod 64) #
     EncodeToString rest"

definition corrupt :: err where "corrupt = Plain ''illegal base64 data''"

definition bytes3 :: "nat \<Rightarrow> nat \<Rightarrow> nat \<Rightarrow> nat \<Rightarrow> string" where
  "bytes3 p q r s = [char_of (p * 4 + q div 16), char_of (q mod 16 * 16 + r div 4),
     char_of (r mod 4 * 64 + s)]"

text \<open>Groups of four, padding only at the very end.\<close>

fun decode_groups :: "string \<Rightarrow> err + string" where
  "decode_groups [] = Inr []"
| "decode_groups (p # q # r # s # rest) =
     (case (char_sextet p, char_sextet q, char_sextet r, char_sextet s) of
        (Some p', Some q', Some r', Some s') \<Rightarrow>
          (case decode_groups rest of Inl e \<Rightarrow> Inl e | Inr bs \<Rightarrow> Inr (bytes3 p' q' r' s' @ bs))
      | (Some p', Some q', Some r', None) \<Rightarrow>
          if s = CHR ''='' \<and> rest = [] then Inr (take 2 (bytes3 p' q' r' 0)) else Inl corrupt
      | (Some p', Some q', None, _) \<Rightarrow>
          if r = CHR ''='' \<and> s = CHR ''='' \<and> rest = [] then Inr (take 1 (bytes3 p' q' 0 0))
          else Inl corrupt
      | _ \<Rightarrow> Inl corrupt)"
| "decode_groups _ = Inl corrupt"

definition DecodeString :: "string \<Rightarrow> err + string" where
  "DecodeString s = decode_groups (filter (\<lambda>c. c \<noteq> CHR 0x0A \<and> c \<noteq> CHR 0x0D) s)"

section \<open>Round trip\<close>

lemma alphabet_facts: "length b64_alphabet = 64 \<and> distinct b64_alphabet \<and>
  CHR 0x0A \<notin> set b64_alphabet \<and> CHR 0x0D \<notin> set b64_alphabet \<and> CHR ''='' \<notin> set b64_alphabet"
  by code_simp

lemma char_sextet_char [simp]: "n < 64 \<Longrightarrow> char_sextet (sextet_char n) = Some n"
proof -
  assume n: "n < 64"
  have "find_index (\<lambda>d. d = xs ! n) xs = Some n" if "distinct xs" "n < length xs" for xs :: string
    using that
  proof (induction xs arbitrary: n)
    case (Cons x xs)
    then show ?case by (cases n) (auto dest: nth_mem)
  qed simp
  with n alphabet_facts show ?thesis by (simp add: char_sextet_def sextet_char_def)
qed

lemma char_sextet_pad [simp]: "char_sextet CHR ''='' = None"
  using alphabet_facts by (auto simp: char_sextet_def find_index_None)

lemma sextet_char_kept: "n < 64 \<Longrightarrow> sextet_char n \<noteq> CHR 0x0A \<and> sextet_char n \<noteq> CHR 0x0D"
  using alphabet_facts by (metis sextet_char_def nth_mem)

lemma byte_bound: "byte c < 256"
  using nat_of_char_less_256 [of c] by simp

lemma byte_parts:
  "byte c div 4 < 64" "byte c div 16 < 16" "byte c div 64 < 4"
  "byte c mod 4 < 4" "byte c mod 16 < 16" "byte c mod 64 < 64"
  using byte_bound [of c] by (simp_all add: less_mult_imp_div_less del: nat_of_char_less_256)

lemma sextets [simp]:
  "byte a div 4 < 64" "byte a mod 4 * 16 < 64" "byte a mod 4 * 16 + byte b div 16 < 64"
  "byte b mod 16 * 4 < 64" "byte b mod 16 * 4 + byte c div 64 < 64" "byte c mod 64 < 64"
  using byte_parts [of a] byte_parts [of b] byte_parts [of c] by linarith+

lemma group_parts: "n < k \<Longrightarrow> (m * k + n) div k = m" "n < k \<Longrightarrow> (m * k + n) mod k = n" for n k m :: nat
  by simp_all

lemma regroup:
  "byte a div 4 * 4 + (byte a mod 4 * 16 + byte b div 16) div 16 = byte a"
  "(byte a mod 4 * 16 + byte b div 16) mod 16 * 16 + (byte b mod 16 * 4 + byte c div 64) div 4 = byte b"
  "(byte b mod 16 * 4 + byte c div 64) mod 4 * 64 + byte c mod 64 = byte c"
  by (simp_all only: group_parts byte_parts div_mult_mod_eq)

lemma regroup_last:
  "byte a div 4 * 4 + byte a mod 4 * 16 div 16 = byte a"
  "(byte a mod 4 * 16 + byte b div 16) mod 16 * 16 + byte b mod 16 * 4 div 4 = byte b"
  by (simp_all only: group_parts byte_parts div_mult_mod_eq nonzero_mult_div_cancel_right
      numeral_neq_zero not_False_eq_True)

lemma char_of_byte [simp]: "char_of (byte a) = a"
  by simp

lemma bytes3_sextets:
  "bytes3 (byte a div 4) (byte a mod 4 * 16 + byte b div 16) (byte b mod 16 * 4 + byte c div 64)
     (byte c mod 64) = [a, b, c]"
  "take 2 (bytes3 (byte a div 4) (byte a mod 4 * 16 + byte b div 16) (byte b mod 16 * 4) 0) = [a, b]"
  "take 1 (bytes3 (byte a div 4) (byte a mod 4 * 16) 0 0) = [a]"
  by (simp_all only: bytes3_def regroup regroup_last char_of_byte take_Cons_numeral)
    (simp_all add: numeral_2_eq_2 regroup)

lemma decode_encode_groups: "decode_groups (EncodeToString bs) = Inr bs"
proof (induction bs rule: EncodeToString.induct)
qed (simp_all add: bytes3_sextets del: One_nat_def)

lemma EncodeToString_kept:
  "filter (\<lambda>c. c \<noteq> CHR 0x0A \<and> c \<noteq> CHR 0x0D) (EncodeToString bs) = EncodeToString bs"
  by (induction bs rule: EncodeToString.induct) (simp_all add: sextet_char_kept)

lemma Decode_Encode: "DecodeString (EncodeToString bs) = Inr bs"
  by (simp add: DecodeString_def EncodeToString_kept decode_encode_groups)

end
