(* ===== verification/Certs.thy ===== *)
theory Certs
  imports Base64 Paths Sample Retry
begin

text \<open>
  \<open>internal/tools/certs/certs.go\<close>: requesting a serving certificate through a
  CertificateSigningRequest, deciding whether it has to be renewed, and writing certificate and key
  to the directory of the webhook server. The helpers of the plumbing library, cryptography, the
  clock and the local file system answer through \<open>cert_env\<close>.
\<close>

section \<open>Environment\<close>

record csr =
  csr_name :: string
  csr_created :: int
  csr_request :: string

record csr_options =
  cso_username :: string
  cso_duration :: int
  cso_csr :: string
  cso_signerName :: string
  cso_usages :: "string list"

record request_options =
  rq_key :: string
  rq_username :: string
  rq_groups :: "string list"
  rq_dnsNames :: "string list"

record 's cert_env =
  ce_newPrivateKey :: "'s \<Rightarrow> (err + string) \<times> 's"
  ce_newRequest :: "request_options \<Rightarrow> err + string"
  ce_newCSR :: "csr_options \<Rightarrow> csr"
  ce_encodeKey :: "string \<Rightarrow> string"
  ce_csr_get :: "string \<Rightarrow> 's \<Rightarrow> (err + csr) \<times> 's"
  ce_csr_create :: "csr \<Rightarrow> 's \<Rightarrow> (err + unit) \<times> 's"
  ce_csr_delete :: "string \<Rightarrow> 's \<Rightarrow> (err + unit) \<times> 's"
  ce_csr_approve :: "csr \<Rightarrow> string \<Rightarrow> 's \<Rightarrow> (err + unit) \<times> 's"
  ce_csr_wait :: "string \<Rightarrow> 's \<Rightarrow> (err + unit) \<times> 's"
  ce_csr_certificate :: "string \<Rightarrow> 's \<Rightarrow> (err + string) \<times> 's"
  ce_now :: "'s \<Rightarrow> int"
  ce_mkdirAll :: "string \<Rightarrow> 's \<Rightarrow> (err + unit) \<times> 's"
  ce_create :: "string \<Rightarrow> 's \<Rightarrow> (err + unit) \<times> 's"
  ce_write :: "string \<Rightarrow> string \<Rightarrow> 's \<Rightarrow> (err + unit) \<times> 's"
  ce_remove :: "string \<Rightarrow> 's \<Rightarrow> (err + unit) \<times> 's"
  ce_rename :: "string \<Rightarrow> string \<Rightarrow> 's \<Rightarrow> (err + unit) \<times> 's"
  ce_read :: "string \<Rightarrow> 's \<Rightarrow> (err + string) \<times> 's"
  ce_isNotExist :: "err \<Rightarrow> bool"
  ce_newKubeClient :: "'s \<Rightarrow> (err + unit) \<times> 's"
  ce_newClientset :: "'s \<Rightarrow> (err + unit) \<times> 's"

text \<open>A read of the surroundings that leaves no trace: randomness, building a client.\<close>

definition silently :: "('s \<Rightarrow> (err + 'a) \<times> 's) \<Rightarrow> ('s world, 'a) prog" where
  "silently f = (\<lambda>w. case f (w_ext w) of (r, s) \<Rightarrow> (outcome_of r, w\<lparr>w_ext := s\<rparr>))"

definition csr_get :: "'s cert_env \<Rightarrow> string \<Rightarrow> ('s world, csr) prog" where
  "csr_get CE n = call (EvCsr (CsrGet n)) (ce_csr_get CE n)"

definition csr_create :: "'s cert_env \<Rightarrow> csr \<Rightarrow> ('s world, unit) prog" where
  "csr_create CE c = call (EvCsr (CsrCreate (csr_name c))) (ce_csr_create CE c)"

definition csr_delete :: "'s cert_env \<Rightarrow> string \<Rightarrow> ('s world, unit) prog" where
  "csr_delete CE n = call (EvCsr (CsrDelete n)) (ce_csr_delete CE n)"

definition csr_approve :: "'s cert_env \<Rightarrow> csr \<Rightarrow> string \<Rightarrow> ('s world, unit) prog" where
  "csr_approve CE c a = call (EvCsr (CsrApprove (csr_name c) a)) (ce_csr_approve CE c a)"

definition csr_wait :: "'s cert_env \<Rightarrow> string \<Rightarrow> ('s world, unit) prog" where
  "csr_wait CE n = call (EvCsr (CsrWait n)) (ce_csr_wait CE n)"

definition csr_certificate :: "'s cert_env \<Rightarrow> string \<Rightarrow> ('s world, string) prog" where
  "csr_certificate CE n = call (EvCsr (CsrCertificate n)) (ce_csr_certificate CE n)"

definition fs_mkdirAll :: "'s cert_env \<Rightarrow> string \<Rightarrow> ('s world, unit) prog" where
  "fs_mkdirAll CE p = call (EvFile (FsMkdirAll p)) (ce_mkdirAll CE p)"

definition fs_create :: "'s cert_env \<Rightarrow> string \<Rightarrow> ('s world, unit) prog" where
  "fs_create CE p = call (EvFile (FsCreate p)) (ce_create CE p)"

definition fs_write :: "'s cert_env \<Rightarrow> string \<Rightarrow> string \<Rightarrow> ('s world, unit) prog" where
  "fs_write CE p dat = call (EvFile (FsWrite p dat)) (ce_write CE p dat)"

definition fs_remove :: "'s cert_env \<Rightarrow> string \<Rightarrow> ('s world, unit) prog" where
  "fs_remove CE p = call (EvFile (FsRemove p)) (ce_remove CE p)"

definition fs_rename :: "'s cert_env \<Rightarrow> string \<Rightarrow> string \<Rightarrow> ('s world, unit) prog" where
  "fs_rename CE p q = call (EvFile (FsRename p q)) (ce_rename CE p q)"

definition fs_read :: "'s cert_env \<Rightarrow> string \<Rightarrow> ('s world, string) prog" where
  "fs_read CE p = call (EvFile (FsRead p)) (ce_read CE p)"

lemmas cert_call_defs = csr_get_def csr_create_def csr_delete_def csr_approve_def csr_wait_def
  csr_certificate_def fs_mkdirAll_def fs_create_def fs_write_def fs_remove_def fs_rename_def fs_read_def

text \<open>What the certificate code itself may do: signing requests and local files.\<close>

definition cert_events :: "event set" where
  "cert_events = {ev. (\<exists>c. ev = EvCsr c) \<or> (\<exists>f. ev = EvFile f)}"

lemma emits_cert_calls [emits_intros]:
  assumes "cert_events \<subseteq> A"
  shows "emits w_trace A (csr_get CE n)" "emits w_trace A (csr_create CE c)"
    "emits w_trace A (csr_delete CE n)" "emits w_trace A (csr_approve CE c a)"
    "emits w_trace A (csr_wait CE n)" "emits w_trace A (csr_certificate CE n)"
    "emits w_trace A (fs_mkdirAll CE p)" "emits w_trace A (fs_create CE p)"
    "emits w_trace A (fs_write CE p dat)" "emits w_trace A (fs_remove CE p)"
    "emits w_trace A (fs_rename CE p q)" "emits w_trace A (fs_read CE p)"
  using assms by (auto simp: cert_call_defs cert_events_def intro!: emits_call)

lemma emits_silently [emits_intros]: "emits w_trace A (silently f)"
  by (auto simp: emits_def silently_def split: prod.split)

section \<open>Requesting a certificate\<close>

record cert_opts =
  go_duration :: int
  go_leaseExpirationMargin :: int
  go_username :: string
  go_approver :: string

definition kubeletServingSigner :: string where
  "kubeletServingSigner = ''kubernetes.io/kubelet-serving''"

definition csr_of_request :: "'s cert_env \<Rightarrow> cert_opts \<Rightarrow> string \<Rightarrow> csr" where
  "csr_of_request CE o1 req = ce_newCSR CE \<lparr>cso_username = go_username o1,
     cso_duration = go_duration o1, cso_csr = req, cso_signerName = kubeletServingSigner,
     cso_usages = [''server auth'', ''key encipherment'', ''digital signature'']\<rparr>"

text \<open>Creating the request, once more after deleting one that is in the way.\<close>

definition create_csr :: "'s env \<Rightarrow> 's cert_env \<Rightarrow> csr \<Rightarrow> ('s world, unit) prog" where
  "create_csr E CE c =
     thenP (tryP (csr_create CE c)) (\<lambda>created.
     case created of
       Inr _ \<Rightarrow> returnP ()
     | Inl e \<Rightarrow>
         if \<not> ae_IsAlreadyExists (env_errors E) e
         then failP (Wrap ''creating CSR kubernetes object: '' e '''')
         else
           thenP (wrapping ''deleting CSR kubernetes object: '' (csr_delete CE (csr_name c))) (\<lambda>_.
           wrapping ''creating CSR kubernetes object: '' (csr_create CE c)))"

definition GenerateClientCertAndKey ::
  "'s env \<Rightarrow> 's cert_env \<Rightarrow> cert_opts \<Rightarrow> ('s world, string \<times> string) prog" where
  "GenerateClientCertAndKey E CE o1 =
     thenP (silently (ce_newPrivateKey CE)) (\<lambda>key.
     thenP (liftSum (ce_newRequest CE \<lparr>rq_key = key, rq_username = ''system:node:'' @ go_username o1,
        rq_groups = [''system:nodes''], rq_dnsNames = [go_username o1]\<rparr>)) (\<lambda>req.
     (let c = csr_of_request CE o1 req in
     thenP (create_csr E CE c) (\<lambda>_.
     thenP (csr_approve CE c (go_approver o1)) (\<lambda>_.
     thenP (csr_wait CE (csr_name c)) (\<lambda>_.
     thenP (csr_certificate CE (csr_name c)) (\<lambda>crt.
     returnP (EncodeToString crt, EncodeToString (ce_encodeKey CE key)))))))))"

section \<open>When it is renewed\<close>

text \<open>\<open>time.Since\<close> saturates at the bounds of a duration; the subtraction of durations wraps.\<close>

definition since :: "int \<Rightarrow> int \<Rightarrow> int" where
  "since now t = max (- (2 ^ 63)) (min (2 ^ 63 - 1) (now - t))"

definition Expired :: "csr \<Rightarrow> int \<Rightarrow> int \<Rightarrow> bool" where
  "Expired c leaseExpirationMargin now =
     (let expiration = wrap64 (leaseExpirationMargin - since now (csr_created c)) in expiration < 0)"

definition clock :: "'s cert_env \<Rightarrow> ('s world, int) prog" where
  "clock CE = (\<lambda>w. (Ok (ce_now CE (w_ext w)), w))"

lemma emits_clock [emits_intros]: "emits w_trace A (clock CE)"
  by (simp add: emits_def clock_def)

text \<open>
  The flag tells whether the existing request is still good; otherwise certificate and key are new.
\<close>

definition CheckOrRegenerateClientCertAndKey ::
  "'s env \<Rightarrow> 's cert_env \<Rightarrow> cert_opts \<Rightarrow> ('s world, bool \<times> string \<times> string) prog" where
  "CheckOrRegenerateClientCertAndKey E CE o1 =
     thenP (tryP (csr_get CE (go_username o1))) (\<lambda>got.
     case got of
       Inl e \<Rightarrow>
         if IsNotFound E e
         then thenP (GenerateClientCertAndKey E CE o1) (\<lambda>(crt, key). returnP (False, crt, key))
         else failP (Wrap ''getting CSR kubernetes object: '' e '''')
     | Inr c \<Rightarrow>
         thenP (clock CE) (\<lambda>now.
         if Expired c (go_leaseExpirationMargin o1) now
         then
           thenP (wrapping ''deleting CSR kubernetes object: '' (csr_delete CE (csr_name c))) (\<lambda>_.
           thenP (GenerateClientCertAndKey E CE o1) (\<lambda>(crt, key). returnP (False, crt, key)))
         else returnP (True, '''', '''')))"

section \<open>Writing certificate and key\<close>

text \<open>A step whose error is reported with \<open>%v\<close> after removing temporary files.\<close>

definition guarded :: "string \<Rightarrow> ('w, unit) prog \<Rightarrow> ('w, unit) prog \<Rightarrow> ('w, unit) prog" where
  "guarded what cleanup step =
     thenP (tryP step) (\<lambda>r. case r of
       Inr _ \<Rightarrow> returnP ()
     | Inl e \<Rightarrow> thenP cleanup (\<lambda>_. failP (Plain (what @ err_msg e))))"

text \<open>\<open>os.Remove\<close> with its error ignored.\<close>

definition removing :: "'s cert_env \<Rightarrow> string list \<Rightarrow> ('s world, unit) prog" where
  "removing CE ps = foreachP ps (\<lambda>p. thenP (tryP (fs_remove CE p)) (\<lambda>_. returnP ()))"

definition UpdateCerts :: "'s cert_env \<Rightarrow> string \<Rightarrow> string \<Rightarrow> string \<Rightarrow> ('s world, unit) prog" where
  "UpdateCerts CE crt key certsPath =
     (case DecodeString crt of
        Inl e \<Rightarrow> failP (Plain (''cannot decode certificate: '' @ err_msg e))
      | Inr decCert \<Rightarrow>
     (case DecodeString key of
        Inl e \<Rightarrow> failP (Plain (''cannot decode key: '' @ err_msg e))
      | Inr decKey \<Rightarrow>
     (let certPath = Join [certsPath, ''tls.crt'']; keyPath = Join [certsPath, ''tls.key''];
          certTmpPath = Join [certsPath, ''tls.crt.tmp'']; keyTmpPath = Join [certsPath, ''tls.key.tmp'']
      in thenP (guarded ''cannot create directory for certificate and key: '' (returnP ())
                  (fs_mkdirAll CE certsPath)) (\<lambda>_.
         thenP (guarded ''cannot create temporary certificate file: '' (returnP ())
                  (fs_create CE certTmpPath)) (\<lambda>_.
         thenP (guarded ''cannot write certificate file: '' (removing CE [certTmpPath])
                  (fs_write CE certTmpPath decCert)) (\<lambda>_.
         thenP (guarded ''cannot create temporary key file: '' (removing CE [certTmpPath])
                  (fs_create CE keyTmpPath)) (\<lambda>_.
         thenP (guarded ''cannot write key file: '' (removing CE [certTmpPath, keyTmpPath])
                  (fs_write CE keyTmpPath decKey)) (\<lambda>_.
         thenP (guarded ''cannot rename certificate file: '' (removing CE [certTmpPath, keyTmpPath])
                  (fs_rename CE certTmpPath certPath)) (\<lambda>_.
         guarded ''cannot rename key file: '' (removing CE [keyTmpPath])
           (fs_rename CE keyTmpPath keyPath))))))))))"

lemmas cert_prog_defs = create_csr_def GenerateClientCertAndKey_def
  CheckOrRegenerateClientCertAndKey_def guarded_def removing_def UpdateCerts_def

lemma emits_GenerateClientCertAndKey [emits_intros]:
  "cert_events \<subseteq> A \<Longrightarrow> emits w_trace A (GenerateClientCertAndKey E CE o1)"
  unfolding GenerateClientCertAndKey_def create_csr_def Let_def by (intro emits_intros)

lemma emits_CheckOrRegenerate [emits_intros]:
  "cert_events \<subseteq> A \<Longrightarrow> emits w_trace A (CheckOrRegenerateClientCertAndKey E CE o1)"
  unfolding CheckOrRegenerateClientCertAndKey_def by (intro emits_intros)

lemma emits_UpdateCerts [emits_intros]:
  "cert_events \<subseteq> A \<Longrightarrow> emits w_trace A (UpdateCerts CE crt key p)"
  unfolding UpdateCerts_def guarded_def removing_def Let_def by (intro emits_intros)

section \<open>Certificate and key stay a pair\<close>

text \<open>
  The documented behaviour of the file system calls, seen through the content of each path: a failed
  creation, removal or rename changes nothing, a failed write at most the file it writes, and a
  rename moves the whole content at once.
\<close>

definition posix_files :: "'s cert_env \<Rightarrow> ('s \<Rightarrow> string \<Rightarrow> string option) \<Rightarrow> bool" where
  "posix_files CE files \<longleftrightarrow>
     (\<forall>p s. files (snd (ce_mkdirAll CE p s)) = files s) \<and>
     (\<forall>p s. files (snd (ce_create CE p s)) = (case fst (ce_create CE p s) of
        Inl e \<Rightarrow> files s | Inr _ \<Rightarrow> (files s)(p \<mapsto> ''''))) \<and>
     (\<forall>p d s. case fst (ce_write CE p d s) of
        Inl e \<Rightarrow> (\<exists>x. files (snd (ce_write CE p d s)) = (files s)(p := x))
      | Inr _ \<Rightarrow> files (snd (ce_write CE p d s)) = (files s)(p \<mapsto> d)) \<and>
     (\<forall>p s. files (snd (ce_remove CE p s)) = (case fst (ce_remove CE p s) of
        Inl e \<Rightarrow> files s | Inr _ \<Rightarrow> (files s)(p := None))) \<and>
     (\<forall>p q s. files (snd (ce_rename CE p q s)) = (case fst (ce_rename CE p q s) of
        Inl e \<Rightarrow> files s | Inr _ \<Rightarrow> (files s)(q := files s p, p := None)))"

lemma triple_guarded:
  assumes "triple P step (\<lambda>_. Q) (\<lambda>_. R)" and "\<And>w. R w \<Longrightarrow> R (snd (cleanup w))"
  shows "triple P (guarded what cleanup step) (\<lambda>_. Q) (\<lambda>_. R)"
proof (rule tripleI)
  fix w x w' assume "P w" "guarded what cleanup step w = (Ok x, w')"
  with assms(1) show "Q w'"
    by (auto simp: guarded_def prog_defs triple_def split: prod.splits outcome.splits)
next
  fix w e w' assume P: "P w" and run: "guarded what cleanup step w = (Err e, w')"
  then obtain e1 w1 where "step w = (Err e1, w1)" "w' = snd (cleanup w1)"
    by (auto simp: guarded_def prog_defs split: prod.splits outcome.splits)
  with assms P show "R w'" by (auto simp: triple_def)
qed

lemma triple_guarded_then:
  "triple P step (\<lambda>_. Q) (\<lambda>_. R) \<Longrightarrow> (\<And>w. R w \<Longrightarrow> R (snd (cleanup w))) \<Longrightarrow>
   triple Q rest Q' (\<lambda>_. R) \<Longrightarrow> triple P (thenP (guarded what cleanup step) (\<lambda>_. rest)) Q' (\<lambda>_. R)"
  by (rule triple_thenP [OF triple_guarded])

lemma removing_keeps:
  assumes "posix_files CE files" and "q \<notin> set ps"
  shows "files (w_ext (snd (removing CE ps w))) q = files (w_ext w) q"
proof -
  have one: "thenP (tryP (fs_remove CE p)) (\<lambda>_. returnP ()) w =
      (Ok (), w\<lparr>w_trace := w_trace w @ [EvFile (FsRemove p)], w_ext := snd (ce_remove CE p (w_ext w))\<rparr>)"
    for p and w :: "'a world"
    by (simp add: fs_remove_def call_apply prog_defs outcome_of_def split: outcome.split sum.split)
  from assms(2) show ?thesis
    unfolding removing_def
  proof (induction ps arbitrary: w)
    case (Cons p ps)
    have "files (snd (ce_remove CE p (w_ext w))) q = files (w_ext w) q"
      using assms(1) Cons.prems by (auto simp: posix_files_def split: sum.split)
    with Cons show ?case by (simp add: thenP_Ok [OF one] del: returnP_apply)
  qed simp
qed

lemma no_panic_cert_calls [no_panic_intros]:
  "no_panic (csr_get CE n)" "no_panic (csr_create CE c)" "no_panic (csr_delete CE n)"
  "no_panic (csr_approve CE c a)" "no_panic (csr_wait CE n)" "no_panic (csr_certificate CE n)"
  "no_panic (fs_mkdirAll CE p)" "no_panic (fs_create CE p)" "no_panic (fs_write CE p dat)"
  "no_panic (fs_remove CE p)" "no_panic (fs_rename CE p q)" "no_panic (fs_read CE p)"
  by (simp_all add: cert_call_defs no_panic_call)

lemma no_panic_UpdateCerts [no_panic_intros]: "no_panic (UpdateCerts CE crt key p)"
  unfolding UpdateCerts_def guarded_def removing_def Let_def by (intro no_panic_intros)

text \<open>The contents of the two final paths, and of a temporary one.\<close>

definition pair_at ::
  "('s \<Rightarrow> string \<Rightarrow> string option) \<Rightarrow> string \<Rightarrow> 's world \<Rightarrow> string option \<times> string option" where
  "pair_at files path w = (files (w_ext w) (Join [path, ''tls.crt'']), files (w_ext w) (Join [path, ''tls.key'']))"

definition temp_at :: "('s \<Rightarrow> string \<Rightarrow> string option) \<Rightarrow> string \<Rightarrow> string \<Rightarrow> 's world \<Rightarrow> string option" where
  "temp_at files path n w = files (w_ext w) (Join [path, n])"

lemma cert_names:
  assumes "path \<noteq> ''''"
  shows "distinct [Join [path, ''tls.crt''], Join [path, ''tls.key''], Join [path, ''tls.crt.tmp''],
     Join [path, ''tls.key.tmp'']]"
proof -
  have "plain_name ''tls.crt''" "plain_name ''tls.key''" "plain_name ''tls.crt.tmp''"
    "plain_name ''tls.key.tmp''" by code_simp+
  with Join_inj [OF assms] show ?thesis by simp
qed

lemma posix_write:
  assumes "posix_files CE files" and "q \<noteq> p"
  shows "files (snd (ce_write CE p d s)) q = files s q"
    and "fst (ce_write CE p d s) = Inr u \<Longrightarrow> files (snd (ce_write CE p d s)) p = Some d"
proof -
  have spec: "case fst (ce_write CE p d s) of
        Inl e \<Rightarrow> (\<exists>x. files (snd (ce_write CE p d s)) = (files s)(p := x))
      | Inr _ \<Rightarrow> files (snd (ce_write CE p d s)) = (files s)(p \<mapsto> d)"
    using assms(1) unfolding posix_files_def by blast
  then show "files (snd (ce_write CE p d s)) q = files s q"
    using assms(2) by (cases "fst (ce_write CE p d s)") auto
  show "fst (ce_write CE p d s) = Inr u \<Longrightarrow> files (snd (ce_write CE p d s)) p = Some d"
    using spec by simp
qed

lemma UpdateCerts_triple:
  assumes fs: "posix_files CE files" and path: "path \<noteq> ''''"
  shows "triple (\<lambda>w. pair_at files path w = p0) (UpdateCerts CE (EncodeToString c) (EncodeToString k) path)
    (\<lambda>_ w. pair_at files path w = (Some c, Some k))
    (\<lambda>_ w. pair_at files path w = p0 \<or> pair_at files path w = (Some c, snd p0))"
proof -
  let ?ct = "''tls.crt.tmp''" and ?kt = "''tls.key.tmp''"
  let ?P = "\<lambda>w. pair_at files path w"
  let ?R = "\<lambda>w. ?P w = p0 \<or> ?P w = (Some c, snd p0)"
  note names = cert_names [OF path] and posix = fs [unfolded posix_files_def]
  have clean: "?R w \<Longrightarrow> ?R (snd (removing CE ps w))"
    if "set ps \<subseteq> {Join [path, ?ct], Join [path, ?kt]}" for ps and w :: "'a world"
  proof -
    have "Join [path, ''tls.crt''] \<notin> set ps" "Join [path, ''tls.key''] \<notin> set ps"
      using that names by auto
    then show "?R w \<Longrightarrow> ?R (snd (removing CE ps w))"
      by (simp add: pair_at_def removing_keeps [OF fs])
  qed
  have c0: "?R w \<Longrightarrow> ?R (snd (returnP () w))" for w :: "'a world" by simp
  have c1: "?R w \<Longrightarrow> ?R (snd (removing CE [Join [path, ?ct]] w))" for w :: "'a world"
    by (rule clean) simp_all
  have c2: "?R w \<Longrightarrow> ?R (snd (removing CE [Join [path, ?ct], Join [path, ?kt]] w))" for w :: "'a world"
    by (rule clean) simp_all
  have c3: "?R w \<Longrightarrow> ?R (snd (removing CE [Join [path, ?kt]] w))" for w :: "'a world"
    by (rule clean) simp_all
  note step = fs_mkdirAll_def fs_create_def fs_write_def fs_rename_def call_apply triple_def
    pair_at_def temp_at_def outcome_of_def
  have s1: "triple (\<lambda>w. ?P w = p0) (fs_mkdirAll CE path) (\<lambda>_ w. ?P w = p0) (\<lambda>_. ?R)"
    using posix by (auto simp: step)
  have s2: "triple (\<lambda>w. ?P w = p0) (fs_create CE (Join [path, ?ct])) (\<lambda>_ w. ?P w = p0) (\<lambda>_. ?R)"
    using posix names by (auto simp: step split: sum.splits)
  have s3: "triple (\<lambda>w. ?P w = p0) (fs_write CE (Join [path, ?ct]) c)
      (\<lambda>_ w. ?P w = p0 \<and> temp_at files path ?ct w = Some c) (\<lambda>_. ?R)"
    using names by (auto simp: step posix_write [OF fs] split: sum.splits)
  have s4: "triple (\<lambda>w. ?P w = p0 \<and> temp_at files path ?ct w = Some c) (fs_create CE (Join [path, ?kt]))
      (\<lambda>_ w. ?P w = p0 \<and> temp_at files path ?ct w = Some c) (\<lambda>_. ?R)"
    using posix names by (auto simp: step split: sum.splits)
  have s5: "triple (\<lambda>w. ?P w = p0 \<and> temp_at files path ?ct w = Some c) (fs_write CE (Join [path, ?kt]) k)
      (\<lambda>_ w. ?P w = p0 \<and> temp_at files path ?ct w = Some c \<and> temp_at files path ?kt w = Some k) (\<lambda>_. ?R)"
    using names by (auto simp: step posix_write [OF fs] split: sum.splits)
  have s6: "triple (\<lambda>w. ?P w = p0 \<and> temp_at files path ?ct w = Some c \<and> temp_at files path ?kt w = Some k)
      (fs_rename CE (Join [path, ?ct]) (Join [path, ''tls.crt'']))
      (\<lambda>_ w. ?P w = (Some c, snd p0) \<and> temp_at files path ?kt w = Some k) (\<lambda>_. ?R)"
    using posix names by (auto simp: step split: sum.splits)
  have s7: "triple (\<lambda>w. ?P w = (Some c, snd p0) \<and> temp_at files path ?kt w = Some k)
      (fs_rename CE (Join [path, ?kt]) (Join [path, ''tls.key'']))
      (\<lambda>_ w. ?P w = (Some c, Some k)) (\<lambda>_. ?R)"
    using posix names by (auto simp: step split: sum.splits)
  show ?thesis
    unfolding UpdateCerts_def Let_def Decode_Encode sum.case
    by (rule triple_guarded_then, rule s1, erule c0, rule triple_guarded_then, rule s2, erule c0,
        rule triple_guarded_then, rule s3, erule c1, rule triple_guarded_then, rule s4, erule c1,
        rule triple_guarded_then, rule s5, erule c2, rule triple_guarded_then, rule s6, erule c2,
        rule triple_guarded, rule s7, erule c3)
qed


section \<open>A concrete environment\<close>

definition sample_pem :: string where
  "sample_pem = ''-----BEGIN CERTIFICATE-----END CERTIFICATE-----''"

text \<open>
  A cluster clock standing at one hundred hours; signing requests are kept with their creation time,
  every request is signed, files are kept by path.
\<close>

definition sample_now :: int where "sample_now = 100 * hour"

definition sample_cert_env :: "cluster cert_env" where
  "sample_cert_env = \<lparr>
     ce_newPrivateKey = (\<lambda>c. (Inr ''key'', c)),
     ce_newRequest = (\<lambda>r. Inr ''request''),
     ce_newCSR = (\<lambda>opts. \<lparr>csr_name = cso_username opts, csr_created = 0, csr_request = cso_csr opts\<rparr>),
     ce_encodeKey = (\<lambda>k. k),
     ce_csr_get = (\<lambda>n c. (case map_of (cl_csrs c) n of
        None \<Rightarrow> Inl not_found
      | Some t \<Rightarrow> Inr \<lparr>csr_name = n, csr_created = t, csr_request = ''request''\<rparr>, c)),
     ce_csr_create = (\<lambda>r c. (Inr (), c\<lparr>cl_csrs := (csr_name r, sample_now) # cl_csrs c\<rparr>)),
     ce_csr_delete = (\<lambda>n c. (Inr (), c\<lparr>cl_csrs := filter (\<lambda>r. fst r \<noteq> n) (cl_csrs c)\<rparr>)),
     ce_csr_approve = (\<lambda>r a c. (Inr (), c)),
     ce_csr_wait = (\<lambda>n c. (Inr (), c)),
     ce_csr_certificate = (\<lambda>n c. (Inr sample_pem, c)),
     ce_now = (\<lambda>c. sample_now),
     ce_mkdirAll = (\<lambda>p c. (Inr (), c)),
     ce_create = (\<lambda>p c. (Inr (), c\<lparr>cl_files := (cl_files c)(p \<mapsto> '''')\<rparr>)),
     ce_write = (\<lambda>p d c. (Inr (), c\<lparr>cl_files := (cl_files c)(p \<mapsto> d)\<rparr>)),
     ce_remove = (\<lambda>p c. (Inr (), c\<lparr>cl_files := (cl_files c)(p := None)\<rparr>)),
     ce_rename = (\<lambda>p q c. (Inr (), c\<lparr>cl_files := (cl_files c)(q := cl_files c p, p := None)\<rparr>)),
     ce_read = (\<lambda>p c. (case cl_files c p of None \<Rightarrow> Inl not_found | Some d \<Rightarrow> Inr d, c)),
     ce_isNotExist = (\<lambda>e. e = not_found),
     ce_newKubeClient = (\<lambda>c. (Inr (), c)),
     ce_newClientset = (\<lambda>c. (Inr (), c))\<rparr>"

lemma posix_sample: "posix_files sample_cert_env cl_files"
  by (simp add: posix_files_def sample_cert_env_def)

lemma always_ok_sample_certs:
  "always_ok (csr_create sample_cert_env r)" "always_ok (csr_delete sample_cert_env n)"
  "always_ok (csr_approve sample_cert_env r a)" "always_ok (csr_wait sample_cert_env n)"
  "always_ok (csr_certificate sample_cert_env n)" "always_ok (silently (ce_newPrivateKey sample_cert_env))"
  "always_ok (fs_mkdirAll sample_cert_env p)" "always_ok (fs_create sample_cert_env p)"
  "always_ok (fs_write sample_cert_env p d)" "always_ok (fs_remove sample_cert_env p)"
  "always_ok (fs_rename sample_cert_env p q)" "always_ok (clock sample_cert_env)"
  by (simp_all add: always_ok_def cert_call_defs call_apply silently_def clock_def sample_cert_env_def)

lemma always_ok_guarded: "always_ok step \<Longrightarrow> always_ok (guarded what cleanup step)"
  unfolding always_ok_def guarded_def by (metis (no_types, lifting) returnP_apply sum.case(2) thenP_Ok tryP_Ok)

lemma always_ok_UpdateCerts_sample:
  "always_ok (UpdateCerts sample_cert_env (EncodeToString c) (EncodeToString k) path)"
  unfolding UpdateCerts_def Let_def Decode_Encode sum.case
  by (intro always_ok_thenP always_ok_guarded always_ok_sample_certs)


section \<open>The renewal margin\<close>

lemma Expired_iff:
  assumes "csr_created c \<le> now" and "now - csr_created c < 2 ^ 63" and "0 \<le> margin" and "margin < 2 ^ 63"
  shows "Expired c margin now \<longleftrightarrow> now - csr_created c > margin"
proof -
  have "since now (csr_created c) = now - csr_created c"
    using assms(1,2) by (simp add: since_def)
  moreover have "wrap64 (margin - (now - csr_created c)) = margin - (now - csr_created c)"
    using assms by (intro wrap64_id) linarith+
  ultimately show ?thesis by (simp add: Expired_def Let_def)
qed

text \<open>
  A signing request counts as expired exactly when it is older than the margin: the flag
  documented as the time before expiry at which to renew acts as the age at which to renew.
\<close>

theorem Expired_iff_older:
  assumes "csr_created c \<le> now" and "now - csr_created c < 2 ^ 63" and "0 \<le> margin" and "margin < 2 ^ 63"
  shows "Expired c margin now \<longleftrightarrow> now - csr_created c > margin"
  using assms by (rule Expired_iff)

text \<open>With the defaults (24 hours, margin 16 hours) a certificate is renewed at the age of 16 hours.\<close>

theorem Expired_iff_older_witness:
  "Expired \<lparr>csr_name = ''n'', csr_created = 0, csr_request = ''''\<rparr> (16 * hour) (17 * hour) \<and>
   \<not> Expired \<lparr>csr_name = ''n'', csr_created = 0, csr_request = ''''\<rparr> (16 * hour) (9 * hour)"
  using Expired_iff_older [of "\<lparr>csr_name = ''n'', csr_created = 0, csr_request = ''''\<rparr>" "17 * hour" "16 * hour"]
    Expired_iff_older [of "\<lparr>csr_name = ''n'', csr_created = 0, csr_request = ''''\<rparr>" "9 * hour" "16 * hour"]
  by (simp add: hour_def)

end
