(* ===== verification/Cert_Interface.thy ===== *)
theory Cert_Interface
  imports Certs
begin

text \<open>
  \<open>CertManagerInterface\<close> of \<open>certificates.go\<close>: what the controller and the certificate reconciler call.
  The locale states the laws its clients rely on; they are discharged for the model of
  \<open>CertManager\<close> in the theory \<open>Cert_Manager\<close>.
\<close>

record 's cert_iface =
  ci_ManageCertificates :: "gvr \<Rightarrow> ('s world, unit) prog"
  ci_GetCABundle :: "('s world, string option) prog"
  ci_GetServiceName :: string
  ci_GetServiceNamespace :: string
  ci_UpdateExistingResources :: "('s world, unit) prog"

text \<open>
  What looking after certificates may do: signing requests and local files, reads and waits, and
  creating or updating CustomResourceDefinitions and the mutating webhook configuration.
\<close>

definition webhookKind :: string where "webhookKind = ''MutatingWebhookConfiguration''"
definition crd_kind_name :: string where "crd_kind_name = ''CustomResourceDefinition''"

fun certificate_event :: "event \<Rightarrow> bool" where
  "certificate_event (EvCsr c) = True"
| "certificate_event (EvFile f) = True"
| "certificate_event (EvGet k a ns n) = True"
| "certificate_event (EvWait d) = True"
| "certificate_event (EvReadFile p) = True"
| "certificate_event (EvPlural g) = True"
| "certificate_event EvListDefs = True"
| "certificate_event (EvCreate ao o1) = (ko_kind o1 \<in> {crd_kind_name, webhookKind} \<and> ao = no_apply_options)"
| "certificate_event (EvUpdate ao o1) = (ko_kind o1 \<in> {crd_kind_name, webhookKind} \<and> ao = no_apply_options)"
| "certificate_event _ = False"

definition certificate_events :: "event set" where
  "certificate_events = {ev. certificate_event ev}"

lemma cert_events_sub: "cert_events \<subseteq> certificate_events"
  by (auto simp: cert_events_def certificate_events_def)

locale cert_interface =
  fixes C :: "'s cert_iface"
  assumes manage_emits: "emits w_trace certificate_events (ci_ManageCertificates C g)"
    and update_emits: "emits w_trace certificate_events (ci_UpdateExistingResources C)"
    and manage_no_panic: "no_panic (ci_ManageCertificates C g)"
    and update_no_panic: "no_panic (ci_UpdateExistingResources C)"
    and bundle_pure: "\<exists>b. ci_GetCABundle C w = (Ok b, w)"
begin

lemma bundle_emits: "emits w_trace A (ci_GetCABundle C)"
  unfolding emits_def using bundle_pure by (metis append_Nil2 empty_subsetI list.set(1) snd_conv)

text \<open>A client that may do everything certificates do, may call the interface.\<close>

lemma client_emits:
  assumes "certificate_events \<subseteq> A"
  shows "emits w_trace A (ci_ManageCertificates C g)" "emits w_trace A (ci_UpdateExistingResources C)"
    "emits w_trace A (ci_GetCABundle C)"
  using emits_mono [OF manage_emits assms] emits_mono [OF update_emits assms] bundle_emits by auto

end

end
