(* ===== verification/Tgzfs.thy ===== *)
theory Tgzfs
  imports Paths Sample
begin

text \<open>
  \<open>internal/tools/tgzfs\<close>: the file system view of a chart archive. The entries are pointers shared
  between the name map, the root list and the children lists, so they live in a store of nodes and
  are addressed by their index. Decompression and the tar reader are the environment's: the model
  starts from the headers and contents they deliver.
\<close>

section \<open>Nodes and the file system\<close>

text \<open>\<open>entry\<close> (header name, whether it is a directory, content, children) and \<open>fakeDirEntry\<close>.\<close>

datatype dir_entry =
    Entry string bool string "nat list"
  | FakeDir string "nat list"

fun de_name :: "dir_entry \<Rightarrow> string" where
  "de_name (Entry h d b cs) = (if d then Base (Clean h) else Base h)"
| "de_name (FakeDir n cs) = n"

fun de_isDir :: "dir_entry \<Rightarrow> bool" where
  "de_isDir (Entry h d b cs) = d"
| "de_isDir (FakeDir n cs) = True"

fun de_children :: "dir_entry \<Rightarrow> nat list" where
  "de_children (Entry h d b cs) = cs"
| "de_children (FakeDir n cs) = cs"

fun de_append :: "nat \<Rightarrow> dir_entry \<Rightarrow> dir_entry" where
  "de_append c (Entry h d b cs) = Entry h d b (cs @ [c])"
| "de_append c (FakeDir n cs) = FakeDir n (cs @ [c])"

record tarfs =
  tf_nodes :: "dir_entry list"
  tf_entries :: "string \<Rightarrow> nat option"
  tf_rootEntries :: "nat list"
  tf_rootEntry :: "nat option"

definition empty_tarfs :: tarfs where
  "empty_tarfs = \<lparr>tf_nodes = [], tf_entries = (\<lambda>_. None), tf_rootEntries = [], tf_rootEntry = None\<rparr>"

definition new_node :: "dir_entry \<Rightarrow> tarfs \<Rightarrow> nat \<times> tarfs" where
  "new_node e t = (length (tf_nodes t), t\<lparr>tf_nodes := tf_nodes t @ [e]\<rparr>)"

definition add_child :: "nat \<Rightarrow> nat \<Rightarrow> tarfs \<Rightarrow> tarfs" where
  "add_child p c t = t\<lparr>tf_nodes := (tf_nodes t)[p := de_append c (tf_nodes t ! p)]\<rparr>"

text \<open>
  \<open>append\<close>: register the name, then hang the entry below its directory, making a fake directory
  (and, recursively, its parents) when the archive has not shown it yet.
\<close>

function tar_append :: "tarfs \<Rightarrow> string \<Rightarrow> nat \<Rightarrow> tarfs" where
  "tar_append t name e =
     (let t1 = t\<lparr>tf_entries := (tf_entries t)(name \<mapsto> e)\<rparr>; dir = Dir name
      in if dir = ''.'' then t1\<lparr>tf_rootEntries := tf_rootEntries t1 @ [e]\<rparr>
         else (case tf_entries t1 dir of
             Some parent \<Rightarrow> add_child parent e t1
           | None \<Rightarrow>
               (case new_node (FakeDir (Base dir) []) t1 of (parent, t2) \<Rightarrow>
                  add_child parent e (tar_append t2 dir parent))))"
  by pat_completeness auto
termination
proof (relation "measure (\<lambda>(t, name, e). length name)")
  fix t :: tarfs and name e x xa xb y
  assume x: "x = t\<lparr>tf_entries := (tf_entries t)(name \<mapsto> e)\<rparr>" "xa = Dir name" "xa \<noteq> ''.''"
    "tf_entries x xa = None"
  then have "Dir name \<noteq> name" by auto
  with Dir_shorter [of name] x(2,3) show "((y, xa, xb), t, name, e) \<in> measure (\<lambda>(t, name, e). length name)"
    by auto
qed simp

declare tar_append.simps [simp del]

type_synonym tar_header = "string \<times> bool \<times> string"

text \<open>The loop of \<open>New\<close>: entries that clean to \<open>.\<close> are skipped.\<close>

fun tar_load :: "tarfs \<Rightarrow> tar_header list \<Rightarrow> tarfs" where
  "tar_load t [] = t"
| "tar_load t ((hname, isdir, content) # hs) =
     (let name = Clean hname
      in if name = ''.'' then tar_load t hs
         else (case new_node (Entry hname isdir content []) t of
                 (e, t1) \<Rightarrow> tar_load (tar_append t1 name e) hs))"

definition New :: "'s env \<Rightarrow> string \<Rightarrow> err + tarfs" where
  "New E r = (case env_untar E r of Inl e \<Rightarrow> Inl e | Inr hs \<Rightarrow> Inr (tar_load empty_tarfs hs))"

section \<open>Reading\<close>

definition path_error :: "string \<Rightarrow> string \<Rightarrow> string \<Rightarrow> err" where
  "path_error oper path msg = Plain (oper @ '' '' @ path @ '': '' @ msg)"

definition newErrNotDir :: "string \<Rightarrow> string \<Rightarrow> err" where
  "newErrNotDir oper name = path_error oper name ''not a directory''"

definition newErrDir :: "string \<Rightarrow> string \<Rightarrow> err" where
  "newErrDir oper name = path_error oper name ''is a directory''"

text \<open>\<open>io/fs.ValidPath\<close>.\<close>

definition ValidPath :: "string \<Rightarrow> bool" where
  "ValidPath name \<longleftrightarrow> name = ''.'' \<or>
     (\<forall>p \<in> set (split_on slash name). p \<noteq> '''' \<and> p \<noteq> ''.'' \<and> p \<noteq> ''..'')"

definition tar_get :: "tarfs \<Rightarrow> string \<Rightarrow> string \<Rightarrow> err + nat" where
  "tar_get t name oper =
     (if \<not> ValidPath name then Inl (path_error oper name ''invalid argument'')
      else (case tf_entries t name of
          None \<Rightarrow> Inl (path_error oper name ''file does not exist'')
        | Some e \<Rightarrow> Inr e))"

text \<open>
  \<open>sort.Slice\<close> on names sorts the shared slice in place; the result is some permutation ordered by
  name, modelled by insertion sort on the byte order; \<open>ReadDir\<close> returns the file system with the
  sorted children.
\<close>

fun string_less :: "string \<Rightarrow> string \<Rightarrow> bool" where
  "string_less _ [] = False"
| "string_less [] (c # cs) = True"
| "string_less (b # bs) (c # cs) =
     (if of_char b < (of_char c :: nat) then True
      else if b = c then string_less bs cs else False)"

fun insert_by_name :: "tarfs \<Rightarrow> nat \<Rightarrow> nat list \<Rightarrow> nat list" where
  "insert_by_name t x [] = [x]"
| "insert_by_name t x (y # ys) =
     (if string_less (de_name (tf_nodes t ! y)) (de_name (tf_nodes t ! x))
      then y # insert_by_name t x ys else x # y # ys)"

definition sort_by_name :: "tarfs \<Rightarrow> nat list \<Rightarrow> nat list" where
  "sort_by_name t xs = foldr (insert_by_name t) xs []"

fun de_with_children :: "nat list \<Rightarrow> dir_entry \<Rightarrow> dir_entry" where
  "de_with_children cs (Entry h d b cs0) = Entry h d b cs"
| "de_with_children cs (FakeDir n cs0) = FakeDir n cs"

definition ReadDir :: "tarfs \<Rightarrow> string \<Rightarrow> (err + nat list) \<times> tarfs" where
  "ReadDir t name =
     (if name = ''.'' then (Inr (tf_rootEntries t), t)
      else (case tar_get t name ''readdir'' of
          Inl e \<Rightarrow> (Inl e, t)
        | Inr e \<Rightarrow>
            if \<not> de_isDir (tf_nodes t ! e) then (Inl (newErrNotDir ''readdir'' name), t)
            else (let es = sort_by_name t (de_children (tf_nodes t ! e))
                  in (Inr es, t\<lparr>tf_nodes := (tf_nodes t)[e := de_with_children es (tf_nodes t ! e)]\<rparr>))))"

definition ReadFile :: "tarfs \<Rightarrow> string \<Rightarrow> err + string" where
  "ReadFile t name =
     (if name = ''.'' then Inl (newErrDir ''readfile'' name)
      else (case tar_get t name ''readfile'' of
          Inl e \<Rightarrow> Inl e
        | Inr e \<Rightarrow>
            (case tf_nodes t ! e of
               FakeDir n cs \<Rightarrow> Inl (newErrDir ''readfile'' name)
             | Entry h d b cs \<Rightarrow> if d then Inl (newErrDir ''readfile'' name) else Inr b)))"

text \<open>An open file: the root pseudo file, or a node, with the position of its directory reader.\<close>

datatype open_file = RootFile nat | NodeFile nat nat

definition Open :: "tarfs \<Rightarrow> string \<Rightarrow> err + open_file" where
  "Open t name =
     (if name = ''.'' then
        (case tf_rootEntry t of None \<Rightarrow> Inr (RootFile 0) | Some e \<Rightarrow> Inr (NodeFile e 0))
      else (case tar_get t name ''open'' of Inl e \<Rightarrow> Inl e | Inr e \<Rightarrow> Inr (NodeFile e 0)))"

text \<open>\<open>io.ReadAll\<close> of an open file.\<close>

definition ReadAll :: "tarfs \<Rightarrow> open_file \<Rightarrow> err + string" where
  "ReadAll t f =
     (case f of
        RootFile pos \<Rightarrow> Inl (newErrDir ''read'' ''.'')
      | NodeFile e pos \<Rightarrow>
          (case tf_nodes t ! e of
             Entry h d b cs \<Rightarrow> if d then Inl (newErrDir ''read'' (de_name (tf_nodes t ! e))) else Inr b
           | FakeDir n cs \<Rightarrow> Inl (newErrDir ''read'' n)))"

definition file_isDir :: "tarfs \<Rightarrow> open_file \<Rightarrow> bool" where
  "file_isDir t f = (case f of RootFile pos \<Rightarrow> True | NodeFile e pos \<Rightarrow> de_isDir (tf_nodes t ! e))"

definition file_entries :: "tarfs \<Rightarrow> open_file \<Rightarrow> nat list" where
  "file_entries t f = (case f of
     RootFile pos \<Rightarrow> tf_rootEntries t | NodeFile e pos \<Rightarrow> de_children (tf_nodes t ! e))"

definition file_pos :: "open_file \<Rightarrow> nat" where
  "file_pos f = (case f of RootFile pos \<Rightarrow> pos | NodeFile e pos \<Rightarrow> pos)"

definition set_file_pos :: "nat \<Rightarrow> open_file \<Rightarrow> open_file" where
  "set_file_pos p f = (case f of RootFile pos \<Rightarrow> RootFile p | NodeFile e pos \<Rightarrow> NodeFile e p)"

definition EOF :: err where "EOF = Plain ''EOF''"

text \<open>\<open>ReadDir(n)\<close> of an open directory: the entries from the position on, at most \<open>n\<close> if positive.\<close>

definition file_ReadDir :: "tarfs \<Rightarrow> open_file \<Rightarrow> int \<Rightarrow> (err + nat list) \<times> open_file" where
  "file_ReadDir t f n =
     (if \<not> file_isDir t f
      then (Inl (newErrNotDir ''readdir'' (case f of RootFile p \<Rightarrow> ''.''
              | NodeFile e p \<Rightarrow> de_name (tf_nodes t ! e))), f)
      else
        (let es = file_entries t f; pos = file_pos f
         in if pos \<ge> length es then (if n \<le> 0 then (Inr [], f) else (Inl EOF, f))
            else if n > 0 \<and> pos + nat n \<le> length es
            then (Inr (take (nat n) (drop pos es)), set_file_pos (pos + nat n) f)
            else (let rest = drop pos es in (Inr rest, set_file_pos (pos + length rest) f))))"

definition has_prefix :: "string \<Rightarrow> string \<Rightarrow> bool" where
  "has_prefix p s \<longleftrightarrow> take (length p) s = p"

text \<open>\<open>Sub\<close>: the entries below a directory, under their names relative to it.\<close>

definition Sub :: "tarfs \<Rightarrow> string \<Rightarrow> err + tarfs" where
  "Sub t dir =
     (if dir = ''.'' then Inr t
      else (case tar_get t dir ''sub'' of
          Inl e \<Rightarrow> Inl e
        | Inr e \<Rightarrow>
            if \<not> de_isDir (tf_nodes t ! e) then Inl (newErrNotDir ''sub'' dir)
            else Inr (t\<lparr>tf_entries := (\<lambda>name. tf_entries t (dir @ ''/'' @ name)),
                        tf_rootEntries := de_children (tf_nodes t ! e), tf_rootEntry := Some e\<rparr>)))"

section \<open>Loading keeps every entry\<close>

text \<open>What a node is apart from its children.\<close>

fun de_payload :: "dir_entry \<Rightarrow> dir_entry" where
  "de_payload (Entry h d b cs) = Entry h d b []"
| "de_payload (FakeDir n cs) = FakeDir n []"

lemma de_payload_append [simp]: "de_payload (de_append c e) = de_payload e"
  by (cases e) simp_all

definition payloads :: "tarfs \<Rightarrow> dir_entry list" where
  "payloads t = map de_payload (tf_nodes t)"

lemma payloads_add_child [simp]: "payloads (add_child p c t) = payloads t"
proof (cases "p < length (tf_nodes t)")
  case True
  then have "(map de_payload (tf_nodes t))[p := de_payload (tf_nodes t ! p)] = map de_payload (tf_nodes t)"
    by (metis list_update_id map_update)
  then show ?thesis by (simp add: payloads_def add_child_def map_update)
qed (simp add: payloads_def add_child_def list_update_beyond)

lemma entries_add_child [simp]: "tf_entries (add_child p c t) = tf_entries t"
  by (simp add: add_child_def)

lemma payloads_new_node: "new_node e t = (i, t1) \<Longrightarrow> payloads t1 = payloads t @ [de_payload e] \<and>
   i = length (payloads t) \<and> tf_entries t1 = tf_entries t"
  by (auto simp: new_node_def payloads_def)

lemma tar_append_keeps:
  "(\<exists>ns. payloads (tar_append t name e) = payloads t @ ns) \<and>
   (\<forall>n i. n \<noteq> name \<longrightarrow> tf_entries t n = Some i \<longrightarrow> tf_entries (tar_append t name e) n = Some i) \<and>
   tf_entries (tar_append t name e) name = Some e"
proof (induction t name e rule: tar_append.induct)
  case (1 t name e)
  let ?t1 = "t\<lparr>tf_entries := (tf_entries t)(name \<mapsto> e)\<rparr>" and ?dir = "Dir name"
  have p1: "payloads ?t1 = payloads t" by (simp add: payloads_def)
  consider "?dir = ''.''" | p where "?dir \<noteq> ''.''" "tf_entries ?t1 ?dir = Some p"
    | "?dir \<noteq> ''.''" "tf_entries ?t1 ?dir = None" by fastforce
  then show ?case
  proof cases
    case 1
    then show ?thesis by (subst (1 2 3) tar_append.simps) (simp add: Let_def payloads_def)
  next
    case 2
    then show ?thesis by (subst (1 2 3) tar_append.simps) (simp add: Let_def p1)
  next
    case 3
    obtain q t2 where n: "new_node (FakeDir (Base ?dir) []) ?t1 = (q, t2)" by fastforce
    note new = payloads_new_node [OF n]
    have step: "tar_append t name e = add_child q e (tar_append t2 ?dir q)"
      using 3 n by (subst tar_append.simps) (simp add: Let_def)
    have neq: "?dir \<noteq> name" using 3(2) by auto
    from 1 [OF refl refl 3 n [symmetric]] obtain ns where
      ih: "payloads (tar_append t2 ?dir q) = payloads t2 @ ns"
      "\<And>m i. m \<noteq> ?dir \<Longrightarrow> tf_entries t2 m = Some i \<Longrightarrow> tf_entries (tar_append t2 ?dir q) m = Some i"
      by blast
    have "tf_entries (tar_append t2 ?dir q) m = Some i" if "m \<noteq> name" "tf_entries t m = Some i" for m i
    proof (rule ih(2))
      show "m \<noteq> ?dir" using 3(2) neq that by auto
      show "tf_entries t2 m = Some i" using new that by simp
    qed
    moreover have "tf_entries (tar_append t2 ?dir q) name = Some e"
      using ih(2) neq new by simp
    ultimately show ?thesis using ih(1) new p1 unfolding step by simp
  qed
qed


lemma tar_load_keeps:
  "(\<exists>ns. payloads (tar_load t hs) = payloads t @ ns) \<and>
   (\<forall>n i. (\<forall>h \<in> set hs. Clean (fst h) \<noteq> n) \<longrightarrow> tf_entries t n = Some i \<longrightarrow> tf_entries (tar_load t hs) n = Some i)"
proof (induction t hs rule: tar_load.induct)
  case (2 t hname isdir content hs)
  show ?case
  proof (cases "Clean hname = ''.''")
    case True
    with 2(1) show ?thesis by (simp add: Let_def)
  next
    case False
    obtain e t1 where n: "new_node (Entry hname isdir content []) t = (e, t1)" by fastforce
    from 2(2) [OF refl False n [symmetric]] payloads_new_node [OF n]
      tar_append_keeps [of t1 "Clean hname" e]
    show ?thesis using False n by (auto simp: Let_def)
  qed
qed simp

lemma tar_load_append: "tar_load t (hs @ hs') = tar_load (tar_load t hs) hs'"
  by (induction t hs rule: tar_load.induct) (auto simp: Let_def split: prod.split)

text \<open>
  The archive has a regular file of that cleaned name and content, and no later entry of the same
  name replaces it.
\<close>

definition has_file :: "tar_header list \<Rightarrow> string \<Rightarrow> string \<Rightarrow> bool" where
  "has_file hs name content \<longleftrightarrow> ValidPath name \<and> name \<noteq> ''.'' \<and>
     (\<exists>pre hname post. hs = pre @ (hname, False, content) # post \<and> Clean hname = name \<and>
        (\<forall>h \<in> set post. Clean (fst h) \<noteq> name))"

lemma tar_node:
  assumes "env_untar E r = Inr hs" and "has_file hs name content" and "New E r = Inr t"
  shows "\<exists>e h cs. tf_entries t name = Some e \<and> tf_nodes t ! e = Entry h False content cs"
proof -
  obtain pre hname post where hs: "hs = pre @ (hname, False, content) # post"
      and name: "name = Clean hname" "name \<noteq> ''.''" and post: "\<forall>h \<in> set post. Clean (fst h) \<noteq> name"
    using assms(2) unfolding has_file_def by blast
  let ?t0 = "tar_load empty_tarfs pre"
  obtain e t1 where n: "new_node (Entry hname False content []) ?t0 = (e, t1)" by fastforce
  let ?t2 = "tar_append t1 name e"
  have t: "t = tar_load ?t2 post"
    using assms(1,3) hs name n by (simp add: New_def tar_load_append Let_def)
  from tar_load_keeps [of ?t2 post] obtain ns where
    load: "payloads t = payloads ?t2 @ ns" and ent: "tf_entries t name = Some e"
    using post tar_append_keeps [of t1 name e] unfolding t by blast
  obtain ms where "payloads ?t2 = payloads t1 @ ms" using tar_append_keeps by blast
  with load payloads_new_node [OF n] have
    "payloads t = payloads ?t0 @ Entry hname False content [] # (ms @ ns)" "e = length (payloads ?t0)"
    by simp_all
  then have len: "e < length (payloads t)" and nth: "payloads t ! e = Entry hname False content []"
    by (simp_all only: nth_append_length) simp
  from nth have "de_payload (tf_nodes t ! e) = Entry hname False content []"
    using len by (simp add: payloads_def)
  then show ?thesis using ent by (cases "tf_nodes t ! e") auto
qed

lemma has_file_read:
  assumes "env_untar E r = Inr hs" and "has_file hs name content" and "New E r = Inr t"
  shows "\<exists>f. Open t name = Inr f \<and> ReadAll t f = Inr content"
  using tar_node [OF assms] assms(2)
  by (auto simp: has_file_def Open_def ReadAll_def tar_get_def)

text \<open>
  C34: the file system view gives back the archive. A regular file of the archive that no later entry
  of the same cleaned name replaces is read with exactly its content, by \<open>ReadFile\<close> and by opening
  it and reading to the end, whatever other entries and implied directories the archive has.
\<close>

theorem tar_roundtrip:
  assumes "env_untar E r = Inr hs" and "has_file hs name content" and "New E r = Inr t"
  shows "ReadFile t name = Inr content \<and>
    (\<exists>f. Open t name = Inr f \<and> ReadAll t f = Inr content)"
  using tar_node [OF assms] has_file_read [OF assms] assms(2)
  by (auto simp: has_file_def ReadFile_def tar_get_def)

theorem tar_roundtrip_witness:
  "\<exists>t. New sample_env ''1.0.0'' = Inr t \<and> ReadFile t ''chart/Chart.yaml'' = Inr ''1.0.0''"
proof -
  let ?hs = "[(''chart'', True, '''')] @ (''chart/Chart.yaml'', False, ''1.0.0'') #
     [(''chart/values.schema.json'', False, ''{}'')]"
  have untar: "env_untar sample_env ''1.0.0'' = Inr ?hs" by (simp add: sample_env_def)
  then obtain t where t: "New sample_env ''1.0.0'' = Inr t" by (simp add: New_def)
  have "Clean ''chart/Chart.yaml'' = ''chart/Chart.yaml''"
    "Clean ''chart/values.schema.json'' = ''chart/values.schema.json''"
    "ValidPath ''chart/Chart.yaml''" by code_simp+
  then have "has_file ?hs ''chart/Chart.yaml'' ''1.0.0''"
    unfolding has_file_def by (intro conjI exI [of _ "[(''chart'', True, '''')]"] exI) auto
  from tar_roundtrip [OF untar this t] t show ?thesis by simp
qed

section \<open>Metadata, patterns and chunked reading\<close>

text \<open>
  \<open>fs.FileInfo\<close> as far as it is determined here: name, size and whether it is a directory. (Permissions and
  times of a tar header are carried by the library.)
\<close>

record file_info =
  fi_name :: string
  fi_size :: int
  fi_isDir :: bool

text \<open>A \<open>fakeDirEntry\<close> is its own metadata: a directory of size zero.\<close>

definition fake_info :: "string \<Rightarrow> file_info" where
  "fake_info n = \<lparr>fi_name = n, fi_size = 0, fi_isDir = True\<rparr>"

fun de_info :: "dir_entry \<Rightarrow> file_info" where
  "de_info (Entry h d b cs) = \<lparr>fi_name = de_name (Entry h d b cs), fi_size = int (length b), fi_isDir = d\<rparr>"
| "de_info (FakeDir n cs) = fake_info n"

definition root_info :: file_info where
  "root_info = \<lparr>fi_name = ''.'', fi_size = 0, fi_isDir = True\<rparr>"

definition Stat :: "tarfs \<Rightarrow> string \<Rightarrow> err + file_info" where
  "Stat t name =
     (if name = ''.'' then
        (case tf_rootEntry t of None \<Rightarrow> Inr root_info | Some e \<Rightarrow> Inr (de_info (tf_nodes t ! e)))
      else (case tar_get t name ''stat'' of Inl e \<Rightarrow> Inl e | Inr e \<Rightarrow> Inr (de_info (tf_nodes t ! e))))"

definition file_Stat :: "tarfs \<Rightarrow> open_file \<Rightarrow> file_info" where
  "file_Stat t f = (case f of RootFile pos \<Rightarrow> root_info | NodeFile e pos \<Rightarrow> de_info (tf_nodes t ! e))"

lemma Stat_Open: "Open t name = Inr f \<Longrightarrow> Stat t name = Inr (file_Stat t f)"
  by (auto simp: Open_def Stat_def file_Stat_def tar_get_def split: option.splits if_splits)

text \<open>
  \<open>Glob\<close> walks the map of names in some order \<open>names\<close>; \<open>pmatch\<close> is \<open>path.Match\<close>.
\<close>

fun glob_names :: "(string \<Rightarrow> string \<Rightarrow> err + bool) \<Rightarrow> string \<Rightarrow> string list \<Rightarrow> err + string list" where
  "glob_names pmatch pat [] = Inr []"
| "glob_names pmatch pat (n # ns) =
     (case pmatch pat n of
        Inl e \<Rightarrow> Inl e
      | Inr hit \<Rightarrow>
          (case glob_names pmatch pat ns of
             Inl e \<Rightarrow> Inl e | Inr found \<Rightarrow> Inr (if hit then n # found else found)))"

definition iterates :: "tarfs \<Rightarrow> string list \<Rightarrow> bool" where
  "iterates t names \<longleftrightarrow> distinct names \<and> (\<forall>n. n \<in> set names \<longleftrightarrow> tf_entries t n \<noteq> None)"

definition Glob :: "(string \<Rightarrow> string \<Rightarrow> err + bool) \<Rightarrow> string list \<Rightarrow> string \<Rightarrow> err + string list" where
  "Glob pmatch names pat = glob_names pmatch pat names"

lemma Glob_matches:
  "Glob pmatch names pat = Inr found \<Longrightarrow> found = filter (\<lambda>n. pmatch pat n = Inr True) names"
  unfolding Glob_def by (induction names arbitrary: found) (auto split: sum.splits)

text \<open>
  \<open>Read\<close> and \<open>Seek\<close> of an open file: the position of the reader over its content, as \<open>bytes.Reader\<close> keeps
  it. A read at the end gives \<open>EOF\<close>.
\<close>

definition file_Read :: "tarfs \<Rightarrow> open_file \<Rightarrow> nat \<Rightarrow> nat \<Rightarrow> (err + string) \<times> nat" where
  "file_Read t f len pos =
     (case ReadAll t f of
        Inl e \<Rightarrow> (Inl e, pos)
      | Inr b \<Rightarrow> if pos \<ge> length b then (Inl EOF, pos)
                 else (let s = take len (drop pos b) in (Inr s, pos + length s)))"

definition file_Seek :: "tarfs \<Rightarrow> open_file \<Rightarrow> int \<Rightarrow> int \<Rightarrow> nat \<Rightarrow> (err + int) \<times> nat" where
  "file_Seek t f offset whence pos =
     (case f of
        RootFile p \<Rightarrow> (Inl (Plain ''not a seeker''), pos)
      | NodeFile e p \<Rightarrow>
          (case tf_nodes t ! e of
             FakeDir n cs \<Rightarrow> (Inl (newErrDir ''seek'' n), pos)
           | Entry h d b cs \<Rightarrow>
               if d then (Inl (newErrDir ''seek'' (de_name (tf_nodes t ! e))), pos)
               else if whence \<notin> {0, 1, 2} then (Inl (Plain ''bytes.Reader.Seek: invalid whence''), pos)
               else
                 (let base = (if whence = 0 then 0 else if whence = 1 then int pos else int (length b));
                      target = base + offset
                  in if target < 0 then (Inl (Plain ''bytes.Reader.Seek: negative position''), pos)
                     else (Inr target, nat target))))"

text \<open>\<open>io.ReadAll\<close> as its loop of reads, with a buffer of \<open>Suc k\<close> bytes: any size gives the whole content.\<close>

function read_loop :: "tarfs \<Rightarrow> open_file \<Rightarrow> nat \<Rightarrow> nat \<Rightarrow> err + string" where
  "read_loop t f k pos =
     (case file_Read t f (Suc k) pos of
        (Inl e, pos2) \<Rightarrow> if e = EOF then Inr '''' else Inl e
      | (Inr s, pos2) \<Rightarrow> (case read_loop t f k pos2 of Inl e \<Rightarrow> Inl e | Inr rest \<Rightarrow> Inr (s @ rest)))"
  by pat_completeness auto
termination
  by (relation "measure (\<lambda>(t, f, k, pos). case ReadAll t f of Inl e \<Rightarrow> 0 | Inr b \<Rightarrow> length b - pos)")
    (auto simp: file_Read_def Let_def split: sum.splits if_splits)

lemma read_loop_content: "ReadAll t f = Inr b \<Longrightarrow> read_loop t f k pos = Inr (drop pos b)"
proof (induction "length b - pos" arbitrary: pos rule: less_induct)
  case less
  show ?case
  proof (cases "pos < length b")
    case False
    with less.prems show ?thesis by (subst read_loop.simps) (simp add: file_Read_def)
  next
    case True
    let ?s = "take (Suc k) (drop pos b)"
    from True have "length b - (pos + length ?s) < length b - pos" by simp
    from less.hyps [OF this less.prems] have
      "read_loop t f k (pos + length ?s) = Inr (drop (pos + length ?s) b)" .
    moreover have "?s @ drop (pos + length ?s) b = drop pos b"
      by (metis append_take_drop_id drop_drop add.commute length_take take_drop drop_take
          linorder_le_cases min.absorb1 min.absorb2 drop_all take_all)
    ultimately show ?thesis
      using True less.prems by (subst read_loop.simps) (simp add: file_Read_def Let_def)
  qed
qed

end
