(* ===== verification/Chart.thy ===== *)
theory Chart
  imports Tgzfs Retry
begin

text \<open>
  \<open>internal/tools/strutil\<close>, \<open>resolvers\<close>, \<open>pluralizer\<close>, \<open>chart\<close> and \<open>chartfs\<close>: fetching a chart,
  finding its root directory, and deriving the group, version, kind and resource of its
  compositions. Names are ASCII.
\<close>

section \<open>strutil\<close>

definition code :: "char \<Rightarrow> nat" where
  "code c = of_char c"

definition isLetter :: "char \<Rightarrow> bool" where
  "isLetter c \<longleftrightarrow> (97 \<le> code c \<and> code c \<le> 122) \<or> (65 \<le> code c \<and> code c \<le> 90)"

definition isDigit :: "char \<Rightarrow> bool" where
  "isDigit c \<longleftrightarrow> 48 \<le> code c \<and> code c \<le> 57"

definition isNotAGoNameCharacter :: "char \<Rightarrow> bool" where
  "isNotAGoNameCharacter r = (if isLetter r \<or> isDigit r then False else True)"

definition toUpper :: "char \<Rightarrow> char" where
  "toUpper c = (if 97 \<le> code c \<and> code c \<le> 122 then char_of (code c - 32) else c)"

definition CapitaliseFirstLetter :: "string \<Rightarrow> string" where
  "CapitaliseFirstLetter s = (case s of [] \<Rightarrow> s | c # suffix \<Rightarrow> toUpper c # suffix)"

text \<open>The loop of \<open>splitOnAll\<close>: \<open>buf\<close> holds the current part.\<close>

fun split_all :: "(char \<Rightarrow> bool) \<Rightarrow> string \<Rightarrow> string list \<Rightarrow> string \<Rightarrow> string list" where
  "split_all p buf rv [] = (if length buf > 0 then rv @ [buf] else rv)"
| "split_all p buf rv (c # cs) =
     (if p c then split_all p '''' (rv @ [buf]) cs else split_all p (buf @ [c]) rv cs)"

definition splitOnAll :: "string \<Rightarrow> (char \<Rightarrow> bool) \<Rightarrow> string list" where
  "splitOnAll s shouldSplit = split_all shouldSplit '''' [] s"

text \<open>\<open>strings.IndexAny(v, "0123456789") == 0\<close>: the first character is a digit.\<close>

definition starts_with_digit :: "string \<Rightarrow> bool" where
  "starts_with_digit v = (case v of [] \<Rightarrow> False | c # _ \<Rightarrow> isDigit c)"

definition ToGolangName :: "string \<Rightarrow> string" where
  "ToGolangName s =
     concat (map (\<lambda>(i, v). (if i = 0 \<and> starts_with_digit v then ''_'' else '''') @ CapitaliseFirstLetter v)
       (enumerate 0 (splitOnAll s isNotAGoNameCharacter)))"

section \<open>resolvers and pluralizer\<close>

definition GetSecret :: "'s env \<Rightarrow> secret_ref \<Rightarrow> ('s world, string) prog" where
  "GetSecret E ref =
     thenP (get_secret E (sk_namespace ref) (sk_name ref)) (\<lambda>dat.
     returnP (case fmlookup dat (sk_key ref) of None \<Rightarrow> '''' | Some v \<Rightarrow> v))"

definition GVKtoGVR :: "'s env \<Rightarrow> gvk \<Rightarrow> ('s world, gvr) prog" where
  "GVKtoGVR E g =
     thenP (plurals_get E g) (\<lambda>plural.
     returnP \<lparr>gvr_group = gvk_group g, gvr_version = gvk_version g, gvr_resource = plural\<rparr>)"

section \<open>Fetching\<close>

definition chartRetryAttempts :: int where "chartRetryAttempts = 5"
definition chartRetryInitialDelay :: int where "chartRetryInitialDelay = 250 * millisecond"
definition chartRetryMaximumDelay :: int where "chartRetryMaximumDelay = 2 * second"

definition isNonRetryableChartError :: "'s env \<Rightarrow> err \<Rightarrow> bool" where
  "isNonRetryableChartError E e =
     (if ae_IsForbidden (env_errors E) e \<or> ae_IsUnauthorized (env_errors E) e \<or> IsNotFound E e \<or>
         ae_IsInvalid (env_errors E) e \<or> ae_IsBadRequest (env_errors E) e then True
      else (case status_code e of
          Some c \<Rightarrow> if c = 401 \<or> c = 403 \<or> c = 404 \<or> c = 422 \<or> c = 400 then True else False
        | None \<Rightarrow> False))"

definition isRetryableChartError :: "'s env \<Rightarrow> err \<Rightarrow> bool" where
  "isRetryableChartError E e =
     (if errors_is e Canceled then False
      else if errors_is e DeadlineExceeded then True
      else if isNonRetryableChartError E e then False
      else (case as_net_error e of
          Some (timeout, temporary) \<Rightarrow> if timeout \<or> temporary then True else True
        | None \<Rightarrow> True))"

interpretation chart_errors: retry_classifier "isRetryableChartError E" for E :: "'s env"
  by unfold_locales (simp_all add: isRetryableChartError_def)

definition chart_retry :: "'s env \<Rightarrow> 's world retry_config" where
  "chart_retry E = \<lparr>rc_attempts = chartRetryAttempts, rc_initial = chartRetryInitialDelay,
     rc_maximum = chartRetryMaximumDelay, rc_wait = Some (Wait E),
     rc_retryable = Some (isRetryableChartError E), rc_onRetry = Some (\<lambda>attempt delay e w. w)\<rparr>"

text \<open>One fetch.\<close>

definition fetch_attempt :: "'s env \<Rightarrow> chart_request \<Rightarrow> ('s world, string) prog" where
  "fetch_attempt E q =
     thenP (wrapping ''failed to get chart: '' (get_chart E q)) (\<lambda>(dat, url).
     case dat of
       None \<Rightarrow> failP (Plain ''failed to get chart: empty response reader'')
     | Some rd \<Rightarrow> wrapping ''failed to read chart: '' (liftSum rd))"

definition chartBytesFromSpecWithRetry :: "'s env \<Rightarrow> chart_request \<Rightarrow> ('s world, string) prog" where
  "chartBytesFromSpecWithRetry E q =
     wrapping ''failed to get chart after 5 attempts: ''
       (Do (Wait E) (chart_retry E) (fetch_attempt E q))"

text \<open>The getter options from the spec, the secret resolved when credentials are given.\<close>

definition chart_options :: "'s env \<Rightarrow> chart_info \<Rightarrow> ('s world, chart_request) prog" where
  "chart_options E nfo =
     (let q = \<lparr>cq_url = ci_url nfo, cq_repo = ci_repo nfo, cq_version = ci_version nfo,
               cq_insecure = ci_insecureSkipVerifyTLS nfo, cq_credentials = None\<rparr>
      in case ci_credentials nfo of
           None \<Rightarrow> returnP q
         | Some cred \<Rightarrow>
             thenP (wrapping ''failed to get secret: '' (GetSecret E (cr_passwordRef cred))) (\<lambda>secret.
             returnP (q\<lparr>cq_credentials := Some (cr_username cred, secret)\<rparr>)))"

definition one_root :: err where
  "one_root = Plain ''tgz archive should contain only one root dir''"

definition ChartInfoFromBytes :: "'s env \<Rightarrow> string \<Rightarrow> err + tarfs \<times> string" where
  "ChartInfoFromBytes E bin =
     (case New E bin of
        Inl e \<Rightarrow> Inl e
      | Inr pkg \<Rightarrow>
          (case fst (ReadDir pkg ''.'') of
             Inl e \<Rightarrow> Inl e
           | Inr all \<Rightarrow>
               if length all \<noteq> 1 then Inl one_root
               else Inr (pkg, de_name (tf_nodes pkg ! hd all))))"

definition nil_chart_info :: err where "nil_chart_info = Plain ''chart infos cannot be nil''"

definition ChartInfoFromSpec ::
  "'s env \<Rightarrow> chart_info option \<Rightarrow> ('s world, tarfs \<times> string) prog" where
  "ChartInfoFromSpec E nfo =
     (case nfo of None \<Rightarrow> failP nil_chart_info | Some ci \<Rightarrow>
     thenP (chart_options E ci) (\<lambda>q.
     thenP (chartBytesFromSpecWithRetry E q) (\<lambda>bData.
     liftSum (ChartInfoFromBytes E bData))))"

section \<open>Group, version and kind\<close>

definition defaultGroup :: string where "defaultGroup = ''composition.krateo.io''"

definition replace_all :: "char \<Rightarrow> char \<Rightarrow> string \<Rightarrow> string" where
  "replace_all a b s = map (\<lambda>c. if c = a then b else c) s"

definition version_label :: "string \<Rightarrow> string" where
  "version_label v = ''v'' @ replace_all CHR ''.'' CHR ''-'' v"

text \<open>
  \<open>res["version"].(string)\<close> without the comma-ok form: a field that is missing or not a string
  panics.
\<close>

definition assert_string :: "gval option \<Rightarrow> string outcome" where
  "assert_string v = (case v of
     Some (GStr s) \<Rightarrow> Ok s
   | _ \<Rightarrow> Panic ''interface conversion: interface {} is not string'')"

definition gvk_of_fields :: "'s env \<Rightarrow> (string, gval) fmap \<Rightarrow> gvk outcome" where
  "gvk_of_fields E res =
     (case assert_string (fmlookup res ''version'') of
        Ok version \<Rightarrow>
          (case assert_string (fmlookup res ''name'') of
             Ok name \<Rightarrow> Ok \<lparr>gvk_group = defaultGroup, gvk_version = version_label version,
                 gvk_kind = env_pascalize E (ToGolangName name)\<rparr>
           | Err e \<Rightarrow> Err e | Panic s \<Rightarrow> Panic s)
      | Err e \<Rightarrow> Err e
      | Panic s \<Rightarrow> Panic s)"

definition read_path :: "tarfs \<Rightarrow> string \<Rightarrow> err + string" where
  "read_path t path = (case Open t path of Inl e \<Rightarrow> Inl e | Inr fin \<Rightarrow> ReadAll t fin)"

definition ChartGroupVersionKind :: "'s env \<Rightarrow> tarfs \<Rightarrow> string \<Rightarrow> gvk outcome" where
  "ChartGroupVersionKind E tgzFS rootDir =
     (case read_path tgzFS (rootDir @ ''/Chart.yaml'') of
        Inl e \<Rightarrow> Err e
      | Inr din \<Rightarrow>
          (case env_yaml_fields E din of
             Inl e \<Rightarrow> Err e
           | Inr res \<Rightarrow> gvk_of_fields E res))"

definition ChartJsonSchema :: "tarfs \<Rightarrow> string \<Rightarrow> err + string" where
  "ChartJsonSchema tgzFS rootDir = read_path tgzFS (rootDir @ ''/values.schema.json'')"

section \<open>chartfs\<close>

record chart_fs =
  cf_packageURL :: string
  cf_rootdir :: string
  cf_fs :: tarfs

definition archive_one_root :: err where
  "archive_one_root = Plain ''archive should contain only one root dir''"

definition FromReader :: "'s env \<Rightarrow> err + string \<Rightarrow> string \<Rightarrow> err + chart_fs" where
  "FromReader E reader pkgurl =
     (case (case reader of Inl e \<Rightarrow> Inl e | Inr content \<Rightarrow> New E content) of
        Inl e \<Rightarrow> Inl e
      | Inr pkg \<Rightarrow>
          (case fst (ReadDir pkg ''.'') of
             Inl e \<Rightarrow> Inl e
           | Inr all \<Rightarrow>
               (let dirs = map (\<lambda>el. de_name (tf_nodes pkg ! el))
                             (filter (\<lambda>el. de_isDir (tf_nodes pkg ! el)) all)
                in if length dirs \<noteq> 1 then Inl archive_one_root
                   else Inr \<lparr>cf_packageURL = pkgurl, cf_rootdir = hd dirs, cf_fs = pkg\<rparr>)))"

text \<open>
  \<open>ForSpec\<close> fetches once, without retry. A nil reader panics when the decompressor reads from it.
\<close>

definition ForSpec :: "'s env \<Rightarrow> chart_info option \<Rightarrow> ('s world, chart_fs) prog" where
  "ForSpec E nfo =
     (case nfo of None \<Rightarrow> failP nil_chart_info | Some ci \<Rightarrow>
     thenP (chart_options E ci) (\<lambda>q.
     thenP (get_chart E q) (\<lambda>(dat, url).
     case dat of
       None \<Rightarrow> panicP ''invalid memory address or nil pointer dereference''
     | Some rd \<Rightarrow> liftSum (FromReader E rd url))))"

definition GroupVersionKind :: "'s env \<Rightarrow> chart_fs \<Rightarrow> gvk outcome" where
  "GroupVersionKind E f =
     (case read_path (cf_fs f) (cf_rootdir f @ ''/Chart.yaml'') of
        Inl e \<Rightarrow> Err e
      | Inr din \<Rightarrow>
          (case env_yaml_fields E din of
             Inl e \<Rightarrow> Err e
           | Inr res \<Rightarrow> gvk_of_fields E res))"

section \<open>Names\<close>

lemma code_char_of [simp]: "n < 256 \<Longrightarrow> code (char_of n) = n"
  by (simp add: code_def)

lemma code_toUpper: "code (toUpper c) = (if 97 \<le> code c \<and> code c \<le> 122 then code c - 32 else code c)"
proof (cases "97 \<le> code c \<and> code c \<le> 122")
  case True
  then have "code c - 32 < 256" by linarith
  with True show ?thesis by (simp add: toUpper_def)
next
  case False
  then show ?thesis by (metis toUpper_def)
qed

lemma toUpper_name: "isLetter c \<or> isDigit c \<Longrightarrow> isLetter (toUpper c) \<or> isDigit (toUpper c)"
  unfolding isLetter_def isDigit_def code_toUpper by presburger

lemma toUpper_digit: "isDigit (toUpper c) \<Longrightarrow> isLetter c \<or> isDigit c \<Longrightarrow> isDigit c"
  unfolding isLetter_def isDigit_def code_toUpper by presburger

lemma name_character: "\<not> isNotAGoNameCharacter c \<longleftrightarrow> isLetter c \<or> isDigit c"
  by (simp add: isNotAGoNameCharacter_def)

lemma split_all_concat: "concat (split_all p buf rv s) = concat rv @ buf @ filter (\<lambda>c. \<not> p c) s"
  by (induction s arbitrary: buf rv) simp_all

lemma split_all_parts: "v \<in> set (split_all p [] [] s) \<Longrightarrow> c \<in> set v \<Longrightarrow> \<not> p c"
proof -
  assume "v \<in> set (split_all p [] [] s)" "c \<in> set v"
  then have "c \<in> set (concat (split_all p [] [] s))" by auto
  then show "\<not> p c" by (simp add: split_all_concat)
qed

lemma split_all_head:
  "\<not> p c \<Longrightarrow> \<exists>v vs. split_all p (c # buf) [] s = (c # v) # vs"
proof (induction s arbitrary: buf)
  case (Cons d s)
  have keep: "\<exists>vs. split_all p b (r # rs) s = r # vs" for b r rs
    by (induction s arbitrary: b rs) auto
  show ?case
  proof (cases "p d")
    case True
    with keep [of "[]" "c # buf" "[]"] show ?thesis by auto
  next
    case False
    with Cons.IH [of "buf @ [d]"] Cons.prems show ?thesis by simp
  qed
qed simp

lemma CapitaliseFirstLetter_chars:
  "\<forall>c \<in> set v. isLetter c \<or> isDigit c \<Longrightarrow> c \<in> set (CapitaliseFirstLetter v) \<Longrightarrow>
   isLetter c \<or> isDigit c"
  using toUpper_name by (auto simp: CapitaliseFirstLetter_def split: list.splits)

lemma CapitaliseFirstLetter_length [simp]: "length (CapitaliseFirstLetter v) = length v"
  by (simp add: CapitaliseFirstLetter_def split: list.split)

lemma starts_with_digit_Cons [simp]: "starts_with_digit (c # v) = isDigit c"
  by (simp add: starts_with_digit_def)

lemma tail_names: "n > 0 \<Longrightarrow>
  concat (map (\<lambda>(i, v). (if i = (0::nat) \<and> starts_with_digit v then ''_'' else '''') @
    CapitaliseFirstLetter v) (enumerate n vs)) = concat (map CapitaliseFirstLetter vs)"
  by (induction vs arbitrary: n) simp_all

definition name_char :: "char \<Rightarrow> bool" where
  "name_char c \<longleftrightarrow> isLetter c \<or> isDigit c \<or> c = CHR ''_''"

text \<open>
  \<open>ToGolangName\<close> turns a chart name that starts with a letter or a digit into a valid Go
  identifier: only letters, digits and underscores, never a digit first; and it drops nothing but the
  characters that are not allowed (one underscore may be added in front).
\<close>

lemma ToGolangName_identifier:
  assumes "s = c # cs" and "\<not> isNotAGoNameCharacter c"
  shows "(\<forall>d \<in> set (ToGolangName s). name_char d) \<and>
    (\<exists>h t. ToGolangName s = h # t \<and> \<not> isDigit h) \<and>
    length (ToGolangName s) =
      length (filter (\<lambda>c. \<not> isNotAGoNameCharacter c) s) + (if isDigit c then 1 else 0)"
proof -
  obtain v vs where parts: "splitOnAll s isNotAGoNameCharacter = (c # v) # vs"
    using split_all_head [of isNotAGoNameCharacter c "[]" cs] assms by (auto simp: splitOnAll_def)
  have chars: "\<forall>v \<in> set ((c # v) # vs). \<forall>c \<in> set v. isLetter c \<or> isDigit c"
    using split_all_parts [of _ isNotAGoNameCharacter s] parts name_character
    by (metis splitOnAll_def)
  have run: "ToGolangName s = (if isDigit c then ''_'' else '''') @ (toUpper c # v) @
      concat (map CapitaliseFirstLetter vs)"
    unfolding ToGolangName_def parts by (simp add: tail_names CapitaliseFirstLetter_def [of "c # v"])
  have len: "length (concat (map CapitaliseFirstLetter vs)) = length (concat vs)"
    by (induction vs) auto
  have all: "concat ((c # v) # vs) = filter (\<lambda>c. \<not> isNotAGoNameCharacter c) s"
    using parts by (metis split_all_concat splitOnAll_def append_Nil concat.simps(1))
  have "isLetter (toUpper c) \<or> isDigit (toUpper c)" using chars toUpper_name by simp
  moreover have "\<forall>d \<in> set (concat (map CapitaliseFirstLetter vs)). isLetter d \<or> isDigit d"
    using chars CapitaliseFirstLetter_chars by fastforce
  ultimately have "\<forall>d \<in> set (ToGolangName s). name_char d"
    using chars by (auto simp: run name_char_def)
  moreover have "\<exists>h t. ToGolangName s = h # t \<and> \<not> isDigit h"
    using toUpper_digit [of c] chars by (auto simp: run isDigit_def code_def)
  ultimately show ?thesis by (simp add: run len flip: all)
qed

lemma ToGolangName_identifier_witness:
  "\<exists>h t. ToGolangName ''3d-print'' = h # t \<and> \<not> isDigit h"
proof -
  have "\<not> isNotAGoNameCharacter CHR ''3''" by code_simp
  from ToGolangName_identifier [OF refl this, of "''d-print''"] show ?thesis by simp
qed

text \<open>
  The underscore is decided on the first part of the split, which is empty when the name starts
  with a separator: such a name followed by a digit is not an identifier.
\<close>

lemma ToGolangName_leading_separator:
  "ToGolangName ''-1a'' = ''1a'' \<and> isDigit CHR ''1'' \<and> ToGolangName ''1a'' = ''_1a''"
  by code_simp

section \<open>From archive to group, version and kind\<close>

lemma version_label_no_dot: "CHR ''.'' \<notin> set (version_label v)"
  by (auto simp: version_label_def replace_all_def split: if_splits)

lemma replace_all_inj:
  "CHR ''-'' \<notin> set v \<Longrightarrow> CHR ''-'' \<notin> set u \<Longrightarrow>
   replace_all CHR ''.'' CHR ''-'' v = replace_all CHR ''.'' CHR ''-'' u \<Longrightarrow> v = u"
proof (induction v arbitrary: u)
  case (Cons c cs)
  then obtain d ds where u: "u = d # ds" by (cases u) (auto simp: replace_all_def)
  have "c = d" using Cons.prems by (auto simp: u replace_all_def split: if_splits)
  moreover have "cs = ds" using Cons by (auto simp: u replace_all_def)
  ultimately show ?case by (simp add: u)
qed (simp add: replace_all_def)

lemma read_path_has_file:
  assumes "env_untar E r = Inr hs" and "has_file hs name content" and "New E r = Inr t"
  shows "read_path t name = Inr content"
  using has_file_read [OF assms] by (auto simp: read_path_def)

text \<open>
  C37: group, version and kind of a chart's compositions come from the \<open>Chart.yaml\<close> of the archive and
  nothing else: for an archive with that file in its root directory the version is the chart's version
  with dashes for dots and a \<open>v\<close> in front, without any dot, and the kind is the Pascal-cased Go name of
  the chart; a missing or non-string version or name panics instead of failing.
\<close>

theorem ChartGroupVersionKind_of_archive:
  assumes "env_untar E r = Inr hs" and "New E r = Inr t"
    and "has_file hs (root @ ''/Chart.yaml'') content" and "env_yaml_fields E content = Inr res"
  shows "ChartGroupVersionKind E t root =
      (case (fmlookup res ''version'', fmlookup res ''name'') of
         (Some (GStr v), Some (GStr n)) \<Rightarrow> Ok \<lparr>gvk_group = ''composition.krateo.io'',
            gvk_version = version_label v, gvk_kind = env_pascalize E (ToGolangName n)\<rparr>
       | _ \<Rightarrow> Panic ''interface conversion: interface {} is not string'')
    \<and> CHR ''.'' \<notin> set (version_label v)"
  using version_label_no_dot read_path_has_file [OF assms(1,3,2)] assms(4)
  by (simp add: ChartGroupVersionKind_def gvk_of_fields_def assert_string_def defaultGroup_def
      split: option.split gval.split)

theorem ChartGroupVersionKind_of_archive_witness:
  "\<exists>t. New sample_env ''1.0.0'' = Inr t \<and> ChartGroupVersionKind sample_env t ''chart'' =
     Ok \<lparr>gvk_group = ''composition.krateo.io'', gvk_version = ''v1-0-0'', gvk_kind = ''Fireworks''\<rparr>"
proof -
  let ?hs = "[(''chart'', True, '''')] @ (''chart/Chart.yaml'', False, ''1.0.0'') #
     [(''chart/values.schema.json'', False, ''{}'')]"
  have untar: "env_untar sample_env ''1.0.0'' = Inr ?hs" by (simp add: sample_env_def)
  then obtain t where t: "New sample_env ''1.0.0'' = Inr t" by (simp add: New_def)
  have "Clean ''chart/Chart.yaml'' = ''chart/Chart.yaml''"
    "Clean ''chart/values.schema.json'' = ''chart/values.schema.json''"
    "ValidPath ''chart/Chart.yaml''" by code_simp+
  then have "has_file ?hs (''chart'' @ ''/Chart.yaml'') ''1.0.0''"
    unfolding has_file_def by (intro conjI exI [of _ "[(''chart'', True, '''')]"] exI) auto
  moreover have "env_yaml_fields sample_env ''1.0.0'' =
      Inr (fmap_of_list [(''name'', GStr ''fireworks''), (''version'', GStr ''1.0.0'')])"
    by (simp add: sample_env_def)
  ultimately have "ChartGroupVersionKind sample_env t ''chart'' =
     Ok \<lparr>gvk_group = ''composition.krateo.io'', gvk_version = version_label ''1.0.0'',
        gvk_kind = ''Fireworks''\<rparr>"
    using ChartGroupVersionKind_of_archive [OF untar t] by (simp add: sample_env_def)
  moreover have "version_label ''1.0.0'' = ''v1-0-0''" by code_simp
  ultimately show ?thesis using t by auto
qed

end
