(* ===== verification/Cert_Manager.thy ===== *)
theory Cert_Manager
  imports Cert_Interface Crd Objects Chart
begin

text \<open>
  \<open>internal/controllers/certificates\<close>: the certificate manager, which renews the certificate of the
  webhook server, keeps its bytes as the CA bundle and writes them into the CustomResourceDefinitions
  and the webhook configuration, and the reconciler that does so periodically. The bundle field of
  the manager is \<open>w_caBundle\<close>; its locks are left out (each operation runs alone).
\<close>

section \<open>The format of a bundle\<close>

text \<open>\<open>bytes.Index\<close> (-1 is \<open>None\<close>) and \<open>bytes.Contains\<close>.\<close>

fun index_of :: "string \<Rightarrow> string \<Rightarrow> nat option" where
  "index_of pat [] = (if pat = [] then Some 0 else None)"
| "index_of pat (c # cs) =
     (if take (length pat) (c # cs) = pat then Some 0 else map_option Suc (index_of pat cs))"

definition begin_marker :: string where "begin_marker = ''-----BEGIN''"
definition end_marker :: string where "end_marker = ''-----END''"

definition bytes_of :: "string option \<Rightarrow> string" where
  "bytes_of b = (case b of None \<Rightarrow> [] | Some s \<Rightarrow> s)"

definition validateCABundleFormat :: "string option \<Rightarrow> err + unit" where
  "validateCABundleFormat cabundle =
     (let s = bytes_of cabundle
      in if length s = 0 then Inl (Plain ''CA bundle is empty'')
         else (case index_of begin_marker s of
            None \<Rightarrow> Inl (Plain ''CA bundle missing BEGIN marker - invalid PEM format'')
          | Some beginIdx \<Rightarrow>
              (case index_of end_marker s of
                 None \<Rightarrow> Inl (Plain ''CA bundle missing END marker - invalid PEM format'')
               | Some endIdx \<Rightarrow>
                   if beginIdx \<ge> endIdx
                   then Inl (Plain ''CA bundle has invalid PEM structure (END before BEGIN)'')
                   else Inr ())))"

section \<open>Propagating the bundle\<close>

record cert_manager =
  cm_certOpts :: cert_opts
  cm_mutatingWebhookTemplatePath :: string
  cm_certPath :: string
  cm_serviceName :: string
  cm_serviceNamespace :: string

definition caBundleRetryAttempts :: int where "caBundleRetryAttempts = 5"
definition caBundleRetryInitialDelay :: int where "caBundleRetryInitialDelay = 250 * millisecond"
definition caBundleRetryMaximumDelay :: int where "caBundleRetryMaximumDelay = 2 * second"

text \<open>Unlike the classifiers of charts and compositions, \<open>NotFound\<close> is retried here.\<close>

definition isNonRetryableCABundleError :: "'s env \<Rightarrow> err \<Rightarrow> bool" where
  "isNonRetryableCABundleError E e =
     (if ae_IsForbidden (env_errors E) e \<or> ae_IsUnauthorized (env_errors E) e \<or>
         ae_IsInvalid (env_errors E) e \<or> ae_IsBadRequest (env_errors E) e then True
      else (case status_code e of
          Some c \<Rightarrow> if c = 401 \<or> c = 403 \<or> c = 422 \<or> c = 400 then True else False
        | None \<Rightarrow> False))"

definition isRetryableCABundleError :: "'s env \<Rightarrow> err \<Rightarrow> bool" where
  "isRetryableCABundleError E e =
     (if errors_is e Canceled then False
      else if errors_is e DeadlineExceeded then True
      else if isNonRetryableCABundleError E e then False
      else (case as_net_error e of
          Some (timeout, temporary) \<Rightarrow> if timeout \<or> temporary then True else True
        | None \<Rightarrow> True))"

interpretation cabundle_errors: retry_classifier "isRetryableCABundleError E" for E :: "'s env"
  by unfold_locales (simp_all add: isRetryableCABundleError_def)

definition cabundle_retry :: "'s env \<Rightarrow> 's world retry_config" where
  "cabundle_retry E = \<lparr>rc_attempts = caBundleRetryAttempts, rc_initial = caBundleRetryInitialDelay,
     rc_maximum = caBundleRetryMaximumDelay, rc_wait = Some (Wait E),
     rc_retryable = Some (isRetryableCABundleError E), rc_onRetry = Some (\<lambda>attempt delay e w. w)\<rparr>"

lemma cabundle_retry_simps [simp]:
  "rc_wait (cabundle_retry E) = Some (Wait E)" "run_onRetry (cabundle_retry E) a d e w = w"
  "rc_retryable (cabundle_retry E) = Some (isRetryableCABundleError E)"
  by (simp_all add: cabundle_retry_def run_onRetry_def)

text \<open>\<open>apierrors.NewNotFound\<close>.\<close>

definition NewNotFound :: "'s env \<Rightarrow> group_resource \<Rightarrow> string \<Rightarrow> err" where
  "NewNotFound E gr name = StatusError 404 ''NotFound''
     (env_gr_string E gr @ '' '' @ [CHR 0x22] @ name @ [CHR 0x22] @ '' not found'')"

definition empty_gvr :: gvr where
  "empty_gvr = \<lparr>gvr_group = '''', gvr_version = '''', gvr_resource = ''''\<rparr>"

definition empty_nn :: namespaced_name where
  "empty_nn = \<lparr>nn_namespace = '''', nn_name = ''''\<rparr>"

text \<open>The CRD of a kind with more than one version, then the webhook configuration.\<close>

definition propagate_crd :: "'s env \<Rightarrow> string option \<Rightarrow> kobj \<Rightarrow> ('s world, unit) prog" where
  "propagate_crd E cabundle crd1 =
     (let crd2 = (typed crdKind crd1)\<lparr>ko_apiVersion := ''apiextensions.k8s.io/v1''\<rparr>
      in if length (crd_versions (crd_of crd2)) > 1 then
           thenP (wrapping ''error updating CA bundle: ''
             (liftSum (UpdateCABundle (crd_of crd2) cabundle))) (\<lambda>c.
           thenP (wrapping ''error applying CRD: '' (Apply E (with_crd c crd2) no_apply_options)) (\<lambda>_.
           returnP ()))
         else returnP ())"

definition propagate_webhook :: "'s env \<Rightarrow> cert_manager \<Rightarrow> string option \<Rightarrow> ('s world, unit) prog" where
  "propagate_webhook E m cabundle =
     thenP (wrapping ''error creating mutating webhook config: ''
       (CreateK8sObject E webhookKind empty_gvr empty_nn (cm_mutatingWebhookTemplatePath m)
         [GStr ''caBundle'', GStr (EncodeToString (bytes_of cabundle))])) (\<lambda>config.
     thenP (wrapping ''error applying mutating webhook config: '' (Apply E config no_apply_options)) (\<lambda>_.
     returnP ()))"

definition propagateCABundle ::
  "'s env \<Rightarrow> cert_manager \<Rightarrow> string option \<Rightarrow> gvr \<Rightarrow> ('s world, unit) prog" where
  "propagateCABundle E m cabundle g =
     thenP (wrapping ''error getting CRD: '' (Get_crd E (GroupResource g))) (\<lambda>got.
     case got of
       None \<Rightarrow> failP (NewNotFound E (GroupResource g) (gvr_resource g))
     | Some crd1 \<Rightarrow>
         thenP (propagate_crd E cabundle crd1) (\<lambda>_.
         propagate_webhook E m cabundle))"

definition propagateCABundleWithRetry ::
  "'s env \<Rightarrow> cert_manager \<Rightarrow> string option \<Rightarrow> gvr \<Rightarrow> ('s world, unit) prog" where
  "propagateCABundleWithRetry E m cabundle g =
     thenP (wrapping ''invalid CA bundle format, aborting propagation: ''
       (liftSum (validateCABundleFormat cabundle))) (\<lambda>_.
     wrapping ''failed to propagate CA bundle after 5 attempts: ''
       (Do (Wait E) (cabundle_retry E) (propagateCABundle E m cabundle g)))"

section \<open>The manager\<close>

definition GetCABundle :: "('s world, string option) prog" where
  "GetCABundle = (\<lambda>w. (Ok (w_caBundle w), w))"

definition setCABundle :: "string \<Rightarrow> ('s world, unit) prog" where
  "setCABundle b = (\<lambda>w. (Ok (), w\<lparr>w_caBundle := Some b\<rparr>))"

definition getCABundle :: "'s cert_env \<Rightarrow> string \<Rightarrow> ('s world, string) prog" where
  "getCABundle CE certsPath = fs_read CE (Join [certsPath, ''tls.crt''])"

definition ManageCertificates ::
  "'s env \<Rightarrow> 's cert_env \<Rightarrow> cert_manager \<Rightarrow> gvr \<Rightarrow> ('s world, unit) prog" where
  "ManageCertificates E CE m g =
     thenP (CheckOrRegenerateClientCertAndKey E CE (cm_certOpts m)) (\<lambda>(good, cert, key).
     thenP (whenP (\<not> good)
       (thenP (UpdateCerts CE cert key (cm_certPath m)) (\<lambda>_.
        thenP (wrapping ''error getting CA bundle: '' (getCABundle CE (cm_certPath m))) (\<lambda>cabundleData.
        setCABundle cabundleData)))) (\<lambda>_.
     thenP GetCABundle (\<lambda>cabundle.
     thenP (wrapping ''invalid CA bundle format: '' (liftSum (validateCABundleFormat cabundle))) (\<lambda>_.
     wrapping ''error updating CA bundle after retries: ''
       (propagateCABundleWithRetry E m cabundle g)))))"

text \<open>One definition of the list; a kind without a plural is skipped.\<close>

definition update_resource :: "'s env \<Rightarrow> cert_manager \<Rightarrow> comp_def \<Rightarrow> ('s world, unit) prog" where
  "update_resource E m cd =
     (let st = cd_status cd in
      if cs_apiVersion st \<noteq> '''' \<and> cs_kind st \<noteq> '''' then
        (let g = env_from_api_version E (cs_apiVersion st) (cs_kind st) in
         thenP (tryP (GVKtoGVR E g)) (\<lambda>got.
         case got of
           Inl e \<Rightarrow> if IsNotFound E e then returnP ()
                     else failP (Wrap ''error converting GVK to GVR: '' e ('' - GVK: '' @ gvk_String g))
         | Inr r \<Rightarrow>
             thenP GetCABundle (\<lambda>cabundle.
             wrapping (''error updating CA bundle for GVR '' @ gvr_String r @ '': '')
               (propagateCABundleWithRetry E m cabundle r))))
      else returnP ())"

definition UpdateExistingResources :: "'s env \<Rightarrow> cert_manager \<Rightarrow> ('s world, unit) prog" where
  "UpdateExistingResources E m =
     thenP (onErr (\<lambda>e. Plain (''error listing CompositionDefinitions: '' @ err_msg e)) (list_defs E)) (\<lambda>cds.
     foreachP cds (update_resource E m))"

definition RefreshCertificates ::
  "'s env \<Rightarrow> 's cert_env \<Rightarrow> cert_manager \<Rightarrow> ('s world, unit) prog" where
  "RefreshCertificates E CE m =
     thenP (wrapping ''error generating client certificate and key: ''
       (GenerateClientCertAndKey E CE (cm_certOpts m))) (\<lambda>(cert, key).
     thenP (wrapping ''error updating certificates: '' (UpdateCerts CE cert key (cm_certPath m))) (\<lambda>_.
     thenP (wrapping ''error getting CA bundle: '' (getCABundle CE (cm_certPath m))) (\<lambda>cabundle.
     setCABundle cabundle)))"

record manager_opts =
  mo_webhookServiceName :: string
  mo_webhookServiceNamespace :: string
  mo_mutatingWebhookTemplatePath :: string
  mo_certOpts :: cert_opts
  mo_hasRestConfig :: bool

text \<open>
  \<open>NewCertManager\<close>: \<open>path\<close> is the certificate directory after applying the option functions. The
  error of the refresh on a missing certificate file is dropped.
\<close>

definition NewCertManager ::
  "'s env \<Rightarrow> 's cert_env \<Rightarrow> manager_opts \<Rightarrow> string \<Rightarrow> ('s world, cert_manager) prog" where
  "NewCertManager E CE o1 path =
     (if \<not> mo_hasRestConfig o1 then failP (Plain ''rest config cannot be nil'')
      else if mo_mutatingWebhookTemplatePath o1 = ''''
        then failP (Plain ''mutating webhook template path cannot be empty'')
      else if mo_webhookServiceName o1 = '''' then failP (Plain ''webhook service name cannot be empty'')
      else if mo_webhookServiceNamespace o1 = ''''
        then failP (Plain ''webhook service namespace cannot be empty'')
      else
        thenP (tryP (silently (ce_newKubeClient CE))) (\<lambda>cl.
        case cl of
          Inl e \<Rightarrow> panicP (''error creating kube client: '' @ err_msg e)
        | Inr _ \<Rightarrow>
            thenP (wrapping ''error creating kubernetes client: '' (silently (ce_newClientset CE))) (\<lambda>_.
            (let m = \<lparr>cm_certOpts = mo_certOpts o1,
                 cm_mutatingWebhookTemplatePath = mo_mutatingWebhookTemplatePath o1, cm_certPath = path,
                 cm_serviceName = mo_webhookServiceName o1,
                 cm_serviceNamespace = mo_webhookServiceNamespace o1\<rparr> in
             thenP (tryP (fs_read CE (Join [path, ''tls.crt'']))) (\<lambda>got.
             case got of
               Inl e \<Rightarrow>
                 if ce_isNotExist CE e
                 then thenP (tryP (RefreshCertificates E CE m)) (\<lambda>_. returnP m)
                 else failP (Wrap ''error reading CA bundle: '' e '''')
             | Inr cabundle \<Rightarrow> thenP (setCABundle cabundle) (\<lambda>_. returnP m))))))"

definition certManager :: "'s env \<Rightarrow> 's cert_env \<Rightarrow> cert_manager \<Rightarrow> 's cert_iface" where
  "certManager E CE m = \<lparr>ci_ManageCertificates = ManageCertificates E CE m,
     ci_GetCABundle = GetCABundle, ci_GetServiceName = cm_serviceName m,
     ci_GetServiceNamespace = cm_serviceNamespace m,
     ci_UpdateExistingResources = UpdateExistingResources E m\<rparr>"

section \<open>The reconciler\<close>

definition default_syncInterval :: int where "default_syncInterval = 5 * minute"

definition NewCertificateReconciler :: "int \<Rightarrow> int" where
  "NewCertificateReconciler syncInterval = (if syncInterval \<le> 0 then default_syncInterval else syncInterval)"

definition anchor_gvr :: gvr where
  "anchor_gvr = \<lparr>gvr_group = ''core.krateo.io'', gvr_version = ''v1alpha1'',
     gvr_resource = ''compositiondefinitions''\<rparr>"

definition manageCertificatesGlobally :: "'s cert_iface \<Rightarrow> ('s world, unit) prog" where
  "manageCertificatesGlobally C = ci_ManageCertificates C anchor_gvr"

text \<open>Errors are logged, the next tick tries again.\<close>

definition syncCertificates :: "'s cert_iface \<Rightarrow> ('s world, unit) prog" where
  "syncCertificates C =
     thenP (tryP (manageCertificatesGlobally C)) (\<lambda>r. case r of
       Inl e \<Rightarrow> returnP ()
     | Inr _ \<Rightarrow>
         thenP (tryP (ci_UpdateExistingResources C)) (\<lambda>r2. case r2 of
           Inl e \<Rightarrow> returnP ()
         | Inr _ \<Rightarrow> returnP ()))"

text \<open>What the \<open>select\<close> of \<open>Start\<close> receives.\<close>

datatype signal = Tick | CtxDone

fun sync_loop :: "'s cert_iface \<Rightarrow> signal list \<Rightarrow> ('s world, unit) prog" where
  "sync_loop C [] = returnP ()"
| "sync_loop C (CtxDone # sigs) = returnP ()"
| "sync_loop C (Tick # sigs) = thenP (syncCertificates C) (\<lambda>_. sync_loop C sigs)"

definition Start :: "'s cert_iface \<Rightarrow> signal list \<Rightarrow> ('s world, unit) prog" where
  "Start C sigs = thenP (syncCertificates C) (\<lambda>_. sync_loop C sigs)"

section \<open>What the manager does\<close>

lemma crd_kind_name [simp]: "crd_kind_name = crdKind"
  by (simp add: crd_kind_name_def crdKind_def)

lemma certificate_events_simps [simp]: "ev \<in> certificate_events \<longleftrightarrow> certificate_event ev"
  by (simp add: certificate_events_def)

lemma same_object_kind: "same_object o1 o2 \<Longrightarrow> ko_kind o1 = ko_kind o2"
  using same_object_fields by blast

lemma emits_Apply_certificate:
  "ko_kind o1 \<in> {crdKind, webhookKind} \<Longrightarrow> emits w_trace certificate_events (Apply E o1 no_apply_options)"
proof (rule emits_Apply)
  fix ev
  assume "ko_kind o1 \<in> {crdKind, webhookKind}" "apply_event no_apply_options o1 ev"
  then show "ev \<in> certificate_events" by (cases ev) (auto dest: same_object_kind)
qed

lemma emits_caBundle [emits_intros]: "emits w_trace A GetCABundle" "emits w_trace A (setCABundle b)"
  by (simp_all add: emits_def GetCABundle_def setCABundle_def)

lemma no_panic_caBundle [no_panic_intros]: "no_panic GetCABundle" "no_panic (setCABundle b)"
  by (simp_all add: no_panic_def GetCABundle_def setCABundle_def)

lemma emits_propagateCABundle: "emits w_trace certificate_events (propagateCABundle E m b g)"
proof -
  have crd: "emits w_trace certificate_events (propagate_crd E b crd1)" for crd1
    unfolding propagate_crd_def Let_def by (intro emits_intros emits_Apply_certificate) simp
  have wh: "emits w_trace certificate_events (propagate_webhook E m b)"
    unfolding propagate_webhook_def
    by (rule emits_thenP_yields [OF _ yields_onErr [OF yields_CreateK8sObject]], intro emits_intros, simp,
        intro emits_intros emits_Apply_certificate, simp)
  show ?thesis
    unfolding propagateCABundle_def by (intro emits_intros crd wh) (simp add: crd_get_event_def)
qed

lemma emits_propagateWithRetry: "emits w_trace certificate_events (propagateCABundleWithRetry E m b g)"
  unfolding propagateCABundleWithRetry_def
  by (intro emits_intros emits_propagateCABundle) simp_all

lemma emits_ManageCertificates: "emits w_trace certificate_events (ManageCertificates E CE m g)"
  unfolding ManageCertificates_def getCABundle_def
  by (intro emits_intros emits_propagateWithRetry cert_events_sub)

lemma emits_GVKtoGVR [emits_intros]: "EvPlural g \<in> A \<Longrightarrow> emits w_trace A (GVKtoGVR E g)"
  unfolding GVKtoGVR_def by (intro emits_intros)

lemma no_panic_GVKtoGVR [no_panic_intros]: "no_panic (GVKtoGVR E g)"
  unfolding GVKtoGVR_def by (intro no_panic_intros)

lemma emits_UpdateExistingResources: "emits w_trace certificate_events (UpdateExistingResources E m)"
  unfolding UpdateExistingResources_def update_resource_def Let_def
  by (intro emits_intros emits_propagateWithRetry) simp_all

lemma no_panic_propagate [no_panic_intros]: "no_panic (propagateCABundleWithRetry E m b g)"
  unfolding propagateCABundleWithRetry_def propagateCABundle_def propagate_crd_def propagate_webhook_def
    Get_crd_def Let_def
  by (intro no_panic_intros) simp_all

lemma no_panic_Generate [no_panic_intros]: "no_panic (GenerateClientCertAndKey E CE o1)"
proof -
  have "no_panic (silently (ce_newPrivateKey CE))"
    by (simp add: no_panic_def silently_def split: prod.split)
  then show ?thesis
    unfolding GenerateClientCertAndKey_def create_csr_def Let_def by (intro no_panic_intros)
qed

lemma no_panic_Check [no_panic_intros]: "no_panic (CheckOrRegenerateClientCertAndKey E CE o1)"
proof -
  have "no_panic (clock CE)" by (simp add: no_panic_def clock_def)
  then show ?thesis
    unfolding CheckOrRegenerateClientCertAndKey_def by (intro no_panic_intros)
qed

lemma no_panic_ManageCertificates: "no_panic (ManageCertificates E CE m g)"
  unfolding ManageCertificates_def getCABundle_def by (intro no_panic_intros)

lemma no_panic_UpdateExistingResources: "no_panic (UpdateExistingResources E m)"
  unfolding UpdateExistingResources_def update_resource_def Let_def by (intro no_panic_intros)

lemma certManager_simps [simp]:
  "ci_ManageCertificates (certManager E CE m) = ManageCertificates E CE m"
  "ci_UpdateExistingResources (certManager E CE m) = UpdateExistingResources E m"
  "ci_GetCABundle (certManager E CE m) = GetCABundle"
  by (simp_all add: certManager_def)

interpretation cert_mgr: cert_interface "certManager E CE m" for E :: "'s env" and CE m
  by unfold_locales (simp_all add: emits_ManageCertificates emits_UpdateExistingResources
      no_panic_ManageCertificates no_panic_UpdateExistingResources GetCABundle_def)

section \<open>Only well-formed bundles are written\<close>

definition first_at :: "string \<Rightarrow> string \<Rightarrow> nat \<Rightarrow> bool" where
  "first_at pat s i \<longleftrightarrow> take (length pat) (drop i s) = pat \<and>
     (\<forall>k < i. take (length pat) (drop k s) \<noteq> pat)"

lemma first_at_Cons: "first_at pat (c # s) i \<longleftrightarrow>
  (if take (length pat) (c # s) = pat then i = 0 else (\<exists>j. i = Suc j \<and> first_at pat s j))"
proof (cases i)
  case 0
  then show ?thesis by (simp add: first_at_def)
next
  case (Suc j)
  have "(\<forall>k < Suc j. take (length pat) (drop k (c # s)) \<noteq> pat) \<longleftrightarrow>
      take (length pat) (c # s) \<noteq> pat \<and> (\<forall>k < j. take (length pat) (drop k s) \<noteq> pat)"
    by (simp add: All_less_Suc2)
  with Suc show ?thesis by (auto simp: first_at_def)
qed

lemma index_of_first_at: "pat \<noteq> [] \<Longrightarrow> index_of pat s = Some i \<longleftrightarrow> first_at pat s i"
proof (induction s arbitrary: i)
  case Nil
  then show ?case by (simp add: first_at_def)
next
  case (Cons c s)
  then show ?case by (auto simp: first_at_Cons)
qed

lemma markers [simp]: "begin_marker \<noteq> []" "end_marker \<noteq> []"
  by (simp_all add: begin_marker_def end_marker_def)

text \<open>
  A CA bundle is accepted exactly when it has a BEGIN and an END marker and the first BEGIN comes
  before the first END.
\<close>

theorem validateCABundleFormat_iff:
  "validateCABundleFormat b = Inr () \<longleftrightarrow>
     (\<exists>s i j. b = Some s \<and> first_at begin_marker s i \<and> first_at end_marker s j \<and> i < j)"
proof (cases b)
  case None
  then show ?thesis by (simp add: validateCABundleFormat_def bytes_of_def)
next
  case (Some s)
  have "index_of begin_marker s = None \<or> s \<noteq> []" by (cases s) simp_all
  then show ?thesis
    unfolding Some by (auto simp: validateCABundleFormat_def bytes_of_def Let_def
        simp flip: index_of_first_at split: option.splits)
qed

definition carries_bundle :: "kobj \<Rightarrow> string option \<Rightarrow> bool" where
  "carries_bundle o1 b \<longleftrightarrow> (\<exists>conv wh cc. crd_conversion_of (crd_of o1) = Some conv \<and>
     cn_webhook conv = Some wh \<and> wc_clientConfig wh = Some cc \<and> cc_caBundle cc = b)"

definition valid_bundle :: "string option \<Rightarrow> bool" where
  "valid_bundle b \<longleftrightarrow> validateCABundleFormat b = Inr ()"

definition writes_valid_bundle :: "kobj \<Rightarrow> bool" where
  "writes_valid_bundle o1 \<longleftrightarrow> ko_kind o1 \<noteq> crdKind \<or> (\<exists>b. valid_bundle b \<and> carries_bundle o1 b)"

definition valid_bundle_events :: "event set" where
  "valid_bundle_events = {ev. certificate_event ev \<and>
     (case ev of EvCreate ao o1 \<Rightarrow> writes_valid_bundle o1 | EvUpdate ao o1 \<Rightarrow> writes_valid_bundle o1 | _ \<Rightarrow> True)}"

lemma UpdateCABundle_carries: "UpdateCABundle c b = Inr c' \<Longrightarrow> carries_bundle (with_crd c' o1) b"
  by (auto simp: UpdateCABundle_def carries_bundle_def split: option.splits)

lemma emits_Apply_valid:
  assumes "ko_kind o1 \<in> {crdKind, webhookKind}" and "writes_valid_bundle o1"
  shows "emits w_trace valid_bundle_events (Apply E o1 no_apply_options)"
proof (rule emits_Apply)
  fix ev
  assume "apply_event no_apply_options o1 ev"
  with assms show "ev \<in> valid_bundle_events"
    by (cases ev) (auto simp: valid_bundle_events_def writes_valid_bundle_def carries_bundle_def
        dest: same_object_crd)
qed

lemma kinds_differ [simp]: "webhookKind \<noteq> crdKind"
  by (simp add: webhookKind_def crdKind_def)

lemma yields_liftSum: "yields (\<lambda>x. r = Inr x) (liftSum r)"
  by (auto simp: yields_def liftSum_Ok_iff)

lemma emits_propagateCABundle_valid:
  assumes v: "valid_bundle b"
  shows "emits w_trace valid_bundle_events (propagateCABundle E m b g)"
proof -
  have crd: "emits w_trace valid_bundle_events (propagate_crd E b crd1)" for crd1
    unfolding propagate_crd_def Let_def
    by (intro emits_if emits_returnP emits_thenP_yields [OF _ yields_onErr [OF yields_liftSum]]
        emits_onErr emits_liftSum emits_thenP emits_Apply_valid)
      (use v in \<open>auto simp: writes_valid_bundle_def dest: UpdateCABundle_carries\<close>)
  have wh: "emits w_trace valid_bundle_events (propagate_webhook E m b)"
    unfolding propagate_webhook_def
    by (rule emits_thenP_yields [OF _ yields_onErr [OF yields_CreateK8sObject]], intro emits_intros,
        simp add: valid_bundle_events_def, intro emits_intros emits_Apply_valid)
      (simp_all add: writes_valid_bundle_def)
  show ?thesis
    unfolding propagateCABundle_def
    by (intro emits_intros crd wh) (simp add: crd_get_event_def valid_bundle_events_def)
qed

lemma emits_propagateWithRetry_valid:
  "emits w_trace valid_bundle_events (propagateCABundleWithRetry E m b g)"
  unfolding propagateCABundleWithRetry_def
  by (rule emits_thenP_yields [OF _ yields_onErr [OF yields_liftSum]], intro emits_intros,
      intro emits_intros emits_propagateCABundle_valid)
    (simp_all add: valid_bundle_def valid_bundle_events_def)


section \<open>Renewal looks at the signing request only\<close>

text \<open>
  C32: As long as the signing request exists and is not older than the margin, \<open>ManageCertificates\<close>
  renews nothing and looks at no file: it takes the bundle in memory, right or wrong, and fails when
  there is none. A renewal that failed after its request was created is therefore not repeated before
  the margin has passed again.
\<close>

theorem ManageCertificates_trusts_request:
  assumes "ce_csr_get CE (go_username (cm_certOpts m)) (w_ext w) = (Inr c, s)"
    and "\<not> Expired c (go_leaseExpirationMargin (cm_certOpts m)) (ce_now CE s)"
  shows "ManageCertificates E CE m g w =
    (let w1 = w\<lparr>w_trace := w_trace w @ [EvCsr (CsrGet (go_username (cm_certOpts m)))], w_ext := s\<rparr>
     in case validateCABundleFormat (w_caBundle w) of
          Inl e \<Rightarrow> (Err (Wrap ''invalid CA bundle format: '' e ''''), w1)
        | Inr _ \<Rightarrow> wrapping ''error updating CA bundle after retries: ''
            (propagateCABundleWithRetry E m (w_caBundle w) g) w1)"
proof -
  let ?w1 = "w\<lparr>w_trace := w_trace w @ [EvCsr (CsrGet (go_username (cm_certOpts m)))], w_ext := s\<rparr>"
  have "CheckOrRegenerateClientCertAndKey E CE (cm_certOpts m) w = (Ok (True, '''', ''''), ?w1)"
    using assms by (simp add: CheckOrRegenerateClientCertAndKey_def csr_get_def call_apply prog_defs clock_def)
  then show ?thesis
    by (simp add: ManageCertificates_def thenP_Ok whenP_def)
      (simp add: thenP_def GetCABundle_def onErr_def liftSum_def split: sum.split)
qed

definition example_manager :: cert_manager where
  "example_manager = \<lparr>cm_certOpts = \<lparr>go_duration = 24 * hour, go_leaseExpirationMargin = 16 * hour,
       go_username = ''svc'', go_approver = ''core-provider''\<rparr>,
     cm_mutatingWebhookTemplatePath = ''/webhook.yaml'', cm_certPath = ''/certs'',
     cm_serviceName = ''svc'', cm_serviceNamespace = ''krateo-system''\<rparr>"

text \<open>
  The request of a renewal that stopped half-way, ten hours ago, and no bundle in memory: an error, and
  no second attempt at a renewal.
\<close>

theorem ManageCertificates_trusts_request_witness:
  "\<exists>w'. ManageCertificates sample_env sample_cert_env example_manager anchor_gvr
      ((sample_world [] [])\<lparr>w_ext := (w_ext (sample_world [] []))\<lparr>cl_csrs := [(''svc'', 90 * hour)]\<rparr>,
         w_caBundle := None\<rparr>) =
      (Err (Wrap ''invalid CA bundle format: '' (Plain ''CA bundle is empty'') ''''), w') \<and>
    w_trace w' = [EvCsr (CsrGet ''svc'')]"
proof -
  let ?w = "(sample_world [] [])\<lparr>w_ext := (w_ext (sample_world [] []))\<lparr>cl_csrs := [(''svc'', 90 * hour)]\<rparr>,
         w_caBundle := None\<rparr>"
  let ?c = "\<lparr>csr_name = ''svc'', csr_created = 90 * hour, csr_request = ''request''\<rparr>"
  have get: "ce_csr_get sample_cert_env (go_username (cm_certOpts example_manager)) (w_ext ?w) =
      (Inr ?c, w_ext ?w)"
    by (simp add: sample_cert_env_def example_manager_def)
  have fresh: "\<not> Expired ?c (go_leaseExpirationMargin (cm_certOpts example_manager))
      (ce_now sample_cert_env (w_ext ?w))"
    by (simp add: Expired_def since_def wrap64_def example_manager_def sample_cert_env_def sample_now_def
        hour_def)
  have "validateCABundleFormat None = Inl (Plain ''CA bundle is empty'')"
    by (simp add: validateCABundleFormat_def bytes_of_def)
  with ManageCertificates_trusts_request [OF get fresh, of sample_env anchor_gvr] show ?thesis
    by (simp add: sample_world_def example_manager_def)
qed

section \<open>After a refresh memory and disk agree\<close>

lemma yields_Generate:
  "yields (\<lambda>p. \<exists>c k. p = (EncodeToString c, EncodeToString k)) (GenerateClientCertAndKey E CE o1)"
  by (auto simp: yields_def GenerateClientCertAndKey_def Let_def ok_iffs)

text \<open>
  C22: After a successful refresh the CA bundle in memory is the certificate on disk, and the key beside
  it is the one it was written with.
\<close>

theorem RefreshCertificates_in_sync:
  assumes "posix_files CE files" and "cm_certPath m \<noteq> ''''"
    and "\<And>p s d. files s p = Some d \<Longrightarrow> ce_read CE p s = (Inr d, s)"
    and "RefreshCertificates E CE m w = (Ok (), w')"
  shows "\<exists>c k. w_caBundle w' = Some c \<and> pair_at files (cm_certPath m) w' = (Some c, Some k)"
proof -
  obtain p w1 w2 b w3 where
    gen: "GenerateClientCertAndKey E CE (cm_certOpts m) w = (Ok p, w1)"
    and up: "UpdateCerts CE (fst p) (snd p) (cm_certPath m) w1 = (Ok (), w2)"
    and rd: "getCABundle CE (cm_certPath m) w2 = (Ok b, w3)" and set: "setCABundle b w3 = (Ok (), w')"
    using assms(4) by (auto simp: RefreshCertificates_def ok_iffs split_beta)
  obtain c k where ck: "p = (EncodeToString c, EncodeToString k)"
    using yieldsD [OF yields_Generate gen] by blast
  have pair: "pair_at files (cm_certPath m) w2 = (Some c, Some k)"
    using tripleD_Ok [OF UpdateCerts_triple [OF assms(1,2)] refl] up ck by simp
  have "b = c \<and> w_ext w3 = w_ext w2"
    using rd pair by (auto simp: getCABundle_def fs_read_def call_apply assms(3) pair_at_def)
  then show ?thesis
    using pair set by (auto simp: setCABundle_def pair_at_def)
qed

lemma always_ok_Generate_sample:
  "always_ok (GenerateClientCertAndKey sample_env sample_cert_env o1)"
proof -
  have c: "always_ok (create_csr sample_env sample_cert_env r)" for r
    unfolding create_csr_def always_ok_def
  proof
    fix w
    obtain x w' where "csr_create sample_cert_env r w = (Ok x, w')"
      using always_okD [OF always_ok_sample_certs(1)] by blast
    then show "\<exists>y w2. thenP (tryP (csr_create sample_cert_env r)) (\<lambda>created. case created of
        Inl e \<Rightarrow> if \<not> ae_IsAlreadyExists (env_errors sample_env) e
          then failP (Wrap ''creating CSR kubernetes object: '' e '''')
          else thenP (wrapping ''deleting CSR kubernetes object: ''
              (csr_delete sample_cert_env (csr_name r))) (\<lambda>_.
            wrapping ''creating CSR kubernetes object: '' (csr_create sample_cert_env r))
      | Inr _ \<Rightarrow> returnP ()) w = (Ok y, w2)"
      by (simp add: thenP_Ok tryP_Ok)
  qed
  have r: "always_ok (liftSum (ce_newRequest sample_cert_env q))" for q
    by (rule always_ok_liftSum [of _ "''request''"]) (simp add: sample_cert_env_def)
  show ?thesis
    unfolding GenerateClientCertAndKey_def Let_def
    by (intro always_ok_thenP always_ok_sample_certs always_ok_returnP c r)
qed

theorem RefreshCertificates_in_sync_witness:
  "\<exists>w' c k. RefreshCertificates sample_env sample_cert_env example_manager (sample_world [] []) = (Ok (), w') \<and>
     w_caBundle w' = Some c \<and> pair_at cl_files ''/certs'' w' = (Some c, Some k)"
proof -
  let ?o = "cm_certOpts example_manager" and ?w = "sample_world [] []"
  have path: "cm_certPath example_manager = ''/certs''" by (simp add: example_manager_def)
  have rd: "cl_files s p = Some d \<Longrightarrow> ce_read sample_cert_env p s = (Inr d, s)" for p s d
    by (simp add: sample_cert_env_def)
  obtain q w1 where gen: "GenerateClientCertAndKey sample_env sample_cert_env ?o ?w = (Ok q, w1)"
    using always_okD [OF always_ok_Generate_sample] by blast
  from yieldsD [OF yields_Generate gen] obtain c k where q: "q = (EncodeToString c, EncodeToString k)"
    by blast
  obtain x w2 where up: "UpdateCerts sample_cert_env (EncodeToString c) (EncodeToString k) ''/certs'' w1 = (Ok x, w2)"
    using always_okD [OF always_ok_UpdateCerts_sample] by blast
  have "pair_at cl_files ''/certs'' w2 = (Some c, Some k)"
    using tripleD_Ok [OF UpdateCerts_triple [OF posix_sample] refl up] by simp
  then have "\<exists>w3. getCABundle sample_cert_env ''/certs'' w2 = (Ok c, w3)"
    by (simp add: getCABundle_def fs_read_def call_apply rd pair_at_def)
  then obtain w' where run: "RefreshCertificates sample_env sample_cert_env example_manager ?w = (Ok (), w')"
    using gen q up by (auto simp: RefreshCertificates_def path setCABundle_def thenP_def onErr_def)
  from RefreshCertificates_in_sync [OF posix_sample _ rd run] run path show ?thesis by auto
qed

section \<open>The reconciler keeps going\<close>

context cert_interface
begin

lemma sync_never_fails: "\<exists>w'. syncCertificates C w = (Ok (), w')"
proof -
  have "no_panic (syncCertificates C)"
    unfolding syncCertificates_def manageCertificatesGlobally_def
    by (intro no_panic_intros manage_no_panic update_no_panic)
  moreover have "syncCertificates C w \<noteq> (Err e, w')" for e w'
    by (auto simp: syncCertificates_def thenP_def tryP_def split: prod.splits outcome.splits sum.splits)
  ultimately show ?thesis
    by (cases "syncCertificates C w"; cases "fst (syncCertificates C w)") (auto dest: no_panicD)
qed

lemma sync_loop_ticks:
  "sync_loop C sigs = foreachP (takeWhile (\<lambda>s. s = Tick) sigs) (\<lambda>_. syncCertificates C)"
  by (induction C sigs rule: sync_loop.induct) simp_all

lemma Start_ticks:
  "Start C sigs = foreachP (Tick # takeWhile (\<lambda>s. s = Tick) sigs) (\<lambda>_. syncCertificates C)"
  by (simp add: Start_def sync_loop_ticks)

lemma syncs_never_fail: "\<exists>w'. foreachP sigs (\<lambda>_. syncCertificates C) w = (Ok (), w')"
proof (induction sigs arbitrary: w)
  case (Cons s sigs)
  from sync_never_fails [of w] Cons show ?case by (metis foreachP.simps(2) thenP_Ok)
qed simp

end

text \<open>
  The certificate reconciler never stops on an error: it synchronises once at the start and once
  for every tick before the context is done, and returns without an error, however each
  synchronisation ends.
\<close>

lemma Start_keeps_going:
  "Start (certManager E CE m) sigs =
     foreachP (Tick # takeWhile (\<lambda>s. s = Tick) sigs) (\<lambda>_. syncCertificates (certManager E CE m)) \<and>
   (\<exists>w'. Start (certManager E CE m) sigs w = (Ok (), w'))"
  using cert_mgr.Start_ticks cert_mgr.syncs_never_fail by metis

end
