(* ===== verification/Getters.thy ===== *)
theory Getters
  imports Deploy
begin

text \<open>
  \<open>helpers/getters/getters.go\<close>: listing the compositions of a version, moving them to another
  version by relabelling, and finding the CompositionDefinitions of a kind.
\<close>

section \<open>Retrying\<close>

definition compositionRetryAttempts :: int where "compositionRetryAttempts = 5"
definition compositionRetryInitialDelay :: int where "compositionRetryInitialDelay = 250 * millisecond"
definition compositionRetryMaximumDelay :: int where "compositionRetryMaximumDelay = 2 * second"

definition isNonRetryableCompositionError :: "'s env \<Rightarrow> err \<Rightarrow> bool" where
  "isNonRetryableCompositionError E e =
     (if ae_IsForbidden (env_errors E) e \<or> ae_IsUnauthorized (env_errors E) e \<or> IsNotFound E e \<or>
         ae_IsInvalid (env_errors E) e \<or> ae_IsBadRequest (env_errors E) e then True
      else (case status_code e of
          Some c \<Rightarrow> if c = 401 \<or> c = 403 \<or> c = 404 \<or> c = 422 \<or> c = 400 then True else False
        | None \<Rightarrow> False))"

definition isRetryableCompositionError :: "'s env \<Rightarrow> err \<Rightarrow> bool" where
  "isRetryableCompositionError E e =
     (if errors_is e Canceled then False
      else if errors_is e DeadlineExceeded then True
      else if isNonRetryableCompositionError E e then False
      else (case as_net_error e of
          Some (timeout, temporary) \<Rightarrow> if timeout \<or> temporary then True else True
        | None \<Rightarrow> True))"

interpretation composition_errors: retry_classifier "isRetryableCompositionError E" for E :: "'s env"
  by unfold_locales (simp_all add: isRetryableCompositionError_def)

text \<open>The logging \<open>OnRetry\<close> leaves the state alone; \<open>retryWait\<close> is \<open>retry.Wait\<close>.\<close>

definition composition_retry :: "'s env \<Rightarrow> 's world retry_config" where
  "composition_retry E = \<lparr>rc_attempts = compositionRetryAttempts,
     rc_initial = compositionRetryInitialDelay, rc_maximum = compositionRetryMaximumDelay,
     rc_wait = Some (Wait E), rc_retryable = Some (isRetryableCompositionError E),
     rc_onRetry = Some (\<lambda>attempt delay e w. w)\<rparr>"

lemma composition_retry_simps [simp]:
  "rc_wait (composition_retry E) = Some (Wait E)" "run_onRetry (composition_retry E) a d e w = w"
  "rc_retryable (composition_retry E) = Some (isRetryableCompositionError E)"
  by (simp_all add: composition_retry_def run_onRetry_def)

section \<open>Compositions\<close>

definition GetCompositions :: "'s env \<Rightarrow> gvr \<Rightarrow> ('s world, kobj list) prog" where
  "GetCompositions E g =
     thenP (wrapping ''error creating label requirement: ''
       (liftSum (env_label_selector E CompositionVersionLabel (gvr_version g)))) (\<lambda>selector.
     wrapping ''error listing compositions: '' (dyn_list E g selector))"

definition getCompositionsWithRetry :: "'s env \<Rightarrow> gvr \<Rightarrow> ('s world, kobj list) prog" where
  "getCompositionsWithRetry E g =
     wrapping ''error listing compositions after 5 attempts: ''
       (Do (Wait E) (composition_retry E) (GetCompositions E g))"

definition compositionKey :: "string \<Rightarrow> string \<Rightarrow> string" where
  "compositionKey ns name = (if ns = '''' then name else ns @ ''/'' @ name)"

definition label_value :: "(string, string) fmap \<Rightarrow> string \<Rightarrow> string" where
  "label_value m k = (case fmlookup m k of None \<Rightarrow> '''' | Some v \<Rightarrow> v)"

definition relabel_attempt ::
  "'s env \<Rightarrow> gvr \<Rightarrow> string \<Rightarrow> string \<Rightarrow> string \<Rightarrow> ('s world, unit) prog" where
  "relabel_attempt E g ns name newVersion =
     thenP (tryP (dyn_get E g ns name)) (\<lambda>got.
     case got of
       Inl e \<Rightarrow>
         if IsNotFound E e then returnP ()
         else failP (Wrap (''error getting composition '' @ compositionKey ns name @ '': '') e '''')
     | Inr u \<Rightarrow>
         thenP (wrapping (''error getting labels from composition '' @ compositionKey ns name @ '': '')
           (liftSum (env_nested_labels E u))) (\<lambda>labels.
         (let labelmap = (case labels of None \<Rightarrow> fmempty | Some m \<Rightarrow> m)
          in if label_value labelmap CompositionVersionLabel = newVersion then returnP ()
             else
               thenP (wrapping (''error setting labels on composition '' @ compositionKey ns name @ '': '')
                 (liftSum (env_set_labels E (fmupd CompositionVersionLabel newVersion labelmap) u))) (\<lambda>u2.
               thenP (tryP (dyn_update E g ns u2)) (\<lambda>r.
               case r of
                 Inl e \<Rightarrow> if IsNotFound E e then returnP () else failP e
               | Inr _ \<Rightarrow> returnP ())))))"

definition updateCompositionWithRetry ::
  "'s env \<Rightarrow> gvr \<Rightarrow> string \<Rightarrow> string \<Rightarrow> string \<Rightarrow> ('s world, unit) prog" where
  "updateCompositionWithRetry E g ns name newVersion =
     wrapping (''composition '' @ compositionKey ns name @ '' update failed after 5 attempts: '')
       (Do (Wait E) (composition_retry E) (relabel_attempt E g ns name newVersion))"

definition UpdateCompositionsVersion :: "'s env \<Rightarrow> gvr \<Rightarrow> string \<Rightarrow> ('s world, unit) prog" where
  "UpdateCompositionsVersion E g newVersion =
     thenP (wrapping ''error getting compositions: '' (getCompositionsWithRetry E g)) (\<lambda>ul.
     if ul = [] then returnP ()
     else foreachP ul (\<lambda>u. updateCompositionWithRetry E g (ko_namespace u) (ko_name u) newVersion))"

section \<open>CompositionDefinitions\<close>

definition def_gvk :: "'s env \<Rightarrow> comp_def \<Rightarrow> gvk" where
  "def_gvk E cd = env_from_api_version E (cs_apiVersion (cd_status cd)) (cs_kind (cd_status cd))"

text \<open>The list error is formatted with \<open>%s\<close>, which drops the chain.\<close>

definition GetCompositionDefinitions :: "'s env \<Rightarrow> group_kind \<Rightarrow> ('s world, comp_def list) prog" where
  "GetCompositionDefinitions E gk =
     thenP (onErr (\<lambda>e. Plain (''error listing CompositionDefinitions: '' @ err_msg e)) (list_defs E)) (\<lambda>items.
     returnP (filter (\<lambda>cd. gvk_group (def_gvk E cd) = gk_group gk \<and>
                           gvk_kind (def_gvk E cd) = gk_kind gk) items))"

definition GetCompositionDefinitionsWithVersion ::
  "'s env \<Rightarrow> gvk \<Rightarrow> ('s world, comp_def list) prog" where
  "GetCompositionDefinitionsWithVersion E g =
     thenP (onErr (\<lambda>e. Plain (''error listing CompositionDefinitions: '' @ err_msg e)) (list_defs E)) (\<lambda>items.
     returnP (filter (\<lambda>cd. gvk_group (def_gvk E cd) = gvk_group g \<and>
                           gvk_kind (def_gvk E cd) = gvk_kind g \<and>
                           gvk_version (def_gvk E cd) = gvk_version g) items))"

section \<open>What they send\<close>

lemma emits_GetCompositions [emits_intros]:
  "(\<And>sel. EvDynList g sel \<in> A) \<Longrightarrow> emits w_trace A (GetCompositions E g)"
  unfolding GetCompositions_def by (intro emits_intros)

lemma emits_getCompositionsWithRetry [emits_intros]:
  "(\<And>sel. EvDynList g sel \<in> A) \<Longrightarrow> (\<And>d. EvWait d \<in> A) \<Longrightarrow>
   emits w_trace A (getCompositionsWithRetry E g)"
  unfolding getCompositionsWithRetry_def by (intro emits_intros) simp_all

lemma emits_defs [emits_intros]:
  "EvListDefs \<in> A \<Longrightarrow> emits w_trace A (GetCompositionDefinitions E gk)"
  "EvListDefs \<in> A \<Longrightarrow> emits w_trace A (GetCompositionDefinitionsWithVersion E g)"
  unfolding GetCompositionDefinitions_def GetCompositionDefinitionsWithVersion_def
  by (intro emits_intros; simp)+

text \<open>
  An update that only sets the version label: the object is some read object, with the label map it
  had (or none) and the version entry replaced.
\<close>

definition relabelled :: "'s env \<Rightarrow> string \<Rightarrow> kobj \<Rightarrow> bool" where
  "relabelled E newVersion u2 \<longleftrightarrow> (\<exists>u labels. env_nested_labels E u = Inr labels \<and>
     env_set_labels E (fmupd CompositionVersionLabel newVersion
       (case labels of None \<Rightarrow> fmempty | Some m \<Rightarrow> m)) u = Inr u2)"

lemma emits_relabel_attempt:
  assumes "EvDynGet g ns name \<in> A" and "\<And>u. relabelled E newVersion u \<Longrightarrow> EvDynUpdate g ns u \<in> A"
  shows "emits w_trace A (relabel_attempt E g ns name newVersion)"
proof -
  have upd: "emits w_trace A (thenP (wrapping p (liftSum (env_set_labels E
      (fmupd CompositionVersionLabel newVersion (case labels of None \<Rightarrow> fmempty | Some m \<Rightarrow> m)) u)))
      (\<lambda>u2. thenP (tryP (dyn_update E g ns u2)) k))"
    if "env_nested_labels E u = Inr labels" "\<And>x. emits w_trace A (k x)" for p labels u
      and k :: "err + kobj \<Rightarrow> ('a world, unit) prog"
  proof (rule emits_thenP_yields [where P = "\<lambda>u2. relabelled E newVersion u2"])
    show "yields (relabelled E newVersion) (wrapping p (liftSum (env_set_labels E
      (fmupd CompositionVersionLabel newVersion (case labels of None \<Rightarrow> fmempty | Some m \<Rightarrow> m)) u)))"
      using that(1) by (auto simp: yields_def ok_iffs relabelled_def)
  qed (auto intro!: emits_intros assms that)
  show ?thesis
    unfolding relabel_attempt_def Let_def
    by (intro emits_thenP emits_tryP emits_calls emits_case_sum emits_if emits_returnP emits_failP assms(1)
        emits_thenP_yields [where P = "\<lambda>l. env_nested_labels E _ = Inr l"] emits_onErr emits_liftSum upd)
      (auto simp: yields_def ok_iffs)
qed

lemma emits_UpdateCompositionsVersion:
  assumes "\<And>sel. EvDynList g sel \<in> A" and "\<And>d. EvWait d \<in> A" and "\<And>ns n. EvDynGet g ns n \<in> A"
    and "\<And>ns u. relabelled E newVersion u \<Longrightarrow> EvDynUpdate g ns u \<in> A"
  shows "emits w_trace A (UpdateCompositionsVersion E g newVersion)"
  unfolding UpdateCompositionsVersion_def updateCompositionWithRetry_def
  by (intro emits_intros emits_relabel_attempt) (simp_all add: assms)

definition relabel_events :: "'s env \<Rightarrow> string \<Rightarrow> event set" where
  "relabel_events E newVersion =
     {ev. is_write ev \<longrightarrow> (\<exists>g ns u. ev = EvDynUpdate g ns u \<and> relabelled E newVersion u)}"


section \<open>After a successful move\<close>

text \<open>
  A server that keeps a version label per composition: \<open>lab s (ns, n)\<close> is the label of the stored
  composition, \<open>None\<close> when there is none.
\<close>

definition label_server ::
  "'s env \<Rightarrow> gvr \<Rightarrow> ('s \<Rightarrow> string \<times> string \<Rightarrow> string option) \<Rightarrow> bool" where
  "label_server E g lab \<longleftrightarrow>
     (\<forall>ns n s. lab (snd (env_dyn_get E g ns n s)) = lab s) \<and>
     (\<forall>ns n s e. fst (env_dyn_get E g ns n s) = Inl e \<longrightarrow> IsNotFound E e \<longrightarrow> lab s (ns, n) = None) \<and>
     (\<forall>ns n s u l. fst (env_dyn_get E g ns n s) = Inr u \<longrightarrow> env_nested_labels E u = Inr l \<longrightarrow>
        ko_name u = n \<and> lab s (ns, n) = Some (label_value (case l of None \<Rightarrow> fmempty | Some m \<Rightarrow> m)
          CompositionVersionLabel)) \<and>
     (\<forall>ns m u u2 s e. env_set_labels E m u = Inr u2 \<longrightarrow> fst (env_dyn_update E g ns u2 s) = Inl e \<longrightarrow>
        lab (snd (env_dyn_update E g ns u2 s)) =
          (if IsNotFound E e then (lab s)((ns, ko_name u) := None) else lab s)) \<and>
     (\<forall>ns m u u2 s x. env_set_labels E m u = Inr u2 \<longrightarrow> fst (env_dyn_update E g ns u2 s) = Inr x \<longrightarrow>
        lab (snd (env_dyn_update E g ns u2 s)) =
          (lab s)((ns, ko_name u) \<mapsto> label_value m CompositionVersionLabel)) \<and>
     (\<forall>sel s. lab (snd (env_dyn_list E g sel s)) = lab s) \<and>
     (\<forall>d s. lab (snd (env_wait E d s)) = lab s)"

definition moved :: "string \<Rightarrow> ('k \<Rightarrow> string option) \<Rightarrow> 'k \<Rightarrow> bool" where
  "moved newVersion l k \<longleftrightarrow> l k = None \<or> l k = Some newVersion"

lemma label_value_fmupd [simp]: "label_value (fmupd k v m) k = v"
  by (simp add: label_value_def)

text \<open>One attempt keeps what has moved; if it succeeds, its own composition has.\<close>

lemma relabel_attempt_moves:
  assumes srv: "label_server E g lab" and run: "relabel_attempt E g ns name newVersion w = (r, w')"
  shows "(\<forall>k. moved newVersion (lab (w_ext w)) k \<longrightarrow> moved newVersion (lab (w_ext w')) k) \<and>
    (\<forall>k. k \<noteq> (ns, name) \<longrightarrow> lab (w_ext w') k = lab (w_ext w) k) \<and>
    (r = Ok () \<longrightarrow> moved newVersion (lab (w_ext w')) (ns, name))"
proof -
  let ?s = "w_ext w" let ?g = "env_dyn_get E g ns name ?s"
  note laws = srv [unfolded label_server_def]
  note get = laws [THEN conjunct1, rule_format, of ns name ?s]
    laws [THEN conjunct2, THEN conjunct1, rule_format, of ns name ?s]
    laws [THEN conjunct2, THEN conjunct2, THEN conjunct1, rule_format, of ns name ?s]
  note upd = laws [THEN conjunct2, THEN conjunct2, THEN conjunct2, THEN conjunct1, rule_format]
    laws [THEN conjunct2, THEN conjunct2, THEN conjunct2, THEN conjunct2, THEN conjunct1, rule_format]
  show ?thesis
  proof (cases "fst ?g")
    case (Inl e)
    with run get(1,2) show ?thesis
      by (auto simp: relabel_attempt_def prog_defs dyn_get_def call_apply moved_def split: if_splits)
  next
    case (Inr u)
    show ?thesis
    proof (cases "env_nested_labels E u")
      case Inl_l: (Inl e)
      with run Inr get(1) show ?thesis
        by (auto simp: relabel_attempt_def prog_defs dyn_get_def call_apply)
    next
      case Inr_l: (Inr l)
      let ?m = "case l of None \<Rightarrow> fmempty | Some m \<Rightarrow> m"
      note u = get(3) [OF Inr Inr_l]
      show ?thesis
      proof (cases "label_value ?m CompositionVersionLabel = newVersion")
        case True
        with run Inr Inr_l get(1) u show ?thesis
          by (auto simp: relabel_attempt_def prog_defs dyn_get_def call_apply moved_def)
      next
        case new: False
        show ?thesis
        proof (cases "env_set_labels E (fmupd CompositionVersionLabel newVersion ?m) u")
          case Inl_s: (Inl e)
          with run Inr Inr_l new get(1) show ?thesis
            by (auto simp: relabel_attempt_def prog_defs dyn_get_def call_apply)
        next
          case Inr_s: (Inr u2)
          let ?upd = "env_dyn_update E g ns u2 (snd ?g)"
          have w': "w_ext w' = snd ?upd" "r = (case fst ?upd of Inl e \<Rightarrow>
              if IsNotFound E e then Ok () else Err e | Inr _ \<Rightarrow> Ok ())"
            using run Inr Inr_l new Inr_s
            by (auto simp: relabel_attempt_def prog_defs dyn_get_def dyn_update_def call_apply
                split: sum.splits if_splits)
          show ?thesis
            using w' u get(1) upd(1) [OF Inr_s, of ns "snd ?g"] upd(2) [OF Inr_s, of ns "snd ?g"]
            by (cases "fst ?upd") (auto simp: moved_def)
        qed
      qed
    qed
  qed
qed


lemma label_server_wait: "label_server E g lab \<Longrightarrow> lab (w_ext (snd (Wait E d w))) = lab (w_ext w)"
  by (simp add: label_server_def Wait_def call_apply)

lemma updateCompositionWithRetry_moves:
  assumes srv: "label_server E g lab"
    and run: "updateCompositionWithRetry E g ns name newVersion w = (Ok (), w')"
  shows "moved newVersion (lab (w_ext w')) (ns, name) \<and>
    (\<forall>k. moved newVersion (lab (w_ext w)) k \<longrightarrow> moved newVersion (lab (w_ext w')) k) \<and>
    (\<forall>k. k \<noteq> (ns, name) \<longrightarrow> lab (w_ext w') k = lab (w_ext w) k)"
proof -
  let ?I = "\<lambda>v. (\<forall>k. moved newVersion (lab (w_ext w)) k \<longrightarrow> moved newVersion (lab (w_ext v)) k) \<and>
     (\<forall>k. k \<noteq> (ns, name) \<longrightarrow> lab (w_ext v) k = lab (w_ext w) k)"
  have "Do (Wait E) (composition_retry E) (relabel_attempt E g ns name newVersion) w = (Ok (), w')"
    using run by (simp add: updateCompositionWithRetry_def onErr_Ok_iff)
  then have loop: "Do_loop (composition_retry E) 5 (Wait E) (isRetryableCompositionError E)
      (relabel_attempt E g ns name newVersion) 1 w = (Ok (), w')"
    by (simp add: Do_def Let_def) (simp add: composition_retry_def compositionRetryAttempts_def)
  have "\<exists>v. ?I v \<and> relabel_attempt E g ns name newVersion v = (Ok (), w')"
  proof (rule Do_loop_Ok_inv [OF _ _ _ _ loop])
    show "?I v'" if "?I v" "relabel_attempt E g ns name newVersion v = (Err e, v')" for v v' e
      using that(1) relabel_attempt_moves [OF srv that(2)] by metis
    show "?I (snd (Wait E d v))" if "?I v" for d v
      using that label_server_wait [OF srv, of d v] by simp
  qed simp_all
  then obtain v where "?I v" "relabel_attempt E g ns name newVersion v = (Ok (), w')" by blast
  with relabel_attempt_moves [OF srv this(2)] show ?thesis by metis
qed

lemma foreach_moves:
  assumes srv: "label_server E g lab"
  shows "foreachP ul (\<lambda>u. updateCompositionWithRetry E g (ko_namespace u) (ko_name u) newVersion) w = (Ok (), w')
    \<Longrightarrow> (\<forall>u \<in> set ul. moved newVersion (lab (w_ext w')) (ko_namespace u, ko_name u)) \<and>
      (\<forall>k. moved newVersion (lab (w_ext w)) k \<longrightarrow> moved newVersion (lab (w_ext w')) k) \<and>
      (\<forall>k. k \<notin> (\<lambda>u. (ko_namespace u, ko_name u)) ` set ul \<longrightarrow> lab (w_ext w') k = lab (w_ext w) k)"
proof (induction ul arbitrary: w)
  case (Cons u ul)
  then obtain w1 where "updateCompositionWithRetry E g (ko_namespace u) (ko_name u) newVersion w = (Ok (), w1)"
    and rest: "foreachP ul (\<lambda>u. updateCompositionWithRetry E g (ko_namespace u) (ko_name u) newVersion) w1 = (Ok (), w')"
    by (auto simp: thenP_Ok_iff)
  from updateCompositionWithRetry_moves [OF srv this(1)] Cons.IH [OF rest] show ?case by auto
qed simp

text \<open>
  C15: When moving compositions to a version succeeds, every composition the server listed carries
  the new version label, or has disappeared meanwhile, and the label of no other composition has
  changed. The listing is the first call; the server keeps one label per composition.
\<close>

theorem UpdateCompositionsVersion_moves:
  assumes "label_server E g lab" and "env_label_selector E CompositionVersionLabel (gvr_version g) = Inr sel"
    and "fst (env_dyn_list E g sel (w_ext w)) = Inr ul"
    and "UpdateCompositionsVersion E g newVersion w = (Ok (), w')"
  shows "(\<forall>u \<in> set ul. lab (w_ext w') (ko_namespace u, ko_name u) \<in> {None, Some newVersion}) \<and>
    (\<forall>k. k \<notin> (\<lambda>u. (ko_namespace u, ko_name u)) ` set ul \<longrightarrow> lab (w_ext w') k = lab (w_ext w) k)"
proof -
  let ?w1 = "w\<lparr>w_trace := w_trace w @ [EvDynList g sel], w_ext := snd (env_dyn_list E g sel (w_ext w))\<rparr>"
  have "GetCompositions E g w = (Ok ul, ?w1)"
    using assms(2,3) by (simp add: GetCompositions_def prog_defs dyn_list_def call_apply)
  then have "getCompositionsWithRetry E g w = (Ok ul, ?w1)"
    by (simp add: getCompositionsWithRetry_def onErr_Ok_iff Do_first_Ok)
  with assms(4) have "ul = [] \<and> w' = ?w1 \<or>
      foreachP ul (\<lambda>u. updateCompositionWithRetry E g (ko_namespace u) (ko_name u) newVersion) ?w1 = (Ok (), w')"
    by (auto simp: UpdateCompositionsVersion_def ok_iffs split: if_splits)
  moreover have "lab (w_ext ?w1) = lab (w_ext w)"
    using assms(1) by (simp add: label_server_def)
  ultimately show ?thesis
  proof (elim disjE)
    assume run: "foreachP ul (\<lambda>u. updateCompositionWithRetry E g (ko_namespace u) (ko_name u)
      newVersion) ?w1 = (Ok (), w')" and same: "lab (w_ext ?w1) = lab (w_ext w)"
    from foreach_moves [OF assms(1) run] show ?thesis
      unfolding moved_def same by (metis insert_iff)
  qed auto
qed


definition sample_lab :: "cluster \<Rightarrow> string \<times> string \<Rightarrow> string option" where
  "sample_lab c k = (case find_obj ''Fireworks'' (fst k) (snd k) c of
     None \<Rightarrow> None
   | Some o1 \<Rightarrow> Some (case ko_body o1 of OtherBody (GStr v) \<Rightarrow> v | _ \<Rightarrow> ''''))"

definition sample_composition :: "string \<Rightarrow> string \<Rightarrow> kobj" where
  "sample_composition n v = \<lparr>ko_kind = ''Fireworks'', ko_apiVersion = ''composition.krateo.io/v1-0-0'',
     ko_name = n, ko_namespace = ''ns'', ko_resourceVersion = '''', ko_body = OtherBody (GStr v)\<rparr>"


lemma sample_label_server: "label_server sample_env g sample_lab"
proof -
  have lab: "sample_versionLabel = CompositionVersionLabel"
    by (simp add: sample_versionLabel_def CompositionVersionLabel_def)
  show ?thesis
    unfolding label_server_def
    by (auto simp: sample_env_def sample_lab_def find_put not_found_def sample_errors_def lab
        label_value_def fun_eq_iff dest: find_obj_name split: option.splits obj_body.splits gval.splits)
qed

theorem UpdateCompositionsVersion_moves_witness:
  "\<exists>w'. UpdateCompositionsVersion sample_env \<lparr>gvr_group = ''composition.krateo.io'',
        gvr_version = ''v1-0-0'', gvr_resource = ''fireworks''\<rparr> ''v1-1-0''
      (sample_world [sample_composition ''a'' ''v1-0-0''] []) = (Ok (), w') \<and>
    sample_lab (w_ext w') (''ns'', ''a'') \<in> {None, Some ''v1-1-0''}"
proof -
  let ?g = "\<lparr>gvr_group = ''composition.krateo.io'', gvr_version = ''v1-0-0'', gvr_resource = ''fireworks''\<rparr>"
  let ?c = "sample_composition ''a'' ''v1-0-0''"
  let ?w = "sample_world [?c] []"
  have lst: "fst (env_dyn_list sample_env ?g sel (w_ext ?w)) = Inr [?c]" for sel
    by (simp add: sample_env_def sample_world_def sample_composition_def)
  have sel: "env_label_selector sample_env CompositionVersionLabel (gvr_version ?g) =
      Inr (CompositionVersionLabel @ ''='' @ ''v1-0-0'')"
    by (simp add: sample_env_def)
  obtain w' where run: "UpdateCompositionsVersion sample_env ?g ''v1-1-0'' ?w = (Ok (), w')"
    by (simp add: UpdateCompositionsVersion_def getCompositionsWithRetry_def GetCompositions_def
        updateCompositionWithRetry_def relabel_attempt_def prog_defs Let_def dyn_list_def dyn_get_def
        dyn_update_def call_apply Do_def Do_loop.simps sample_env_def sample_world_def
        sample_composition_def find_obj_def CompositionVersionLabel_def sample_versionLabel_def
        label_value_def)
  from UpdateCompositionsVersion_moves [OF sample_label_server sel lst run] run show ?thesis
    by (auto simp: sample_composition_def)
qed

end
