(* ===== verification/Status.thy ===== *)
theory Status
  imports Generation
begin

text \<open>
  \<open>helpers/status/status.go\<close>: the version list in the status of a CompositionDefinition, and the
  rest of its status, refreshed from a CustomResourceDefinition.
\<close>

definition nil_chart :: string where
  "nil_chart = ''invalid memory address or nil pointer dereference''"

text \<open>
  A version not yet listed: the chart is recorded only for the version being reconciled, and reading
  the spec's chart panics when it is nil.
\<close>

definition new_detail :: "comp_def \<Rightarrow> crd_version \<Rightarrow> gvr \<Rightarrow> version_detail outcome" where
  "new_detail cr v g =
     (if gvr_version g = cv_name v
      then (case cd_chart cr of
          None \<Rightarrow> Panic nil_chart
        | Some c \<Rightarrow> Ok \<lparr>vd_version = cv_name v, vd_served = cv_served v, vd_stored = cv_storage v,
            vd_chart = Some c\<rparr>)
      else Ok \<lparr>vd_version = cv_name v, vd_served = cv_served v, vd_stored = cv_storage v,
            vd_chart = None\<rparr>)"

definition update_detail :: "comp_def \<Rightarrow> gvr \<Rightarrow> crd_version \<Rightarrow> version_detail list \<Rightarrow> version_detail list outcome" where
  "update_detail cr g v vis =
     (case find_index (\<lambda>cv. vd_version cv = cv_name v) vis of
        None \<Rightarrow> (case new_detail cr v g of
            Ok d \<Rightarrow> Ok (vis @ [d]) | Err e \<Rightarrow> Err e | Panic s \<Rightarrow> Panic s)
      | Some i \<Rightarrow> Ok (vis[i := (vis ! i)\<lparr>vd_served := cv_served v, vd_stored := cv_storage v\<rparr>]))"

fun update_details :: "comp_def \<Rightarrow> gvr \<Rightarrow> crd_version list \<Rightarrow> version_detail list \<Rightarrow> version_detail list outcome" where
  "update_details cr g [] vis = Ok vis"
| "update_details cr g (v # vs) vis =
     (case update_detail cr g v vis of
        Ok vis2 \<Rightarrow> update_details cr g vs vis2 | Err e \<Rightarrow> Err e | Panic s \<Rightarrow> Panic s)"

definition set_versionInfo :: "version_detail list \<Rightarrow> comp_def \<Rightarrow> comp_def" where
  "set_versionInfo vis cr = cr\<lparr>cd_status := (cd_status cr)\<lparr>cs_managed :=
     (cs_managed (cd_status cr))\<lparr>mg_versionInfo := vis\<rparr>\<rparr>\<rparr>"

definition versionInfo :: "comp_def \<Rightarrow> version_detail list" where
  "versionInfo cr = mg_versionInfo (cs_managed (cd_status cr))"

definition UpdateVersionInfo :: "comp_def \<Rightarrow> crd \<Rightarrow> gvr \<Rightarrow> comp_def outcome" where
  "UpdateVersionInfo cr c g =
     (case update_details cr g (crd_versions c) (versionInfo cr) of
        Ok vis \<Rightarrow> Ok (set_versionInfo vis cr) | Err e \<Rightarrow> Err e | Panic s \<Rightarrow> Panic s)"

definition RefreshCompositionDefinitionStatus ::
  "'s env \<Rightarrow> comp_def \<Rightarrow> crd \<Rightarrow> gvr \<Rightarrow> gvk \<Rightarrow> string \<Rightarrow> comp_def outcome" where
  "RefreshCompositionDefinitionStatus E cr c g k packageURL =
     (case UpdateVersionInfo cr c g of
        Ok cr1 \<Rightarrow>
          (let st = cd_status cr1; (apiVersion, kind) = env_to_api_version E k
           in Ok (cr1\<lparr>cd_status := st\<lparr>cs_managed := (cs_managed st)\<lparr>mg_group := crd_group c,
                  mg_kind := crd_kind c\<rparr>, cs_apiVersion := apiVersion, cs_kind := kind,
                  cs_resource := gvr_resource g, cs_packageURL := packageURL\<rparr>\<rparr>))
      | Err e \<Rightarrow> Err e
      | Panic s \<Rightarrow> Panic s)"

section \<open>What the version list is afterwards\<close>

definition detail_for :: "string \<Rightarrow> version_detail list \<Rightarrow> version_detail option" where
  "detail_for n vis = find (\<lambda>d. vd_version d = n) vis"

lemma new_detail_version: "new_detail cr v g = Ok d \<Longrightarrow>
  vd_version d = cv_name v \<and> vd_served d = cv_served v \<and> vd_stored d = cv_storage v \<and>
  vd_chart d = (if gvr_version g = cv_name v then cd_chart cr else None)"
  by (auto simp: new_detail_def split: if_splits option.splits)

lemma new_detail_not_Err: "new_detail cr v g \<noteq> Err e"
  by (simp add: new_detail_def split: option.split)

lemma find_index_None_versions:
  "find_index (\<lambda>cv. vd_version cv = n) vis = None \<longleftrightarrow> n \<notin> vd_version ` set vis"
  by (auto simp: find_index_None)

lemma update_detail_names:
  assumes "update_detail cr g v vis = Ok vis2"
  shows "map vd_version vis2 = map vd_version vis @
    (if cv_name v \<in> vd_version ` set vis then [] else [cv_name v])"
proof (cases "find_index (\<lambda>cv. vd_version cv = cv_name v) vis")
  case None
  with assms show ?thesis
    by (auto simp: update_detail_def find_index_None_versions dest: new_detail_version split: outcome.splits)
next
  case (Some i)
  then have "cv_name v \<in> vd_version ` set vis" using find_index_None_versions [of "cv_name v" vis] by auto
  with assms Some find_index_in_range [OF Some] show ?thesis
    by (auto simp: update_detail_def map_update intro!: list_update_same_conv [THEN iffD2])
qed

lemma detail_for_update:
  assumes "update_detail cr g v vis = Ok vis2"
  shows "detail_for n vis2 =
    (if n = cv_name v then Some (case detail_for n vis of
        None \<Rightarrow> \<lparr>vd_version = n, vd_served = cv_served v, vd_stored = cv_storage v,
           vd_chart = (if gvr_version g = n then cd_chart cr else None)\<rparr>
      | Some d \<Rightarrow> d\<lparr>vd_served := cv_served v, vd_stored := cv_storage v\<rparr>)
     else detail_for n vis)"
proof (cases "find_index (\<lambda>cv. vd_version cv = cv_name v) vis")
  case None
  then have none: "detail_for (cv_name v) vis = None"
    by (auto simp: detail_for_def find_None_iff find_index_None)
  from assms None obtain d where d: "new_detail cr v g = Ok d" "vis2 = vis @ [d]"
    by (auto simp: update_detail_def split: outcome.splits)
  have app: "detail_for n (vis @ [d]) = (case detail_for n vis of None \<Rightarrow>
      if vd_version d = n then Some d else None | Some x \<Rightarrow> Some x)"
    unfolding detail_for_def by (induction vis) auto
  have "d = \<lparr>vd_version = cv_name v, vd_served = cv_served v, vd_stored = cv_storage v,
           vd_chart = (if gvr_version g = cv_name v then cd_chart cr else None)\<rparr>"
    using new_detail_version [OF d(1)] by (cases d) simp
  with none d(2) app show ?thesis by (auto split: option.splits)
next
  case (Some i)
  then have "vis2 = vis[i := (vis ! i)\<lparr>vd_served := cv_served v, vd_stored := cv_storage v\<rparr>]"
    using assms by (simp add: update_detail_def)
  moreover have "detail_for n (vis[i := (vis ! i)\<lparr>vd_served := a, vd_stored := b\<rparr>]) =
      (if n = cv_name v then map_option (\<lambda>d. d\<lparr>vd_served := a, vd_stored := b\<rparr>) (detail_for n vis)
       else detail_for n vis)" for a b
    using Some unfolding detail_for_def
    by (induction vis arbitrary: i) (auto split: if_splits option.splits nat.splits)
  moreover have "detail_for (cv_name v) vis \<noteq> None"
    using Some find_index_None [of "\<lambda>cv. vd_version cv = cv_name v" vis]
    by (auto simp: detail_for_def find_None_iff)
  ultimately show ?thesis by auto
qed

lemma update_details_names:
  "update_details cr g vs vis = Ok vis2 \<Longrightarrow> distinct (map vd_version vis) \<Longrightarrow>
   distinct (map vd_version vis2) \<and> (\<exists>ys. map vd_version vis2 = map vd_version vis @ ys) \<and>
   set (map vd_version vis2) = set (map vd_version vis) \<union> cv_name ` set vs"
proof (induction vs arbitrary: vis)
  case (Cons v vs)
  then obtain vis1 where one: "update_detail cr g v vis = Ok vis1"
    and rest: "update_details cr g vs vis1 = Ok vis2" by (auto split: outcome.splits)
  note n = update_detail_names [OF one]
  have "distinct (map vd_version vis1)" using Cons.prems(2) unfolding n by auto
  from Cons.IH [OF rest this] n show ?case by auto
qed simp

lemma detail_for_updates:
  assumes "update_details cr g vs vis = Ok vis2" and "distinct (map cv_name vs)"
  shows "detail_for n vis2 =
    (case find (\<lambda>v. cv_name v = n) vs of None \<Rightarrow> detail_for n vis
     | Some v \<Rightarrow> Some (case detail_for n vis of
        None \<Rightarrow> \<lparr>vd_version = n, vd_served = cv_served v, vd_stored = cv_storage v,
           vd_chart = (if gvr_version g = n then cd_chart cr else None)\<rparr>
      | Some d \<Rightarrow> d\<lparr>vd_served := cv_served v, vd_stored := cv_storage v\<rparr>))"
  using assms
proof (induction vs arbitrary: vis)
  case (Cons v vs)
  then obtain vis1 where one: "update_detail cr g v vis = Ok vis1"
    and rest: "update_details cr g vs vis1 = Ok vis2" by (auto split: outcome.splits)
  have later: "find (\<lambda>w. cv_name w = cv_name v) vs = None"
    using Cons.prems(2) by (simp add: find_None_iff image_iff) metis
  have IH: "detail_for n vis2 =
    (case find (\<lambda>v. cv_name v = n) vs of None \<Rightarrow> detail_for n vis1
     | Some v \<Rightarrow> Some (case detail_for n vis1 of
        None \<Rightarrow> \<lparr>vd_version = n, vd_served = cv_served v, vd_stored = cv_storage v,
           vd_chart = (if gvr_version g = n then cd_chart cr else None)\<rparr>
      | Some d \<Rightarrow> d\<lparr>vd_served := cv_served v, vd_stored := cv_storage v\<rparr>))"
    using Cons.IH [OF rest] Cons.prems(2) by simp
  show ?case
  proof (cases "n = cv_name v")
    case True
    with later have "detail_for n vis2 = detail_for n vis1" using IH by simp
    with True detail_for_update [OF one, of n] show ?thesis by simp
  next
    case False
    then have "detail_for n vis1 = detail_for n vis" using detail_for_update [OF one, of n] by simp
    with IH show ?thesis using False [symmetric] by (simp only: find.simps if_False)
  qed
qed simp

lemma update_details_not_Err: "update_details cr g vs vis \<noteq> Err e"
proof (induction vs arbitrary: vis)
  case (Cons v vs)
  have "update_detail cr g v vis \<noteq> Err e'" for e'
    by (simp add: update_detail_def new_detail_not_Err split: option.split outcome.split)
  with Cons show ?case by (simp split: outcome.split)
qed simp

text \<open>
  C29: \<open>UpdateVersionInfo\<close>. Every version of the CustomResourceDefinition is listed afterwards with
  its served and stored flags; a version already listed keeps its chart whatever it was, a new one
  records the spec's chart if it is the version being reconciled and no chart otherwise; versions the
  CustomResourceDefinition does not have are untouched; no entry is removed, reordered or doubled.
\<close>

theorem UpdateVersionInfo_spec:
  assumes "UpdateVersionInfo cr c g = Ok cr'" and "distinct (map cv_name (crd_versions c))"
    and "distinct (map vd_version (versionInfo cr))"
  shows "detail_for n (versionInfo cr') =
      (case find (\<lambda>v. cv_name v = n) (crd_versions c) of
         None \<Rightarrow> detail_for n (versionInfo cr)
       | Some v \<Rightarrow> Some (case detail_for n (versionInfo cr) of
          None \<Rightarrow> \<lparr>vd_version = n, vd_served = cv_served v, vd_stored = cv_storage v,
             vd_chart = (if gvr_version g = n then cd_chart cr else None)\<rparr>
        | Some d \<Rightarrow> d\<lparr>vd_served := cv_served v, vd_stored := cv_storage v\<rparr>)) \<and>
    distinct (map vd_version (versionInfo cr')) \<and>
    (\<exists>ys. map vd_version (versionInfo cr') = map vd_version (versionInfo cr) @ ys)"
proof -
  obtain vis where vis: "update_details cr g (crd_versions c) (versionInfo cr) = Ok vis"
    and cr': "cr' = set_versionInfo vis cr"
    using assms(1) by (auto simp: UpdateVersionInfo_def split: outcome.splits)
  have "versionInfo cr' = vis" by (simp add: cr' versionInfo_def set_versionInfo_def)
  with detail_for_updates [OF vis assms(2), of n] update_details_names [OF vis assms(3)]
  show ?thesis by simp
qed

definition example_def :: "chart_info option \<Rightarrow> version_detail list \<Rightarrow> comp_def" where
  "example_def chart vis = \<lparr>cd_name = ''fireworks'', cd_namespace = ''ns'', cd_labels = None,
     cd_deleted = False, cd_chart = chart,
     cd_status = \<lparr>cs_conditions = GNull, cs_kind = ''Fireworks'', cs_resource = ''fireworks'',
       cs_apiVersion = ''composition.krateo.io/v1-0-0'',
       cs_managed = \<lparr>mg_versionInfo = vis, mg_group = ''composition.krateo.io'', mg_kind = ''Fireworks''\<rparr>,
       cs_packageURL = '''', cs_digest = ''''\<rparr>\<rparr>"

definition example_chart :: "string \<Rightarrow> chart_info" where
  "example_chart v = \<lparr>ci_url = ''oci://charts/fireworks'', ci_version = v, ci_repo = '''',
     ci_insecureSkipVerifyTLS = False, ci_credentials = None\<rparr>"

theorem UpdateVersionInfo_spec_witness:
  "\<exists>cr'. UpdateVersionInfo (example_def (Some (example_chart ''1.0.0'')) [])
      (example_crd [example_version ''v1-0-0'' True False, example_version ''vacuum'' False True])
      \<lparr>gvr_group = ''g'', gvr_version = ''v1-0-0'', gvr_resource = ''fireworks''\<rparr> = Ok cr' \<and>
    detail_for ''v1-0-0'' (versionInfo cr') = Some \<lparr>vd_version = ''v1-0-0'', vd_served = True,
      vd_stored = False, vd_chart = Some (example_chart ''1.0.0'')\<rparr> \<and>
    distinct (map vd_version (versionInfo cr'))"
proof -
  let ?cr = "example_def (Some (example_chart ''1.0.0'')) []"
  let ?c = "example_crd [example_version ''v1-0-0'' True False, example_version ''vacuum'' False True]"
  let ?g = "\<lparr>gvr_group = ''g'', gvr_version = ''v1-0-0'', gvr_resource = ''fireworks''\<rparr>"
  obtain cr' where run: "UpdateVersionInfo ?cr ?c ?g = Ok cr'"
    by (simp add: UpdateVersionInfo_def versionInfo_def example_def_def example_crd_def
        example_version_def update_detail_def new_detail_def)
  have "distinct (map cv_name (crd_versions ?c))" "distinct (map vd_version (versionInfo ?cr))"
    by (simp_all add: example_crd_def example_version_def versionInfo_def example_def_def)
  from UpdateVersionInfo_spec [OF run this, of "''v1-0-0''"] run show ?thesis
    by (auto simp: example_crd_def example_version_def versionInfo_def example_def_def detail_for_def)
qed

end
