(* ===== verification/Controller.thy ===== *)
theory Controller
  imports Crd Deploy Getters Status Chart Cert_Interface
begin

text \<open>
  \<open>compositiondefinitions.go\<close> and \<open>retry.go\<close>: the external client of the CompositionDefinition
  reconciler. The definition is a pointer the operations mutate, so it is a variable beside the world;
  what was written to it stays written when the operation fails later.
\<close>

section \<open>Template paths and options\<close>

definition CDCtemplateDeploymentPath :: "statics \<Rightarrow> string" where
  "CDCtemplateDeploymentPath st = Join [st_tempDir st, ''assets/cdc-deployment/deployment.yaml'']"

definition CDCtemplateConfigmapPath :: "statics \<Rightarrow> string" where
  "CDCtemplateConfigmapPath st = Join [st_tempDir st, ''assets/cdc-configmap/configmap.yaml'']"

definition CDCrbacConfigFolder :: "statics \<Rightarrow> string" where
  "CDCrbacConfigFolder st = Join [st_tempDir st, ''assets/cdc-rbac/'']"

definition JSONSchemaTemplateConfigmapPath :: "statics \<Rightarrow> string" where
  "JSONSchemaTemplateConfigmapPath st = Join [st_tempDir st, ''assets/json-schema-configmap/configmap.yaml'']"

definition ServiceTemplatePath :: "statics \<Rightarrow> string" where
  "ServiceTemplatePath st = Join [st_tempDir st, ''assets/cdc-service/service.yaml'']"

definition controller_deploy_options ::
  "statics \<Rightarrow> comp_def \<Rightarrow> gvr \<Rightarrow> string \<Rightarrow> bool \<Rightarrow> deploy_options" where
  "controller_deploy_options st cr g schemaBytes dryRun = \<lparr>do_gvr = g, do_namespace = cd_namespace cr,
     do_spec = cd_chart cr, do_rbacFolderPath = CDCrbacConfigFolder st,
     do_deploymentTemplatePath = CDCtemplateDeploymentPath st,
     do_configmapTemplatePath = CDCtemplateConfigmapPath st,
     do_jsonSchemaTemplatePath = JSONSchemaTemplateConfigmapPath st,
     do_serviceTemplatePath = ServiceTemplatePath st, do_jsonSchemaBytes = schemaBytes,
     do_dryRunServer = dryRun\<rparr>"

definition controller_undeploy_options ::
  "statics \<Rightarrow> comp_def \<Rightarrow> chart_info option \<Rightarrow> gvr \<Rightarrow> bool \<Rightarrow> undeploy_options" where
  "controller_undeploy_options st cr spec g skipCRD = \<lparr>ud_namespace = cd_namespace cr, ud_gvr = g,
     ud_spec = spec, ud_rbacFolderPath = CDCrbacConfigFolder st, ud_skipCRD = skipCRD,
     ud_deploymentTemplatePath = CDCtemplateDeploymentPath st,
     ud_serviceTemplatePath = ServiceTemplatePath st,
     ud_configmapTemplatePath = CDCtemplateConfigmapPath st,
     ud_jsonSchemaTemplatePath = JSONSchemaTemplateConfigmapPath st, ud_jsonSchemaBytes = ''''\<rparr>"

section \<open>Status of the definition\<close>

definition SetConditions :: "'s env \<Rightarrow> condition \<Rightarrow> comp_def \<Rightarrow> comp_def" where
  "SetConditions E cond cr = cr\<lparr>cd_status := (cd_status cr)\<lparr>cs_conditions :=
     env_set_condition E cond (cs_conditions (cd_status cr))\<rparr>\<rparr>"

definition set_digest :: "string \<Rightarrow> comp_def \<Rightarrow> comp_def" where
  "set_digest dig cr = cr\<lparr>cd_status := (cd_status cr)\<lparr>cs_digest := dig\<rparr>\<rparr>"

definition crd_absent :: "gvr \<Rightarrow> condition" where
  "crd_absent g = Unavailable (''crd for '' @ [CHR 0x27] @ gvr_String g @ [CHR 0x27] @ '' does not exists yet'')"

section \<open>Observe\<close>

record observation =
  ob_exists :: bool
  ob_upToDate :: bool

definition obs :: "bool \<Rightarrow> bool \<Rightarrow> observation" where
  "obs ex up = \<lparr>ob_exists = ex, ob_upToDate = up\<rparr>"

definition observe_chart :: "'s env \<Rightarrow> comp_def \<Rightarrow> ('s world, chart_fs \<times> gvk \<times> string) prog" where
  "observe_chart E cr =
     thenP (wrapping ''error getting chart info: '' (ChartInfoFromSpec E (cd_chart cr))) (\<lambda>(pkgInfo, dir).
     thenP (ForSpec E (cd_chart cr)) (\<lambda>pkg.
     thenP (liftOutcome (GroupVersionKind E pkg)) (\<lambda>chartGVK.
     thenP (wrapping ''error getting spec schema: '' (liftSum (ChartJsonSchema pkgInfo dir))) (\<lambda>schemaBytes.
     returnP (pkg, chartGVK, schemaBytes)))))"

text \<open>
  The resource of the kind. \<open>None\<close>: the definition is being deleted and its kind no longer resolves,
  which counts as gone whatever the error was.
\<close>

definition observe_gvr ::
  "'s env \<Rightarrow> statics \<Rightarrow> comp_def \<Rightarrow> gvk \<Rightarrow> string \<Rightarrow> ('s world, gvr option) prog" where
  "observe_gvr E st cr chartGVK schemaBytes =
     thenP (tryP (GVKtoGVR E chartGVK)) (\<lambda>got.
     case got of
       Inr g \<Rightarrow> returnP (Some g)
     | Inl e \<Rightarrow>
         if cd_deleted cr then returnP None
         else if IsNotFound E e
         then thenP (wrapping ''error getting GVR from generated CRD for GVR fallback: ''
                (liftOutcome (GetGVRFromGeneratedCRD E st schemaBytes chartGVK))) (\<lambda>g. returnP (Some g))
         else failP (Wrap ''error converting GVK to GVR: '' e ('' - GVK: '' @ gvk_String chartGVK)))"

text \<open>
  The bundle as it would be applied, then the bundle as it is, both against the digest in the status;
  when they agree, the status is refreshed.
\<close>

definition observe_bundle ::
  "'s env \<Rightarrow> statics \<Rightarrow> comp_def \<Rightarrow> chart_fs \<Rightarrow> gvk \<Rightarrow> string \<Rightarrow> gvr \<Rightarrow> kobj \<Rightarrow>
   (comp_def \<times> 's world, observation) prog" where
  "observe_bundle E st cr pkg chartGVK schemaBytes g crd1 =
     (let opts = controller_deploy_options st cr g schemaBytes True in
      thenP (besideP (wrapping ''error deploying dynamic controller in dry-run mode: '' (Deploy E opts))) (\<lambda>dig.
      if cs_digest (cd_status cr) \<noteq> dig then returnP (obs True False)
      else
      thenP (besideP (wrapping ''error looking up deployed resources digest: '' (Lookup E opts))) (\<lambda>dig2.
      if cs_digest (cd_status cr) \<noteq> dig2 then returnP (obs True False)
      else
      thenP (besideP (wrapping ''error refreshing CompositionDefinition status: ''
        (liftOutcome (RefreshCompositionDefinitionStatus E cr (crd_of crd1) g chartGVK
           (cf_packageURL pkg))))) (\<lambda>cr2.
      thenP (setVar (SetConditions E Available cr2)) (\<lambda>_.
      returnP (obs True True))))))"

definition Observe :: "'s env \<Rightarrow> statics \<Rightarrow> (comp_def \<times> 's world, observation) prog" where
  "Observe E st =
     thenP getVar (\<lambda>cr.
     thenP (besideP (observe_chart E cr)) (\<lambda>(pkg, chartGVK, schemaBytes).
     thenP (besideP (observe_gvr E st cr chartGVK schemaBytes)) (\<lambda>gvr1.
     case gvr1 of
       None \<Rightarrow> returnP (obs False False)
     | Some g \<Rightarrow>
         thenP (besideP (wrapping ''error getting CRD: '' (Get_crd E (GroupResource g)))) (\<lambda>crd1.
         case crd1 of
           None \<Rightarrow> thenP (setVar (SetConditions E (crd_absent g) cr)) (\<lambda>_. returnP (obs False False))
         | Some c1 \<Rightarrow>
             thenP (besideP (wrapping ''error looking up existing CRD version: '' (Lookup_crd E g))) (\<lambda>existVersion.
             if \<not> existVersion
             then thenP (setVar (SetConditions E (crd_absent g) cr)) (\<lambda>_. returnP (obs True False))
             else
               thenP (besideP (wrapping ''error generating CRD: ''
                 (liftSum (GenerateCRD E st schemaBytes chartGVK)))) (\<lambda>genCRD.
               thenP (besideP (wrapping ''error comparing CRD status: ''
                 (liftSum (StatusEqual E (ko_name c1) (crd_of c1) (ko_name genCRD) (crd_of genCRD))))) (\<lambda>statusEqual.
               if \<not> statusEqual then returnP (obs True False)
               else
                 thenP (besideP (wrapping ''error getting compositions: '' (GetCompositions E g))) (\<lambda>ul.
                 observe_bundle E st cr pkg chartGVK schemaBytes g c1))))))))"

section \<open>Create and Update\<close>

definition cert_apply_opts :: "'s cert_iface \<Rightarrow> string option \<Rightarrow> apply_opts" where
  "cert_apply_opts C cabundle = \<lparr>ap_caBundle = cabundle,
     ap_webhookServiceNamespace = ci_GetServiceNamespace C, ap_webhookServiceName = ci_GetServiceName C\<rparr>"

text \<open>
  The common middle part: schema, generated CRD, upsert, certificates. (The check for a nil CRD after
  a successful generation never fires: the decoder returns the object it was given.)
\<close>

definition apply_chart_crd ::
  "'s env \<Rightarrow> statics \<Rightarrow> 's cert_iface \<Rightarrow> string \<Rightarrow> tarfs \<Rightarrow> string \<Rightarrow> gvk \<Rightarrow>
   ('s world, gvr \<times> kobj \<times> string) prog" where
  "apply_chart_crd E st C certMsg pkg dir g =
     thenP (wrapping ''error getting JSON schema: '' (liftSum (ChartJsonSchema pkg dir))) (\<lambda>schemaBytes.
     thenP (wrapping ''error generating CRD: '' (liftSum (GenerateCRD E st schemaBytes g))) (\<lambda>crd1.
     thenP (ci_GetCABundle C) (\<lambda>cabundle.
     thenP (wrapping ''error applying or updating CRD: ''
       (ApplyOrUpdateCRD E crd1 (cert_apply_opts C cabundle))) (\<lambda>(r, crd2).
     thenP (wrapping certMsg (ci_ManageCertificates C r)) (\<lambda>_.
     returnP (r, crd2, schemaBytes))))))"

definition Create :: "'s env \<Rightarrow> statics \<Rightarrow> 's cert_iface \<Rightarrow> (comp_def \<times> 's world, unit) prog" where
  "Create E st C =
     thenP getVar (\<lambda>cr.
     thenP (besideP (ChartInfoFromSpec E (cd_chart cr))) (\<lambda>(pkg, dir).
     thenP (besideP (liftOutcome (ChartGroupVersionKind E pkg dir))) (\<lambda>g.
     thenP (besideP (apply_chart_crd E st C ''error managing certificates after CRD apply: '' pkg dir g))
       (\<lambda>(r, crd2, schemaBytes).
     thenP (besideP (Deploy E (controller_deploy_options st cr r schemaBytes False))) (\<lambda>dig.
     setVar (set_digest dig cr))))))"

definition old_gvk :: "'s env \<Rightarrow> comp_def \<Rightarrow> gvk" where
  "old_gvk E cr = env_from_api_version E (cs_apiVersion (cd_status cr)) (cs_kind (cd_status cr))"

definition old_gvr :: "'s env \<Rightarrow> comp_def \<Rightarrow> gvr" where
  "old_gvr E cr = \<lparr>gvr_group = gvk_group (old_gvk E cr), gvr_version = gvk_version (old_gvk E cr),
     gvr_resource = cs_resource (cd_status cr)\<rparr>"

text \<open>One round of the loop over the recorded versions: remove the bundle of the old one.\<close>

definition undeploy_old :: "'s env \<Rightarrow> statics \<Rightarrow> comp_def \<Rightarrow> version_detail \<Rightarrow> ('s world, unit) prog" where
  "undeploy_old E st cr vi =
     whenP (gvk_kind (old_gvk E cr) = mg_kind (cs_managed (cd_status cr)) \<and>
            gvk_version (old_gvk E cr) = vd_version vi)
       (wrapping ''error undeploying older version of dynamic controller: ''
         (Undeploy E (controller_undeploy_options st cr (vd_chart vi) (old_gvr E cr) True)))"

definition move_compositions :: "'s env \<Rightarrow> comp_def \<Rightarrow> gvk \<Rightarrow> ('s world, unit) prog" where
  "move_compositions E cr g =
     whenP (gvk_version (old_gvk E cr) \<noteq> gvk_version g \<and> cs_kind (cd_status cr) = gvk_kind g \<and>
            gvk_group (old_gvk E cr) = gvk_group g)
       (wrapping ''error updating compositions version: ''
         (UpdateCompositionsVersion E (old_gvr E cr) (gvk_version g)))"

definition Update :: "'s env \<Rightarrow> statics \<Rightarrow> 's cert_iface \<Rightarrow> (comp_def \<times> 's world, unit) prog" where
  "Update E st C =
     thenP getVar (\<lambda>cr.
     thenP (besideP (wrapping ''error getting chart info: '' (ChartInfoFromSpec E (cd_chart cr)))) (\<lambda>(pkg, dir).
     thenP (besideP (ForSpec E (cd_chart cr))) (\<lambda>pkgFS.
     thenP (besideP (liftOutcome (ChartGroupVersionKind E pkg dir))) (\<lambda>g.
     thenP (besideP (apply_chart_crd E st C ''error managing certificates after CRD update: '' pkg dir g))
       (\<lambda>(r, crd2, schemaBytes).
     thenP (besideP (wrapping ''error deploying dynamic controller: ''
       (Deploy E (controller_deploy_options st cr r schemaBytes False)))) (\<lambda>dig.
     (let cr1 = set_digest dig cr in
     thenP (setVar cr1) (\<lambda>_.
     thenP (besideP (whenP (old_gvk E cr1 \<noteq> g)
       (foreachP (versionInfo cr1) (undeploy_old E st cr1)))) (\<lambda>_.
     thenP (besideP (move_compositions E cr1 g)) (\<lambda>_.
     thenP (besideP (wrapping ''error refreshing CompositionDefinition status: ''
       (liftOutcome (RefreshCompositionDefinitionStatus E cr1 (crd_of crd2) r g (cf_packageURL pkgFS))))) (\<lambda>cr2.
     setVar cr2)))))))))))"

section \<open>Delete\<close>

definition waiting_for_compositions :: err where
  "waiting_for_compositions =
     Plain ''error undeploying CompositionDefinition: waiting for composition deletion''"

definition delete_compositions :: "'s env \<Rightarrow> gvr \<Rightarrow> ('s world, unit) prog" where
  "delete_compositions E g =
     thenP (wrapping ''error getting compositions: '' (GetCompositions E g)) (\<lambda>ul.
     thenP (foreachP ul (\<lambda>u. Uninstall E u no_uninstall_options)) (\<lambda>_.
     thenP (wrapping ''error getting compositions: '' (GetCompositions E g)) (\<lambda>ul2.
     if length ul2 > 0 then failP waiting_for_compositions else returnP ())))"

definition delete_existing :: "'s env \<Rightarrow> statics \<Rightarrow> comp_def \<Rightarrow> gvk \<Rightarrow> gvr \<Rightarrow> ('s world, unit) prog" where
  "delete_existing E st cr g r =
     thenP (wrapping ''error getting CompositionDefinitions: '' (GetCompositionDefinitionsWithVersion E g)) (\<lambda>lst.
     thenP (whenP (length lst = 1) (delete_compositions E r)) (\<lambda>_.
     thenP (wrapping ''error getting CompositionDefinitions: ''
       (GetCompositionDefinitions E \<lparr>gk_group = gvk_group g, gk_kind = gvk_kind g\<rparr>)) (\<lambda>lst2.
     (let skipCRD = (if length lst2 > 1 then True else False) in
      onErr (\<lambda>e. if errors_is e CompositionStillExist then waiting_for_compositions
                 else Wrap ''error undeploying CompositionDefinition: '' e '''')
        (Undeploy E (controller_undeploy_options st cr (cd_chart cr) r skipCRD))))))"

definition Delete :: "'s env \<Rightarrow> statics \<Rightarrow> (comp_def \<times> 's world, unit) prog" where
  "Delete E st =
     thenP getVar (\<lambda>cr0.
     (let cr = SetConditions E Deleting cr0 in
     thenP (setVar cr) (\<lambda>_.
     thenP (besideP (wrapping ''error getting chart info: '' (ChartInfoFromSpec E (cd_chart cr)))) (\<lambda>(pkg, dir).
     thenP (besideP (wrapping ''error getting chart GVK: '' (liftOutcome (ChartGroupVersionKind E pkg dir)))) (\<lambda>g.
     thenP (besideP (tryP (GVKtoGVR E g))) (\<lambda>got.
     case got of
       Inl e \<Rightarrow>
         if IsNotFound E e then returnP ()
         else failP (Wrap ''error converting GVK to GVR: '' e ('' - GVK: '' @ gvk_String g))
     | Inr r \<Rightarrow> besideP (delete_existing E st cr g r)))))))"

section \<open>Updating definitions with retry\<close>

definition compositionDefinitionRetryAttempts :: int where "compositionDefinitionRetryAttempts = 5"
definition compositionDefinitionRetryInitialDelay :: int where
  "compositionDefinitionRetryInitialDelay = 250 * millisecond"
definition compositionDefinitionRetryMaximumDelay :: int where
  "compositionDefinitionRetryMaximumDelay = 2 * second"

definition isNonRetryableCompositionDefinitionError :: "'s env \<Rightarrow> err \<Rightarrow> bool" where
  "isNonRetryableCompositionDefinitionError E e =
     (if ae_IsForbidden (env_errors E) e \<or> ae_IsUnauthorized (env_errors E) e \<or> IsNotFound E e \<or>
         ae_IsInvalid (env_errors E) e \<or> ae_IsBadRequest (env_errors E) e then True
      else (case status_code e of
          Some c \<Rightarrow> if c = 401 \<or> c = 403 \<or> c = 404 \<or> c = 422 \<or> c = 400 then True else False
        | None \<Rightarrow> False))"

definition isRetryableCompositionDefinitionError :: "'s env \<Rightarrow> err \<Rightarrow> bool" where
  "isRetryableCompositionDefinitionError E e =
     (if errors_is e Canceled then False
      else if errors_is e DeadlineExceeded then True
      else if isNonRetryableCompositionDefinitionError E e then False
      else (case as_net_error e of
          Some (timeout, temporary) \<Rightarrow> if timeout \<or> temporary then True else True
        | None \<Rightarrow> True))"

interpretation definition_errors: retry_classifier "isRetryableCompositionDefinitionError E" for E :: "'s env"
  by unfold_locales (simp_all add: isRetryableCompositionDefinitionError_def)

definition definition_retry :: "'s env \<Rightarrow> 's world retry_config" where
  "definition_retry E = \<lparr>rc_attempts = compositionDefinitionRetryAttempts,
     rc_initial = compositionDefinitionRetryInitialDelay,
     rc_maximum = compositionDefinitionRetryMaximumDelay, rc_wait = Some (Wait E),
     rc_retryable = Some (isRetryableCompositionDefinitionError E),
     rc_onRetry = Some (\<lambda>attempt delay e w. w)\<rparr>"

lemma definition_retry_simps [simp]:
  "rc_wait (definition_retry E) = Some (Wait E)" "run_onRetry (definition_retry E) a d e w = w"
  "rc_retryable (definition_retry E) = Some (isRetryableCompositionDefinitionError E)"
  by (simp_all add: definition_retry_def run_onRetry_def)

definition definition_failed :: "string \<Rightarrow> string \<Rightarrow> string \<Rightarrow> string" where
  "definition_failed what ns name = what @ ns @ ''/'' @ name @ '' failed after 5 attempts: ''"

text \<open>
  \<open>semEq\<close> is \<open>equality.Semantic.DeepEqual\<close> on statuses. Only the status goes to the server.
\<close>

definition status_attempt ::
  "'s env \<Rightarrow> (cd_status \<Rightarrow> cd_status \<Rightarrow> bool) \<Rightarrow> string \<Rightarrow> string \<Rightarrow> (comp_def \<Rightarrow> comp_def) \<Rightarrow>
   ('s world, unit) prog" where
  "status_attempt E semEq ns name mutate =
     thenP (get_def E ns name) (\<lambda>current.
     (let current2 = mutate current in
      if semEq (cd_status current) (cd_status current2) then returnP ()
      else update_def_status E current2))"

definition updateCompositionDefinitionStatusWithRetry ::
  "'s env \<Rightarrow> (cd_status \<Rightarrow> cd_status \<Rightarrow> bool) \<Rightarrow> string \<Rightarrow> string \<Rightarrow> (comp_def \<Rightarrow> comp_def) \<Rightarrow>
   ('s world, unit) prog" where
  "updateCompositionDefinitionStatusWithRetry E semEq ns name mutate =
     wrapping (definition_failed ''updating CompositionDefinition status '' ns name)
       (Do (Wait E) (definition_retry E) (status_attempt E semEq ns name mutate))"

definition definition_attempt ::
  "'s env \<Rightarrow> string \<Rightarrow> string \<Rightarrow> (comp_def \<Rightarrow> comp_def \<times> bool) \<Rightarrow> ('s world, unit) prog" where
  "definition_attempt E ns name mutate =
     thenP (tryP (get_def E ns name)) (\<lambda>got.
     case got of
       Inl e \<Rightarrow> if IsNotFound E e then returnP () else failP e
     | Inr current \<Rightarrow>
         (let (current2, changed) = mutate current in
          if \<not> changed then returnP ()
          else
            thenP (tryP (update_def E current2)) (\<lambda>r.
            case r of
              Inl e \<Rightarrow> if IsNotFound E e then returnP () else failP e
            | Inr _ \<Rightarrow> returnP ())))"

definition updateCompositionDefinitionWithRetry ::
  "'s env \<Rightarrow> string \<Rightarrow> string \<Rightarrow> (comp_def \<Rightarrow> comp_def \<times> bool) \<Rightarrow> ('s world, unit) prog" where
  "updateCompositionDefinitionWithRetry E ns name mutate =
     wrapping (definition_failed ''updating CompositionDefinition '' ns name)
       (Do (Wait E) (definition_retry E) (definition_attempt E ns name mutate))"

section \<open>Starting up\<close>

definition obsoleteLabel :: string where
  "obsoleteLabel = ''composition.krateo.io/still-exist-compositions-finalizer''"

definition without_obsolete :: "(string, string) fmap \<Rightarrow> comp_def \<Rightarrow> comp_def" where
  "without_obsolete labels cr = cr\<lparr>cd_labels := Some (fmdrop obsoleteLabel labels)\<rparr>"

text \<open>A failed update is logged and skipped.\<close>

definition cleanup_one :: "'s env \<Rightarrow> comp_def \<Rightarrow> ('s world, unit) prog" where
  "cleanup_one E cr =
     (case cd_labels cr of
        None \<Rightarrow> returnP ()
      | Some labels \<Rightarrow>
          if fmlookup labels obsoleteLabel \<noteq> None
          then thenP (tryP (update_def E (without_obsolete labels cr))) (\<lambda>_. returnP ())
          else returnP ())"

definition cleanupObsoleteFinalizerLabels :: "'s env \<Rightarrow> ('s world, unit) prog" where
  "cleanupObsoleteFinalizerLabels E =
     thenP (wrapping ''error listing CompositionDefinitions: '' (list_defs E)) (\<lambda>items.
     if length items = 0 then returnP () else foreachP items (cleanup_one E))"

end
