(* ===== verification/Views.thy ===== *)
theory Views
  imports Convergence Cert_Manager Controller
begin

text \<open>
  What programs do to the objects the API server stores, seen through a \<open>view\<close>: \<open>quiet\<close> programs leave all
  of them alone; \<open>keeps view I\<close> programs preserve a property \<open>I\<close> of them, however they end.
\<close>

section \<open>Two judgements\<close>

definition quiet :: "'s view \<Rightarrow> ('s world, 'a) prog \<Rightarrow> bool" where
  "quiet view m \<longleftrightarrow> (\<forall>w. view (w_ext (snd (m w))) = view (w_ext w))"

definition keeps ::
  "'s view \<Rightarrow> ((string \<times> string \<times> string \<Rightarrow> kobj option) \<Rightarrow> bool) \<Rightarrow> ('s world, 'a) prog \<Rightarrow> bool" where
  "keeps view I m \<longleftrightarrow> (\<forall>w. I (view (w_ext w)) \<longrightarrow> I (view (w_ext (snd (m w)))))"

named_theorems keeps_intros

lemma quietD: "quiet view m \<Longrightarrow> m w = (r, w') \<Longrightarrow> view (w_ext w') = view (w_ext w)"
  unfolding quiet_def by (metis snd_conv)

lemma keepsD: "keeps view I m \<Longrightarrow> m w = (r, w') \<Longrightarrow> I (view (w_ext w)) \<Longrightarrow> I (view (w_ext w'))"
  unfolding keeps_def by (metis snd_conv)

lemma quiet_iff_keeps: "quiet view m \<longleftrightarrow> (\<forall>V. keeps view (\<lambda>V'. V' = V) m)"
  unfolding quiet_def keeps_def by metis

lemma quiet_keeps: "quiet view m \<Longrightarrow> keeps view I m"
  unfolding quiet_def keeps_def by metis

lemma pure_reader_quiet: "pure_reader m \<Longrightarrow> quiet view m"
  unfolding pure_reader_def quiet_def by metis

lemma keeps_basic [keeps_intros]:
  "keeps view I (returnP x)" "keeps view I (failP e)" "keeps view I (panicP s)"
  "keeps view I (liftSum r)" "keeps view I (liftOutcome q)"
  by (simp_all add: keeps_def liftSum_def liftOutcome_def split: sum.split)

lemma keeps_thenP_result:
  assumes m: "keeps view I m"
    and k: "\<And>x w w'. m w = (Ok x, w') \<Longrightarrow> I (view (w_ext w)) \<Longrightarrow> I (view (w_ext w')) \<Longrightarrow>
      I (view (w_ext (snd (k x w'))))"
  shows "keeps view I (thenP m k)"
  unfolding keeps_def
proof (intro allI impI)
  fix w :: "'a world"
  assume I: "I (view (w_ext w))"
  obtain r w' where r: "m w = (r, w')" by fastforce
  have I': "I (view (w_ext w'))" by (rule keepsD [OF m r I])
  show "I (view (w_ext (snd (thenP m k w))))"
    using r I' k [of w _ w'] I by (cases r) (simp_all add: thenP_def)
qed

lemma keeps_thenP [keeps_intros]:
  "keeps view I m \<Longrightarrow> (\<And>x. keeps view I (k x)) \<Longrightarrow> keeps view I (thenP m k)"
  by (rule keeps_thenP_result) (auto simp: keeps_def)

lemma keeps_thenP_yields:
  "keeps view I m \<Longrightarrow> yields P m \<Longrightarrow> (\<And>x. P x \<Longrightarrow> keeps view I (k x)) \<Longrightarrow> keeps view I (thenP m k)"
  by (rule keeps_thenP_result) (auto simp: keeps_def dest: yieldsD)

lemma keeps_tryP [keeps_intros]: "keeps view I m \<Longrightarrow> keeps view I (tryP m)"
  by (simp add: keeps_def)

lemma keeps_onErr [keeps_intros]: "keeps view I m \<Longrightarrow> keeps view I (onErr f m)"
  by (simp add: keeps_def)

lemma keeps_if [keeps_intros]:
  "(b \<Longrightarrow> keeps view I m) \<Longrightarrow> (\<not> b \<Longrightarrow> keeps view I n) \<Longrightarrow> keeps view I (if b then m else n)"
  by simp

lemma keeps_whenP [keeps_intros]: "(b \<Longrightarrow> keeps view I m) \<Longrightarrow> keeps view I (whenP b m)"
  by (simp add: whenP_def keeps_basic)

lemma keeps_case_sum [keeps_intros]:
  "(\<And>e. r = Inl e \<Longrightarrow> keeps view I (f e)) \<Longrightarrow> (\<And>x. r = Inr x \<Longrightarrow> keeps view I (g x)) \<Longrightarrow>
   keeps view I (case r of Inl e \<Rightarrow> f e | Inr x \<Rightarrow> g x)"
  by (cases r) simp_all

lemma keeps_case_option [keeps_intros]:
  "(r = None \<Longrightarrow> keeps view I n) \<Longrightarrow> (\<And>x. r = Some x \<Longrightarrow> keeps view I (g x)) \<Longrightarrow>
   keeps view I (case r of None \<Rightarrow> n | Some x \<Rightarrow> g x)"
  by (cases r) simp_all

lemma keeps_case_prod [keeps_intros]:
  "(\<And>a b. p = (a, b) \<Longrightarrow> keeps view I (f a b)) \<Longrightarrow> keeps view I (case p of (a, b) \<Rightarrow> f a b)"
  by (cases p) simp

lemma keeps_foreachP [keeps_intros]:
  "(\<And>x. x \<in> set xs \<Longrightarrow> keeps view I (f x)) \<Longrightarrow> keeps view I (foreachP xs f)"
  by (induction xs) (simp_all add: keeps_intros)

lemma keeps_call: "(\<And>s. view (snd (f s)) = view s) \<Longrightarrow> keeps view I (call ev f)"
  by (simp add: keeps_def call_apply)

text \<open>A retried operation keeps what one attempt and the waiting keep.\<close>

lemma keeps_Do:
  assumes "keeps view I operation" and "\<And>d. keeps view I (wait d)"
    and "rc_wait cfg = None \<or> rc_wait cfg = Some wait" and "\<And>a d e w. run_onRetry cfg a d e w = w"
  shows "keeps view I (Do wait cfg operation)"
  unfolding keeps_def
proof (intro allI impI)
  fix w :: "'a world"
  assume "I (view (w_ext w))"
  then show "I (view (w_ext (snd (Do wait cfg operation w))))"
    by (intro Do_invariant [where I = "\<lambda>w. I (view (w_ext w))"])
      (use assms in \<open>auto simp: keeps_def\<close>)
qed

section \<open>Applying an object\<close>

text \<open>\<open>o2\<close> is the answer to a real create or update of \<open>o1\<close>, whatever the resource version sent.\<close>

definition answered :: "'s env \<Rightarrow> kobj \<Rightarrow> kobj \<Rightarrow> bool" where
  "answered E o1 o2 \<longleftrightarrow> (\<exists>ao rv s. ao_dryRun ao = [] \<and>
     (fst (env_create E ao (o1\<lparr>ko_resourceVersion := rv\<rparr>) s) = Inr o2 \<or>
      fst (env_update E ao (o1\<lparr>ko_resourceVersion := rv\<rparr>) s) = Inr o2))"

definition same_request :: "kobj \<Rightarrow> kobj \<Rightarrow> bool" where
  "same_request o1 o2 \<longleftrightarrow> (\<exists>rv. o2 = o1\<lparr>ko_resourceVersion := rv\<rparr>)"

lemma same_request_refl [simp]: "same_request o1 o1"
  unfolding same_request_def by (rule exI [of _ "ko_resourceVersion o1"]) simp

lemma same_request_rv [simp]: "same_request o1 o2 \<Longrightarrow> same_request o1 (o2\<lparr>ko_resourceVersion := v\<rparr>)"
  by (auto simp: same_request_def)

lemma same_request_key: "same_request o1 o2 \<Longrightarrow> key_of o2 = key_of o1"
  by (auto simp: same_request_def)

text \<open>
  What one attempt can end with: the answer to a create when nothing is stored, to an update otherwise.
\<close>

lemma apply_attempt_inv:
  assumes srv: "storing_server E view" and run: "apply_attempt E ao (o1, w) = (r, (o2, w'))"
  shows "\<exists>rv s. view s = view (w_ext w) \<and>
     (case r of
        Ok _ \<Rightarrow> (if view s (key_of o1) = None then (Inr o2, w_ext w') = env_create E ao o1 s
                else (Inr o2, w_ext w') = env_update E ao (o1\<lparr>ko_resourceVersion := rv\<rparr>) s)
      | Err _ \<Rightarrow> same_request o1 o2 \<and> (w_ext w' = w_ext w \<or>
            w_ext w' = snd (env_create E ao o1 s) \<or>
            w_ext w' = snd (env_update E ao (o1\<lparr>ko_resourceVersion := rv\<rparr>) s))
      | Panic _ \<Rightarrow> True)"
proof -
  obtain e where e: "IsNotFound E e" and g: "k_get E o1 w =
     (outcome_of (case view (w_ext w) (key_of o1) of Some o2 \<Rightarrow> Inr o2 | None \<Rightarrow> Inl e),
      w\<lparr>w_trace := w_trace w @ [EvGet (ko_kind o1) (ko_apiVersion o1) (ko_namespace o1) (ko_name o1)]\<rparr>)"
    using server_get [OF srv] by blast
  show ?thesis
  proof (cases "view (w_ext w) (key_of o1)")
    case None
    with e g run show ?thesis
      by (intro exI [of _ "''''"] exI [of _ "w_ext w"], cases "env_create E ao o1 (w_ext w)",
          cases "fst (env_create E ao o1 (w_ext w))")
        (auto simp: apply_attempt_def prog_defs k_create_def call_apply)
  next
    case (Some tmp)
    let ?o = "o1\<lparr>ko_resourceVersion := ko_resourceVersion tmp\<rparr>"
    from Some g run show ?thesis
      by (intro exI [of _ "ko_resourceVersion tmp"] exI [of _ "w_ext w"], cases "env_update E ao ?o (w_ext w)",
          cases "fst (env_update E ao ?o (w_ext w))")
        (auto simp: apply_attempt_def prog_defs k_update_def call_apply Let_def)
  qed
qed

text \<open>The same for the whole retried operation.\<close>

lemma Apply_invariant:
  assumes wt: "\<And>d s. view (snd (env_wait E d s)) = view s"
    and err: "\<And>v o2 e w2. same_request o1 (fst v) \<Longrightarrow> view (w_ext (snd v)) = u \<Longrightarrow>
      apply_attempt E ao v = (Err e, (o2, w2)) \<Longrightarrow> same_request o1 o2 \<and> view (w_ext w2) = u"
    and start: "view (w_ext w) = u" and run: "Apply E o1 ao w = (Ok o2, w')"
  shows "\<exists>o1' w0. same_request o1 o1' \<and> view (w_ext w0) = u \<and> apply_attempt E ao (o1', w0) = (Ok (), (o2, w'))"
proof -
  let ?I = "\<lambda>s. same_request o1 (fst s) \<and> view (w_ext (snd s)) = u"
  have r: "Do (\<lambda>d. besideP (Wait E d)) client_retry (apply_attempt E ao) (o1, w) = (Ok (), (o2, w'))"
    using run by (auto simp: Apply_def split: prod.splits outcome.splits)
  have "\<exists>v. ?I v \<and> apply_attempt E ao v = (Ok (), (o2, w'))"
  proof (rule Do_Ok_inv [OF r])
    show "?I (o1, w)" using start by simp
    fix v e and v' :: "kobj \<times> 'a world"
    assume "?I v" "apply_attempt E ao v = (Err e, v')"
    then show "?I v'" using err [of v e "fst v'" "snd v'"] by auto
  next
    fix d and v :: "kobj \<times> 'a world"
    assume "?I v"
    then show "?I (snd (besideP (Wait E d) v))"
      using wt by (cases v) (auto simp: besideP_def Wait_def call_apply)
  qed simp_all
  then show ?thesis by (metis prod.collapse)
qed

lemma Apply_answered:
  assumes srv: "storing_server E view" and ao: "ao_dryRun ao = []" and run: "Apply E o1 ao w = (Ok o2, w')"
  shows "answered E o1 o2"
proof -
  have "\<exists>o1' w0. same_request o1 o1' \<and> view (w_ext w0) = view (w_ext w) \<and>
      apply_attempt E ao (o1', w0) = (Ok (), (o2, w'))"
  proof (rule Apply_invariant [OF _ _ refl run])
    show "view (snd (env_wait E d s)) = view s" for d s
      using srv by (simp add: storing_server_def)
    fix v o3 e w2
    assume v: "same_request o1 (fst v)" "view (w_ext (snd v)) = view (w_ext w)"
      "apply_attempt E ao v = (Err e, (o3, w2))"
    then show "same_request o1 o3 \<and> view (w_ext w2) = view (w_ext w)"
      using apply_attempt_inv [OF srv, of ao "fst v" "snd v" "Err e" o3 w2]
        apply_attempt_stores [OF srv ao, of "fst v" "snd v" "Err e" o3 w2]
      by (auto simp: same_request_def)
  qed
  then obtain o1' w0 where same: "same_request o1 o1'"
    and ok: "apply_attempt E ao (o1', w0) = (Ok (), (o2, w'))" by blast
  obtain rv0 where o1': "o1' = o1\<lparr>ko_resourceVersion := rv0\<rparr>"
    using same by (auto simp: same_request_def)
  from apply_attempt_inv [OF srv ok] obtain rv s where
    "fst (env_create E ao o1' s) = Inr o2 \<or> fst (env_update E ao (o1'\<lparr>ko_resourceVersion := rv\<rparr>) s) = Inr o2"
    by (auto split: if_splits) (metis fst_conv)+
  then show ?thesis
    unfolding answered_def o1' using ao by auto
qed


lemma Apply_fails:
  assumes srv: "storing_server E view" and ao: "ao_dryRun ao = []" and run: "Apply E o1 ao w = (Err e, w')"
  shows "view (w_ext w') = view (w_ext w)"
proof -
  let ?I = "\<lambda>s. view (w_ext (snd s)) = view (w_ext w)"
  obtain o2 where r: "Do (\<lambda>d. besideP (Wait E d)) client_retry (apply_attempt E ao) (o1, w) = (Err e, (o2, w'))"
    using run by (auto simp: Apply_def split: prod.splits outcome.splits)
  have "?I (o2, w')"
  proof (rule Do_Err_inv [OF r])
    fix v e and v' :: "kobj \<times> 'a world"
    assume "?I v" "apply_attempt E ao v = (Err e, v')"
    then show "?I v'"
      using apply_attempt_stores [OF srv ao, of "fst v" "snd v" "Err e" "fst v'" "snd v'"] by auto
  next
    fix d and v :: "kobj \<times> 'a world"
    assume "?I v"
    then show "?I (snd (besideP (Wait E d) v))"
      using srv by (cases v) (auto simp: besideP_def Wait_def call_apply storing_server_def)
  qed simp_all
  then show ?thesis by simp
qed

lemma keeps_Apply:
  assumes srv: "storing_server E view" and ao: "ao_dryRun ao = []"
    and upd: "\<And>V o2. I V \<Longrightarrow> key_of o2 = key_of o1 \<Longrightarrow> answered E o1 o2 \<Longrightarrow> I (V(key_of o1 \<mapsto> o2))"
  shows "keeps view I (Apply E o1 ao)"
  unfolding keeps_def
proof (intro allI impI)
  fix w :: "'a world"
  assume I: "I (view (w_ext w))"
  obtain r w' where r: "Apply E o1 ao w = (r, w')" by fastforce
  show "I (view (w_ext (snd (Apply E o1 ao w))))"
  proof (cases r)
    case (Ok o2)
    from Apply_stores [OF srv ao r [unfolded Ok]] Apply_answered [OF srv ao r [unfolded Ok]] upd [OF I, of o2] r
    show ?thesis by simp
  next
    case (Err e)
    from Apply_fails [OF srv ao r [unfolded Err]] I r show ?thesis by simp
  next
    case (Panic s)
    with r no_panicE [OF _ no_panic_Apply] show ?thesis by blast
  qed
qed

section \<open>Calls that store nothing\<close>

text \<open>Reads of the dynamic client, discovery, secrets and charts; signing requests and local files.\<close>

definition quiet_calls :: "'s env \<Rightarrow> 's view \<Rightarrow> bool" where
  "quiet_calls E view \<longleftrightarrow>
     (\<forall>g sel s. view (snd (env_dyn_list E g sel s)) = view s) \<and>
     (\<forall>k s. view (snd (env_plural E k s)) = view s) \<and>
     (\<forall>ns n s. view (snd (env_get_secret E ns n s)) = view s) \<and>
     (\<forall>q s. view (snd (env_get_chart E q s)) = view s) \<and>
     (\<forall>s. view (snd (env_list_defs E s)) = view s)"

definition quiet_certs :: "'s cert_env \<Rightarrow> 's view \<Rightarrow> bool" where
  "quiet_certs CE view \<longleftrightarrow>
     (\<forall>s. view (snd (ce_newPrivateKey CE s)) = view s) \<and>
     (\<forall>n s. view (snd (ce_csr_get CE n s)) = view s) \<and> (\<forall>c s. view (snd (ce_csr_create CE c s)) = view s) \<and>
     (\<forall>n s. view (snd (ce_csr_delete CE n s)) = view s) \<and>
     (\<forall>c a s. view (snd (ce_csr_approve CE c a s)) = view s) \<and>
     (\<forall>n s. view (snd (ce_csr_wait CE n s)) = view s) \<and>
     (\<forall>n s. view (snd (ce_csr_certificate CE n s)) = view s) \<and>
     (\<forall>p s. view (snd (ce_mkdirAll CE p s)) = view s) \<and> (\<forall>p s. view (snd (ce_create CE p s)) = view s) \<and>
     (\<forall>p d s. view (snd (ce_write CE p d s)) = view s) \<and> (\<forall>p s. view (snd (ce_remove CE p s)) = view s) \<and>
     (\<forall>p q s. view (snd (ce_rename CE p q s)) = view s) \<and> (\<forall>p s. view (snd (ce_read CE p s)) = view s)"

lemma keeps_calls:
  assumes "quiet_calls E view"
  shows "keeps view I (dyn_list E g sel)" "keeps view I (plurals_get E k)"
    "keeps view I (get_secret E ns n)" "keeps view I (get_chart E q)" "keeps view I (list_defs E)"
  using assms unfolding quiet_calls_def call_defs by (intro keeps_call; blast)+

lemma keeps_server:
  assumes "storing_server E view"
  shows "keeps view I (k_get E o1)" "keeps view I (Wait E d)" "keeps view I (k_watch E g ns n)"
proof -
  have "view (snd (env_get E k a ns n s)) = view s" for k a ns n s
    using assms unfolding storing_server_def by (metis snd_conv)
  then show "keeps view I (k_get E o1)" unfolding k_get_def by (rule keeps_call)
  have "view (snd (env_wait E d s)) = view s" for s
    using assms unfolding storing_server_def by blast
  then show "keeps view I (Wait E d)" unfolding Wait_def by (rule keeps_call)
  have "view (snd (env_watch E g ns n s)) = view s" for s
    using assms unfolding storing_server_def by blast
  then show "keeps view I (k_watch E g ns n)" unfolding k_watch_def by (rule keeps_call)
qed

lemma keeps_watching:
  assumes "storing_server E view"
  shows "keeps view I (WatchResource E g ready ns n)" "keeps view I (wait_established E name)"
proof -
  show watch: "keeps view I (WatchResource E g ready ns n)" for g ready ns n
    unfolding WatchResource_def
    by (rule keeps_thenP [OF keeps_onErr [OF keeps_server(3) [OF assms]]]) (simp add: keeps_def)
  show "keeps view I (wait_established E name)"
    unfolding wait_established_def by (rule keeps_onErr [OF watch])
qed

lemma keeps_silent:
  "(\<And>s. view (snd (f s)) = view s) \<Longrightarrow> keeps view I (silently f)" "keeps view I (clock CE)"
  "keeps view I GetCABundle" "keeps view I (setCABundle b)"
  by (simp_all add: keeps_def silently_def clock_def GetCABundle_def setCABundle_def split: prod.split)
    (metis snd_conv)

lemma keeps_cert_calls:
  assumes "quiet_certs CE view"
  shows "keeps view I (silently (ce_newPrivateKey CE))"
    "keeps view I (csr_get CE n)" "keeps view I (csr_create CE c)" "keeps view I (csr_delete CE n)"
    "keeps view I (csr_approve CE c a)" "keeps view I (csr_wait CE n)" "keeps view I (csr_certificate CE n)"
    "keeps view I (fs_mkdirAll CE p)" "keeps view I (fs_create CE p)" "keeps view I (fs_write CE p dat)"
    "keeps view I (fs_remove CE p)" "keeps view I (fs_rename CE p q)" "keeps view I (fs_read CE p)"
  using assms unfolding quiet_certs_def cert_call_defs
  by (auto intro!: keeps_call keeps_silent(1))

lemma keeps_certificates:
  assumes "quiet_certs CE view"
  shows "keeps view I (CheckOrRegenerateClientCertAndKey E CE o1)" "keeps view I (UpdateCerts CE crt key p)"
  unfolding cert_prog_defs Let_def getCABundle_def
  by (intro keeps_intros keeps_cert_calls [OF assms] keeps_silent)+

lemma keeps_charts:
  assumes "quiet_calls E view" and "storing_server E view"
  shows "keeps view I (ChartInfoFromSpec E nfo)" "keeps view I (ForSpec E nfo)" "keeps view I (observe_chart E cr)"
proof -
  have opts: "keeps view I (chart_options E ci)" for ci
    unfolding chart_options_def GetSecret_def Let_def
    by (intro keeps_intros keeps_calls [OF assms(1)])
  have fetch: "keeps view I (chartBytesFromSpecWithRetry E q)" for q
    unfolding chartBytesFromSpecWithRetry_def fetch_attempt_def
    by (intro keeps_intros keeps_Do keeps_calls [OF assms(1)] keeps_server [OF assms(2)])
      (simp_all add: chart_retry_def run_onRetry_def)
  show info: "keeps view I (ChartInfoFromSpec E nfo)" for nfo
    unfolding ChartInfoFromSpec_def by (intro keeps_intros opts fetch)
  show spec: "keeps view I (ForSpec E nfo)" for nfo
    unfolding ForSpec_def by (intro keeps_intros opts keeps_calls [OF assms(1)])
  show "keeps view I (observe_chart E cr)"
    unfolding observe_chart_def by (intro keeps_intros info spec)
qed

lemma keeps_lookups:
  assumes "quiet_calls E view" and "storing_server E view"
  shows "keeps view I (observe_gvr E st cr k sch)" "keeps view I (GetCompositions E g)"
    "keeps view I (Get_crd E gr)" "keeps view I (Lookup_crd E g)"
  unfolding observe_gvr_def GVKtoGVR_def GetCompositions_def Get_crd_def Lookup_crd_def
  by (intro keeps_intros keeps_calls [OF assms(1)] keeps_server [OF assms(2)])+

end
