(* ===== verification/Crd_Settle.thy ===== *)
theory Crd_Settle
  imports Views
begin

text \<open>
  What \<open>ApplyOrUpdateCRD\<close> leaves in the cluster: after it the stored CRD has the generated status schema
  and, unless the status schema had to be replaced first, the generated version; from then on it only
  reads. The certificate manager, which also writes CRDs, keeps all of that.
\<close>

section \<open>The stored CRD\<close>

text \<open>What matters of a CRD here: the conversion webhook and its bundle change beside it.\<close>

definition crd_core :: "crd \<Rightarrow> crd_version list \<times> string \<times> string" where
  "crd_core c = (crd_versions c, crd_group c, crd_kind c)"

text \<open>Objects are stored under their own key; a CRD is stored with the core that was sent.\<close>

definition keyed_view :: "'s view \<Rightarrow> bool" where
  "keyed_view view \<longleftrightarrow> (\<forall>s k o1. view s k = Some o1 \<longrightarrow> key_of o1 = k)"

definition keeps_core :: "'s env \<Rightarrow> bool" where
  "keeps_core E \<longleftrightarrow> (\<forall>o1 o2. answered E o1 o2 \<longrightarrow> ko_kind o1 = crdKind \<longrightarrow>
     crd_core (crd_of o2) = crd_core (crd_of o1))"

definition has_core ::
  "string \<times> string \<times> string \<Rightarrow> crd_version list \<times> string \<times> string \<Rightarrow>
   (string \<times> string \<times> string \<Rightarrow> kobj option) \<Rightarrow> bool" where
  "has_core K D V \<longleftrightarrow> (\<exists>o1. V K = Some o1 \<and> crd_core (crd_of o1) = D)"

definition crd_slot :: "'s env \<Rightarrow> group_resource \<Rightarrow> string \<times> string \<times> string" where
  "crd_slot E gr = (crdKind, '''', env_gr_string E gr)"

lemma crd_core_typed [simp]: "crd_of (typed k o1) = crd_of o1"
  by (simp add: crd_of_def obj_crd_def)

lemma key_of_typed [simp]: "key_of (typed k o1) = (k, ko_namespace o1, ko_name o1)"
  by (simp add: key_of_def)

lemma Get_crd_view:
  assumes "storing_server E view" and "Get_crd E gr w = (Ok r, w')"
  shows "w_ext w' = w_ext w \<and> r = map_option (typed crdKind) (view (w_ext w) (crd_slot E gr))"
proof -
  have "key_of (crd_key E gr) = crd_slot E gr" by (simp add: key_of_def crd_slot_def)
  with server_get [OF assms(1), of "crd_key E gr" w] assms(2) show ?thesis
    by (auto simp: Get_crd_def prog_defs split: option.splits if_splits)
qed

lemma Get_crd_stored:
  assumes "storing_server E view"
  shows "Get_crd E gr w = (Ok (map_option (typed crdKind) (view (w_ext w) (crd_slot E gr))),
     w\<lparr>w_trace := w_trace w @ [crd_get_event E gr]\<rparr>)"
proof -
  have "key_of (crd_key E gr) = crd_slot E gr" by (simp add: key_of_def crd_slot_def)
  with server_get [OF assms(1), of "crd_key E gr" w] show ?thesis
    by (auto simp: Get_crd_def prog_defs crd_get_event_def split: option.splits)
qed

lemma Lookup_crd_stored:
  assumes "storing_server E view" and "view (w_ext w) (crd_slot E (GroupResource g)) = Some o1"
  shows "fst (Lookup_crd E g w) = Ok (has_version (gvr_version g) (crd_versions (crd_of o1)))"
proof -
  have "key_of (crd_key E (GroupResource g)) = crd_slot E (GroupResource g)" by (simp add: key_of_def crd_slot_def)
  with server_get [OF assms(1), of "crd_key E (GroupResource g)" w] assms(2) show ?thesis
    by (auto simp: Lookup_crd_def prog_defs)
qed

lemma keeps_core_Apply:
  assumes "storing_server E view" and "keeps_core E"
    and "key_of o1 = K \<Longrightarrow> ko_kind o1 = crdKind \<and> crd_core (crd_of o1) = D"
  shows "keeps view (has_core K D) (Apply E o1 no_apply_options)"
proof (rule keeps_Apply [OF assms(1)])
  fix V o2
  assume "has_core K D V" "answered E o1 o2"
  with assms(2,3) show "has_core K D (V(key_of o1 \<mapsto> o2))"
    by (cases "key_of o1 = K") (auto simp: has_core_def keeps_core_def)
qed (simp add: no_apply_options_def)

section \<open>The certificate manager keeps it\<close>

lemma UpdateCABundle_core: "UpdateCABundle c b = Inr c' \<Longrightarrow> crd_core c' = crd_core c"
  by (auto simp: UpdateCABundle_def crd_core_def split: option.splits)

lemma propagate_keeps_core:
  assumes srv: "storing_server E view" and key: "keyed_view view" and core: "keeps_core E"
    and fl: "static_files E" and K: "fst K = crdKind"
  shows "keeps view (has_core K D) (propagateCABundle E m b g)"
  unfolding propagateCABundle_def
proof (rule keeps_thenP_result)
  show "keeps view (has_core K D) (wrapping ''error getting CRD: '' (Get_crd E (GroupResource g)))"
    unfolding Get_crd_def by (intro keeps_intros keeps_server [OF srv])
next
  fix x w w'
  assume run: "wrapping ''error getting CRD: '' (Get_crd E (GroupResource g)) w = (Ok x, w')"
    and I: "has_core K D (view (w_ext w))" "has_core K D (view (w_ext w'))"
  have x: "x = map_option (typed crdKind) (view (w_ext w) (crd_slot E (GroupResource g)))"
    using Get_crd_view [OF srv] run by (simp add: onErr_Ok_iff)
  have wh: "keeps view (has_core K D) (propagate_webhook E m b)"
    unfolding propagate_webhook_def
  proof (rule keeps_thenP_yields [OF keeps_onErr yields_onErr [OF yields_CreateK8sObject]])
    show "keeps view (has_core K D) (CreateK8sObject E webhookKind empty_gvr empty_nn
        (cm_mutatingWebhookTemplatePath m) [GStr ''caBundle'', GStr (EncodeToString (bytes_of b))])"
      by (rule quiet_keeps [OF pure_reader_quiet [OF pure_reader_CreateK8sObject [OF fl]]])
    fix config :: kobj
    assume "ko_kind config = webhookKind"
    then have "key_of config \<noteq> K" using K by (auto simp: key_of_def webhookKind_def crdKind_def)
    then show "keeps view (has_core K D) (thenP (wrapping ''error applying mutating webhook config: ''
        (Apply E config no_apply_options)) (\<lambda>_. returnP ()))"
      by (intro keeps_intros keeps_core_Apply [OF srv core]) simp
  qed
  have "keeps view (has_core K D) (propagate_crd E b crd1)" if crd1: "x = Some crd1" for crd1
  proof -
    obtain o1 where o1: "view (w_ext w) (crd_slot E (GroupResource g)) = Some o1" "crd1 = typed crdKind o1"
      using x crd1 by (cases "view (w_ext w) (crd_slot E (GroupResource g))") auto
    have k: "key_of o1 = crd_slot E (GroupResource g)" using key o1(1) unfolding keyed_view_def by blast
    let ?c = "crd1\<lparr>ko_apiVersion := ''apiextensions.k8s.io/v1''\<rparr>"
    have ty: "typed crdKind crd1 = crd1" using o1(2) by (simp add: typed_def)
    have "crd_of ?c = crd_of o1" "key_of ?c = key_of o1" "ko_kind o1 = crdKind"
      using o1(2) k by (simp_all add: crd_of_def obj_crd_def key_of_def typed_def crd_slot_def)
    moreover have "crd_core (crd_of o1) = D" if "key_of o1 = K"
      using I(1) o1(1) k that by (simp add: has_core_def)
    ultimately show ?thesis
      unfolding propagate_crd_def Let_def ty
      by (intro keeps_if keeps_basic keeps_thenP_result [OF keeps_onErr [OF keeps_basic(4)]])
        (auto simp: onErr_Ok_iff liftSum_Ok_iff keeps_def dest!: UpdateCABundle_core
          intro!: keepsD [OF keeps_thenP [OF keeps_onErr [OF keeps_core_Apply [OF srv core]] keeps_basic(1)]
            prod.collapse [symmetric]] simp: key_of_def)
  qed
  then have "keeps view (has_core K D) (case x of None \<Rightarrow>
      failP (NewNotFound E (GroupResource g) (gvr_resource g)) | Some crd1 \<Rightarrow>
        thenP (propagate_crd E b crd1) (\<lambda>_. propagate_webhook E m b))"
    by (cases x) (auto intro: keeps_basic keeps_thenP wh)
  with I(2) show "has_core K D (view (w_ext (snd ((case x of None \<Rightarrow>
      failP (NewNotFound E (GroupResource g) (gvr_resource g)) | Some crd1 \<Rightarrow>
        thenP (propagate_crd E b crd1) (\<lambda>_. propagate_webhook E m b)) w'))))"
    by (simp add: keeps_def)
qed

lemma ManageCertificates_keeps_core:
  assumes "storing_server E view" "keyed_view view" "keeps_core E" "static_files E" "quiet_certs CE view"
    and "fst K = crdKind"
  shows "keeps view (has_core K D) (ManageCertificates E CE m g)"
  unfolding ManageCertificates_def propagateCABundleWithRetry_def getCABundle_def
  by (intro keeps_intros keeps_certificates [OF assms(5)] keeps_cert_calls [OF assms(5)] keeps_silent keeps_Do
      propagate_keeps_core [OF assms(1-4,6)] keeps_server [OF assms(1)])
    simp_all

section \<open>Status schemas\<close>

definition status_same :: "'s env \<Rightarrow> crd \<Rightarrow> crd \<Rightarrow> bool" where
  "status_same E c1 c2 \<longleftrightarrow> StatusEqual E '''' c1 '''' c2 = Inr True"

lemma StatusEqual_same: "StatusEqual E n1 c1 n2 c2 = Inr b \<Longrightarrow> status_same E c1 c2 = b"
  by (auto simp: status_same_def StatusEqual_spec split: option.splits sum.splits)

lemma status_same_StatusEqual: "status_same E c1 c2 \<Longrightarrow> StatusEqual E n1 c1 n2 c2 = Inr True"
  by (auto simp: status_same_def StatusEqual_spec split: option.splits sum.splits)

lemma status_same_first:
  "first_status c1 = first_status c2 \<Longrightarrow> status_same E c1 c = status_same E c2 c"
  by (simp add: status_same_def StatusEqual_spec)

text \<open>The first status depends on the schemas only, and appending after it does not matter.\<close>

lemma find_map_schema:
  "(case find has_status vs of None \<Rightarrow> None | Some v \<Rightarrow> Some (version_status v)) =
   (case find (\<lambda>s. has_status (v0\<lparr>cv_schema := s\<rparr>)) (map cv_schema vs) of None \<Rightarrow> None
    | Some s \<Rightarrow> Some (version_status (v0\<lparr>cv_schema := s\<rparr>)))"
  by (induction vs) (auto simp: has_status_def version_status_def open_api_def)

lemma first_status_schemas:
  "map cv_schema (crd_versions c1) = map cv_schema (crd_versions c2) \<Longrightarrow> first_status c1 = first_status c2"
  unfolding first_status_def by (subst (1 2) find_map_schema [of _ vacuum_version]) simp

lemma first_status_append:
  "first_status c1 = Some s \<Longrightarrow> map cv_schema (crd_versions c2) = map cv_schema (crd_versions c1) @ zs \<Longrightarrow>
   first_status c2 = Some s"
proof -
  have app: "find P (xs @ ys) = (case find P xs of None \<Rightarrow> find P ys | Some x \<Rightarrow> Some x)" for P and xs ys :: "'a list"
    by (induction xs) auto
  show "first_status c1 = Some s \<Longrightarrow> map cv_schema (crd_versions c2) = map cv_schema (crd_versions c1) @ zs \<Longrightarrow>
    first_status c2 = Some s"
    unfolding first_status_def
    by (subst (asm) find_map_schema [of _ vacuum_version], subst find_map_schema [of _ vacuum_version])
      (auto simp: app split: option.splits)
qed

lemma schemas_append_one: "\<exists>zs. map cv_schema (append_one vs v) = map cv_schema vs @ zs"
proof -
  have "map cv_schema (serve_all ws) = map cv_schema ws" for ws
    by (simp add: serve_all_def)
  then show ?thesis by (auto simp: append_one_def)
qed

lemma schemas_SetServedStorage:
  "map cv_schema (crd_versions (SetServedStorage c v a b)) = map cv_schema (crd_versions c)"
  by (simp add: SetServedStorage_def)

section \<open>After an upsert\<close>

definition crd_gr :: "kobj \<Rightarrow> group_resource" where
  "crd_gr newcrd = \<lparr>gr_group = crd_group (crd_of newcrd), gr_resource = crd_plural (crd_of newcrd)\<rparr>"

text \<open>A generated CRD: one version, under the name of its resource, with a status schema that encodes.\<close>

definition generated_crd :: "'s env \<Rightarrow> kobj \<Rightarrow> crd_version \<Rightarrow> bool" where
  "generated_crd E newcrd newv \<longleftrightarrow> crd_versions (crd_of newcrd) = [newv] \<and>
     key_of newcrd = crd_slot E (crd_gr newcrd) \<and> status_same E (crd_of newcrd) (crd_of newcrd)"

text \<open>
  The stored CRD, if there is one, is of the same group and kind. It is current when it has the generated
  version and status schema; its status lags when the schema differs.
\<close>

definition same_kind_stored :: "'s env \<Rightarrow> kobj \<Rightarrow> (string \<times> string \<times> string \<Rightarrow> kobj option) \<Rightarrow> bool" where
  "same_kind_stored E newcrd V \<longleftrightarrow> (case V (crd_slot E (crd_gr newcrd)) of None \<Rightarrow> True
     | Some o1 \<Rightarrow> crd_group (crd_of o1) = crd_group (crd_of newcrd) \<and> crd_kind (crd_of o1) = crd_kind (crd_of newcrd))"

definition status_lags :: "'s env \<Rightarrow> kobj \<Rightarrow> (string \<times> string \<times> string \<Rightarrow> kobj option) \<Rightarrow> bool" where
  "status_lags E newcrd V \<longleftrightarrow> (case V (crd_slot E (crd_gr newcrd)) of None \<Rightarrow> False
     | Some o1 \<Rightarrow> \<not> status_same E (crd_of o1) (crd_of newcrd))"

definition crd_current ::
  "'s env \<Rightarrow> kobj \<Rightarrow> crd_version \<Rightarrow> (string \<times> string \<times> string \<Rightarrow> kobj option) \<Rightarrow> bool" where
  "crd_current E newcrd newv V \<longleftrightarrow> (case V (crd_slot E (crd_gr newcrd)) of None \<Rightarrow> False
     | Some o1 \<Rightarrow> status_same E (crd_of o1) (crd_of newcrd) \<and>
         crd_group (crd_of o1) = crd_group (crd_of newcrd) \<and> crd_kind (crd_of o1) = crd_kind (crd_of newcrd) \<and>
         has_version (cv_name newv) (crd_versions (crd_of o1)))"

lemma current_GVKExists:
  assumes "crd_group c = crd_group g" "crd_kind c = crd_kind g"
  shows "GVKExists c \<lparr>gvk_group = crd_group g, gvk_version = v, gvk_kind = crd_kind g\<rparr> = has_version v (crd_versions c)"
  using assms by (simp add: GVKExists_def)

text \<open>What is stored after applying a CRD object and waiting.\<close>

lemma Apply_crd_stores:
  assumes srv: "storing_server E view" and core: "keeps_core E" and kind: "ko_kind o1 = crdKind"
    and run: "wrapping msg (Apply E o1 no_apply_options) w = (Ok o2, w1)"
    and wt: "wait_established E name w1 = (Ok (), w2)"
  shows "\<exists>o2. view (w_ext w2) (key_of o1) = Some o2 \<and> crd_core (crd_of o2) = crd_core (crd_of o1)"
proof -
  have ao: "ao_dryRun no_apply_options = []" by (simp add: no_apply_options_def)
  have ap: "Apply E o1 no_apply_options w = (Ok o2, w1)" using run by (simp add: onErr_Ok_iff)
  have "view (w_ext w1) = (view (w_ext w))(key_of o1 \<mapsto> o2)"
    using Apply_stores [OF srv ao ap] by blast
  moreover have "crd_core (crd_of o2) = crd_core (crd_of o1)"
    using core Apply_answered [OF srv ao ap] kind unfolding keeps_core_def by blast
  moreover have "view (w_ext w2) = view (w_ext w1)"
    by (rule keepsD [OF keeps_watching(2) [OF srv] wt]) simp
  ultimately show ?thesis by simp
qed

lemma existing_settles:
  assumes srv: "storing_server E view" and core: "keeps_core E" and gen: "generated_crd E newcrd newv"
    and o1: "view (w_ext w) K = Some o1" "key_of o1 = K" "fst K = crdKind"
    and same: "crd_group (crd_of o1) = crd_group (crd_of newcrd)" "crd_kind (crd_of o1) = crd_kind (crd_of newcrd)"
    and run: "update_existing_crd E (typed crdKind o1) newcrd newv opts w = (Ok (), w')"
  shows "\<exists>o2. view (w_ext w') K = Some o2 \<and> status_same E (crd_of o2) (crd_of newcrd) \<and>
     crd_group (crd_of o2) = crd_group (crd_of newcrd) \<and> crd_kind (crd_of o2) = crd_kind (crd_of newcrd) \<and>
     (has_version (cv_name newv) (crd_versions (crd_of o2)) \<or> \<not> status_same E (crd_of o1) (crd_of newcrd))"
proof -
  let ?c = "crd_of o1" and ?t = "typed crdKind o1"
  have kind: "ko_kind o1 = crdKind" "typed crdKind o1 = o1"
    using o1(2,3) by (auto simp: key_of_def typed_def)
  have newv: "crd_versions (crd_of newcrd) = [newv]" using gen by (simp add: generated_crd_def)
  obtain eq where eq: "StatusEqual E (ko_name o1) ?c (ko_name newcrd) (crd_of newcrd) = Inr eq"
    using run by (auto simp: update_existing_crd_def ok_iffs)
  note st = StatusEqual_same [OF eq]
  show ?thesis
  proof (cases eq)
    case False
    then obtain c2 o2 w1 where us: "UpdateStatus (ko_name o1) ?c newv = Ok c2"
      and ap: "wrapping ''error applying CRD status update: '' (Apply E (with_crd c2 o1) no_apply_options) w = (Ok o2, w1)"
      and wt: "wait_established E (ko_name o2) w1 = (Ok (), w')"
      using run eq unfolding update_existing_crd_def kind(2)
      by (auto simp: ok_iffs split: outcome.splits)
    have conv: "status_same E c2 (crd_of newcrd)"
      using UpdateStatus_settles [OF eq newv us] StatusEqual_same by blast
    have "crd_group c2 = crd_group ?c" "crd_kind c2 = crd_kind ?c"
      using UpdateStatus_versions [OF us] by auto
    with Apply_crd_stores [OF srv core _ ap wt] conv st False kind o1(2) same show ?thesis
      by (auto simp: crd_core_def key_of_def status_same_def StatusEqual_spec first_status_def)
  next
    case True
    show ?thesis
    proof (cases "has_version (cv_name newv) (crd_versions ?c)")
      case ver: True
      have "w' = w"
        using run eq True ver same unfolding update_existing_crd_def kind(2)
        by (auto simp: ok_iffs current_GVKExists)
      with o1 st True same ver show ?thesis by auto
    next
      case ver: False
      obtain c2 o2 w1 where app: "AppendVersion ?c (crd_of newcrd) = Inr c2"
        and ap: "wrapping ''error setting properties on CRD: '' (Apply E (with_crd (SetServedStorage
          (injectConversionConfToCRD c2 opts) (cv_name newv) True False) o1) no_apply_options) w = (Ok o2, w1)"
        and wt: "wait_established E (ko_name o2) w1 = (Ok (), w')"
        using run eq True ver same unfolding update_existing_crd_def kind(2)
        by (auto simp: ok_iffs current_GVKExists split: if_splits)
      let ?d = "SetServedStorage (injectConversionConfToCRD c2 opts) (cv_name newv) True False"
      have c2: "c2 = ?c\<lparr>crd_versions := append_one (crd_versions ?c) newv\<rparr>"
        using app newv by (simp add: AppendVersion_def append_versions_fold)
      have d: "map cv_schema (crd_versions ?d) = map cv_schema (append_one (crd_versions ?c) newv)"
          "map cv_name (crd_versions ?d) = map cv_name (append_one (crd_versions ?c) newv)"
        by (simp_all add: schemas_SetServedStorage SetServedStorage_names) (simp_all add: injectConversionConfToCRD_def c2)
      obtain s zs where s: "first_status ?c = Some s"
        and zs: "map cv_schema (append_one (crd_versions ?c) newv) = map cv_schema (crd_versions ?c) @ zs"
        using eq schemas_append_one by (fastforce simp: StatusEqual_spec split: option.splits)
      have "first_status ?d = Some s" using first_status_append [OF s] d(1) zs by simp
      then have "status_same E ?d (crd_of newcrd)" using status_same_first [of ?d ?c E "crd_of newcrd"] s st True by metis
      moreover have "has_version (cv_name newv) (crd_versions ?d)"
      proof -
        have "cv_name newv \<in> set (map cv_name (crd_versions ?d))" unfolding d(2) by (simp add: append_one_names ver)
        then show ?thesis by (simp add: has_version_iff)
      qed
      moreover have "crd_group ?d = crd_group ?c" "crd_kind ?d = crd_kind ?c"
        by (simp_all add: SetServedStorage_def injectConversionConfToCRD_def c2)
      ultimately show ?thesis
        using Apply_crd_stores [OF srv core _ ap wt] kind o1(2) same
        by (auto simp: crd_core_def key_of_def status_same_def StatusEqual_spec first_status_def)
    qed
  qed
qed

lemma ApplyOrUpdateCRD_ends:
  assumes srv: "storing_server E view" and key: "keyed_view view" and core: "keeps_core E"
    and gen: "generated_crd E newcrd newv" and same: "same_kind_stored E newcrd (view (w_ext w))"
    and run: "ApplyOrUpdateCRD E newcrd opts w = (Ok (g, c), w')"
  shows "g = \<lparr>gvr_group = crd_group (crd_of newcrd), gvr_version = cv_name newv, gvr_resource = crd_plural (crd_of newcrd)\<rparr> \<and>
    crd_core (crd_of c) = crd_core (crd_of newcrd) \<and>
    (\<exists>o2. view (w_ext w') (crd_slot E (crd_gr newcrd)) = Some o2 \<and> status_same E (crd_of o2) (crd_of newcrd) \<and>
     crd_group (crd_of o2) = crd_group (crd_of newcrd) \<and> crd_kind (crd_of o2) = crd_kind (crd_of newcrd) \<and>
     (has_version (cv_name newv) (crd_versions (crd_of o2)) \<or> status_lags E newcrd (view (w_ext w))))"
proof -
  let ?K = "crd_slot E (crd_gr newcrd)"
  let ?w1 = "w\<lparr>w_trace := w_trace w @ [crd_get_event E (crd_gr newcrd)]\<rparr>"
  let ?g = "\<lparr>gvr_group = crd_group (crd_of newcrd), gvr_version = cv_name newv, gvr_resource = crd_plural (crd_of newcrd)\<rparr>"
  have newv: "crd_versions (crd_of newcrd) = [newv]" and k: "key_of newcrd = ?K" "ko_kind newcrd = crdKind"
    and refl: "status_same E (crd_of newcrd) (crd_of newcrd)"
    using gen by (simp_all add: generated_crd_def key_of_def crd_slot_def)
  have gr: "GroupResource ?g = crd_gr newcrd" by (simp add: GroupResource_def crd_gr_def)
  note run' = run [unfolded ApplyOrUpdateCRD_def newv list.case Let_def gr]
  show ?thesis
  proof (cases "view (w_ext w) ?K")
    case None
    then obtain o2 w2 where ap: "wrapping ''error applying CRD: '' (Apply E newcrd no_apply_options) ?w1 = (Ok o2, w2)"
      and wt: "wait_established E (ko_name o2) w2 = (Ok (), w')" and g: "g = ?g" "c = o2"
      using run' by (auto simp: ok_iffs Get_crd_stored [OF srv])
    from Apply_crd_stores [OF srv core k(2) ap wt] obtain o3 where
      o3: "view (w_ext w') ?K = Some o3" "crd_core (crd_of o3) = crd_core (crd_of newcrd)"
      by (auto simp: k(1))
    have "answered E newcrd o2"
      using Apply_answered [OF srv, of no_apply_options newcrd ?w1 o2 w2] ap
      by (simp add: onErr_Ok_iff no_apply_options_def)
    then have "crd_core (crd_of o2) = crd_core (crd_of newcrd)"
      using core k(2) unfolding keeps_core_def by blast
    with o3 g refl newv show ?thesis
      by (auto simp: crd_core_def status_same_def StatusEqual_spec first_status_def)
  next
    case (Some o1)
    then have up: "update_existing_crd E (typed crdKind o1) newcrd newv opts ?w1 = (Ok (), w')"
      and g: "g = ?g" "c = newcrd"
      using run' by (auto simp: ok_iffs Get_crd_stored [OF srv])
    have "key_of o1 = ?K" using key Some unfolding keyed_view_def by blast
    moreover have "crd_group (crd_of o1) = crd_group (crd_of newcrd)" "crd_kind (crd_of o1) = crd_kind (crd_of newcrd)"
      using same Some by (simp_all add: same_kind_stored_def)
    ultimately have "\<exists>o2. view (w_ext w') ?K = Some o2 \<and> status_same E (crd_of o2) (crd_of newcrd) \<and>
     crd_group (crd_of o2) = crd_group (crd_of newcrd) \<and> crd_kind (crd_of o2) = crd_kind (crd_of newcrd) \<and>
     (has_version (cv_name newv) (crd_versions (crd_of o2)) \<or> \<not> status_same E (crd_of o1) (crd_of newcrd))"
      using existing_settles [OF srv core gen _ _ _ _ _ up] Some by (simp add: crd_slot_def)
    with Some g show ?thesis by (auto simp: status_lags_def)
  qed
qed

text \<open>Once the stored CRD is current, another call reads it and does nothing else.\<close>

lemma current_idle:
  assumes srv: "storing_server E view" and key: "keyed_view view" and gen: "generated_crd E newcrd newv"
    and cur: "crd_current E newcrd newv (view (w_ext w))"
  shows "ApplyOrUpdateCRD E newcrd opts w = (Ok (\<lparr>gvr_group = crd_group (crd_of newcrd),
     gvr_version = cv_name newv, gvr_resource = crd_plural (crd_of newcrd)\<rparr>, newcrd),
     w\<lparr>w_trace := w_trace w @ [crd_get_event E (crd_gr newcrd)]\<rparr>)"
proof -
  have newv: "crd_versions (crd_of newcrd) = [newv]" using gen by (simp add: generated_crd_def)
  obtain o1 where o1: "view (w_ext w) (crd_slot E (crd_gr newcrd)) = Some o1"
      "status_same E (crd_of o1) (crd_of newcrd)" "crd_group (crd_of o1) = crd_group (crd_of newcrd)"
      "crd_kind (crd_of o1) = crd_kind (crd_of newcrd)" "has_version (cv_name newv) (crd_versions (crd_of o1))"
    using cur by (auto simp: crd_current_def split: option.splits)
  have gr: "GroupResource \<lparr>gvr_group = crd_group (crd_of newcrd), gvr_version = cv_name newv,
      gvr_resource = crd_plural (crd_of newcrd)\<rparr> = crd_gr newcrd" by (simp add: GroupResource_def crd_gr_def)
  show ?thesis
    unfolding ApplyOrUpdateCRD_def newv list.case Let_def gr
    using o1 status_same_StatusEqual [OF o1(2), of "ko_name o1" "ko_name newcrd"]
    by (simp add: prog_defs Get_crd_stored [OF srv] update_existing_crd_def current_GVKExists)
qed

text \<open>
  C8: An upsert settles: after a successful \<open>ApplyOrUpdateCRD\<close> the stored CRD has the status schema of the
  generated one, and it is current (the generated version is listed as well) unless its status schema
  differed before, in which case only that was replaced. Calling again on a current CRD reads it and does
  nothing else; so two calls always end with a current CRD.
\<close>

theorem ApplyOrUpdateCRD_settles:
  assumes "storing_server E view" and "keyed_view view" and "keeps_core E"
    and "generated_crd E newcrd newv" and "same_kind_stored E newcrd (view (w_ext w))"
    and "ApplyOrUpdateCRD E newcrd opts w = (Ok r, w1)"
  shows "(crd_current E newcrd newv (view (w_ext w1)) \<or> status_lags E newcrd (view (w_ext w))) \<and>
    \<not> status_lags E newcrd (view (w_ext w1)) \<and>
    (\<forall>r2 w2. ApplyOrUpdateCRD E newcrd opts2 w1 = (Ok r2, w2) \<longrightarrow> crd_current E newcrd newv (view (w_ext w2))) \<and>
    (crd_current E newcrd newv (view (w_ext w1)) \<longrightarrow> w_trace (snd (ApplyOrUpdateCRD E newcrd opts2 w1)) =
       w_trace w1 @ [crd_get_event E (crd_gr newcrd)])"
proof -
  have settled: "(crd_current E newcrd newv (view (w_ext v2)) \<or> status_lags E newcrd (view (w_ext v1))) \<and>
      \<not> status_lags E newcrd (view (w_ext v2)) \<and> same_kind_stored E newcrd (view (w_ext v2))"
    if "same_kind_stored E newcrd (view (w_ext v1))" "ApplyOrUpdateCRD E newcrd o1 v1 = (Ok q, v2)" for v1 v2 o1 q
    using ApplyOrUpdateCRD_ends [OF assms(1-4) that(1), of o1 "fst q" "snd q" v2] that(2)
    by (auto simp: crd_current_def status_lags_def same_kind_stored_def split: option.splits)
  note first = settled [OF assms(5,6)]
  have "crd_current E newcrd newv (view (w_ext w2))"
    if "ApplyOrUpdateCRD E newcrd opts2 w1 = (Ok r2, w2)" for r2 w2
    using settled [OF _ that] first by blast
  with first show ?thesis using current_idle [OF assms(1,2,4), of w1 opts2] by auto
qed

section \<open>The sample environment\<close>

lemma sample_keyed: "keyed_view sample_view"
  unfolding keyed_view_def
proof (intro allI impI)
  fix s k o1
  assume "sample_view s k = Some o1"
  then show "key_of o1 = k"
    using find_obj_name [of "fst k" "fst (snd k)" "snd (snd k)" s o1] by (cases k) (auto simp: sample_view_def key_of_def)
qed

lemma sample_answers: "answered sample_env o1 o2 \<Longrightarrow> \<exists>rv. o2 = o1\<lparr>ko_resourceVersion := rv\<rparr>"
  by (auto simp: answered_def sample_env_def sample_put_def)

lemma sample_core: "keeps_core sample_env"
  by (auto simp: keeps_core_def crd_of_def obj_crd_def dest!: sample_answers)

lemma sample_generated:
  "generated_crd sample_env (crd_object (example_crd [example_version n True True])) (example_version n True True)"
  by (simp add: generated_crd_def crd_of_def obj_crd_def crd_object_def example_crd_def key_of_def crd_slot_def
      crdKind_def crd_gr_def sample_env_def status_same_def StatusEqual_spec first_status_def has_status_def
      version_status_def status_prop_def example_version_def example_schema_def open_api_def lookup_prop_def
      props_of_def)

lemma always_ok_crd_watch: "always_ok (WatchResource sample_env crd_gvr IsReady_crd ns n)"
  by (simp add: always_ok_def WatchResource_def k_watch_def call_apply thenP_def onErr_def sample_env_def
      sample_ready_def crd_gvr_def watch_body_def IsReady_crd_def crd_of_def obj_crd_def crd_object_def example_crd_def)

lemma always_ok_established: "always_ok (wait_established sample_env n)"
  unfolding wait_established_def by (rule always_ok_onErr [OF always_ok_crd_watch])

definition sample_apply_opts :: apply_opts where
  "sample_apply_opts = \<lparr>ap_caBundle = Some ''ca'', ap_webhookServiceNamespace = ''ns'', ap_webhookServiceName = ''svc''\<rparr>"

lemma sample_upsert:
  "\<exists>r w1. ApplyOrUpdateCRD sample_env (crd_object (example_crd [example_version ''v1-1-0'' True True]))
     sample_apply_opts (sample_world [crd_object (example_crd [example_version ''v1-0-0'' True True])] []) = (Ok r, w1)"
proof -
  let ?new = "crd_object (example_crd [example_version ''v1-1-0'' True True])"
  let ?old = "crd_object (example_crd [example_version ''v1-0-0'' True True])"
  let ?w = "sample_world [?old] []"
  have crd: "crd_of (crd_object c) = c" for c by (simp add: crd_of_def obj_crd_def crd_object_def)
  have old: "sample_view (w_ext ?w) (crd_slot sample_env (crd_gr ?new)) = Some ?old"
    by (simp add: sample_view_def sample_world_def find_obj_def crd_slot_def crd_gr_def crd example_crd_def
        crd_object_def crd_of_def obj_crd_def crdKind_def sample_env_def)
  have st: "status_same sample_env (crd_of ?old) (crd_of ?new)"
    by (simp add: crd status_same_def StatusEqual_spec first_status_def has_status_def example_crd_def sample_env_def
        version_status_def status_prop_def example_version_def example_schema_def open_api_def lookup_prop_def props_of_def)
  have gvk: "\<not> GVKExists (crd_of ?old) \<lparr>gvk_group = crd_group (crd_of ?new), gvk_version = ''v1-1-0'',
      gvk_kind = crd_kind (crd_of ?new)\<rparr>"
    by (simp add: crd GVKExists_def example_crd_def example_version_def)
  have eq: "StatusEqual sample_env (ko_name ?old) (crd_of ?old) (ko_name ?new) (crd_of ?new) = Inr True"
    by (rule status_same_StatusEqual [OF st])
  have gr: "GroupResource \<lparr>gvr_group = crd_group (crd_of ?new), gvr_version = ''v1-1-0'',
      gvr_resource = crd_plural (crd_of ?new)\<rparr> = crd_gr ?new" by (simp add: GroupResource_def crd_gr_def)
  have vs: "crd_versions (crd_of ?new) = [example_version ''v1-1-0'' True True]" "cv_name (example_version n a b) = n" for n a b
    by (simp_all add: crd example_crd_def example_version_def)
  have ty: "typed crdKind ?old = ?old" by (simp add: typed_def crd_object_def crdKind_def)
  let ?v = "?w\<lparr>w_trace := w_trace ?w @ [crd_get_event sample_env (crd_gr ?new)]\<rparr>"
  obtain c2 where c2: "AppendVersion (crd_of ?old) (crd_of ?new) = Inr c2" by (simp add: AppendVersion_def)
  let ?o = "with_crd (SetServedStorage (injectConversionConfToCRD c2 sample_apply_opts) ''v1-1-0'' True False) ?old"
  obtain o2 w2 where ap: "Apply sample_env ?o no_apply_options ?v = (Ok o2, w2)"
    using always_okD [OF always_ok_Apply_sample] by blast
  obtain w3 where wt: "wait_established sample_env (ko_name o2) w2 = (Ok (), w3)"
    using always_okD [OF always_ok_established, of "ko_name o2" w2] by auto
  have "update_existing_crd sample_env ?old ?new (example_version ''v1-1-0'' True True) sample_apply_opts ?v = (Ok (), w3)"
    unfolding update_existing_crd_def eq vs(2) c2
    using gvk ap wt by (auto simp: ok_iffs sample_apply_opts_def)
  then show ?thesis
    unfolding ApplyOrUpdateCRD_def vs list.case Let_def gr
    by (simp add: ok_iffs Get_crd_stored [OF sample_storing] old ty)
qed

theorem ApplyOrUpdateCRD_settles_witness:
  "\<exists>r w1. ApplyOrUpdateCRD sample_env (crd_object (example_crd [example_version ''v1-1-0'' True True]))
       sample_apply_opts (sample_world [crd_object (example_crd [example_version ''v1-0-0'' True True])] []) = (Ok r, w1) \<and>
     (crd_current sample_env (crd_object (example_crd [example_version ''v1-1-0'' True True]))
        (example_version ''v1-1-0'' True True) (sample_view (w_ext w1)) \<or>
      status_lags sample_env (crd_object (example_crd [example_version ''v1-1-0'' True True]))
        (sample_view (w_ext (sample_world [crd_object (example_crd [example_version ''v1-0-0'' True True])] []))))"
proof -
  obtain r w1 where run: "ApplyOrUpdateCRD sample_env (crd_object (example_crd [example_version ''v1-1-0'' True True]))
     sample_apply_opts (sample_world [crd_object (example_crd [example_version ''v1-0-0'' True True])] []) = (Ok r, w1)"
    using sample_upsert by metis
  have "same_kind_stored sample_env (crd_object (example_crd [example_version ''v1-1-0'' True True]))
      (sample_view (w_ext (sample_world [crd_object (example_crd [example_version ''v1-0-0'' True True])] [])))"
    by (auto simp: same_kind_stored_def sample_view_def sample_world_def find_obj_def crd_of_def obj_crd_def
        crd_object_def example_crd_def split: option.split)
  from ApplyOrUpdateCRD_settles [OF sample_storing sample_keyed sample_core sample_generated this run] run
  show ?thesis by metis
qed

end
