(* ===== verification/Operator.thy ===== *)
theory Operator
  imports Controller Cert_Manager Bundle
begin

text \<open>
  What the external client of \<open>compositiondefinitions.go\<close> guarantees when it is connected to the
  certificate manager: what each operation may send to the cluster, what it leaves in the status of
  the definition, and what holds when it ends well.
\<close>

section \<open>What its parts send\<close>

definition chart_events :: "event set" where
  "chart_events = {ev. (\<exists>ns n. ev = EvGetSecret ns n) \<or> (\<exists>q. ev = EvGetChart q) \<or> (\<exists>d. ev = EvWait d)}"

lemma chart_events_simps [simp]:
  "EvGetSecret ns n \<in> chart_events" "EvGetChart q \<in> chart_events" "EvWait d \<in> chart_events"
  by (simp_all add: chart_events_def)

lemma chart_retry_simps [simp]:
  "rc_wait (chart_retry E) = Some (Wait E)" "run_onRetry (chart_retry E) a d e w = w"
  by (simp_all add: chart_retry_def run_onRetry_def)

lemma emits_chart_options: "emits w_trace chart_events (chart_options E ci)"
  unfolding chart_options_def GetSecret_def Let_def by (intro emits_intros) simp

lemma emits_ChartInfoFromSpec: "emits w_trace chart_events (ChartInfoFromSpec E nfo)"
  unfolding ChartInfoFromSpec_def chartBytesFromSpecWithRetry_def fetch_attempt_def
  by (intro emits_intros emits_chart_options) simp_all

lemma emits_ForSpec: "emits w_trace chart_events (ForSpec E nfo)"
  unfolding ForSpec_def by (intro emits_intros emits_chart_options) simp

lemmas emits_chart = emits_mono [OF emits_ChartInfoFromSpec] emits_mono [OF emits_ForSpec]

lemma emits_observe_chart: "chart_events \<subseteq> A \<Longrightarrow> emits w_trace A (observe_chart E cr)"
  unfolding observe_chart_def by (intro emits_intros emits_chart)

lemma emits_observe_gvr: "EvPlural k \<in> A \<Longrightarrow> emits w_trace A (observe_gvr E st cr k sch)"
  unfolding observe_gvr_def by (intro emits_intros)

lemma GenerateCRD_kind: "GenerateCRD E st sch g = Inr c \<Longrightarrow> ko_kind c = crdKind"
  by (auto simp: GenerateCRD_def Unmarshal_def crdKind_def map_sum_Inr split: sum.splits)

lemma yields_GenerateCRD:
  "yields (\<lambda>c. ko_kind c = crdKind) (wrapping msg (liftSum (GenerateCRD E st sch g)))"
  by (auto simp: yields_def ok_iffs dest: GenerateCRD_kind)

section \<open>Observing changes nothing\<close>

text \<open>
  C13: \<open>Observe\<close> leaves the cluster alone: everything it sends is a read, a watch, a wait or a server-side
  dry run, whatever the chart, the cluster and the calls answer and however it ends.
\<close>

theorem Observe_harmless: "emits (\<lambda>s. w_trace (snd s)) harmless (Observe E st)"
proof -
  have chart: "chart_events \<subseteq> harmless" by (auto simp: chart_events_def)
  have "dry_events \<subseteq> harmless" "plain_reads \<subseteq> harmless"
    by (auto simp: dry_events_def plain_reads_def file_reads_def)
  note dry = emits_mono [OF Deploy_dry_events this(1)] and look = emits_mono [OF Lookup_reads this(2)]
  show ?thesis
    unfolding Observe_def observe_bundle_def Let_def
    by (intro emits_intros emits_observe_chart [OF chart] emits_observe_gvr dry look)
      (simp_all add: crd_get_event_def controller_deploy_options_def)
qed

section \<open>What an observation says\<close>

text \<open>
  In sync: the generated CRD is in the cluster with the chart's version and the same status schema, the
  digest in the status is the digest of the bundle as a dry run would apply it and of the bundle as it
  is, and the status is the one refreshed from the cluster's CRD.
\<close>

definition crd_seen ::
  "'s env \<Rightarrow> statics \<Rightarrow> comp_def \<Rightarrow> chart_fs \<Rightarrow> gvk \<Rightarrow> string \<Rightarrow> gvr \<Rightarrow> kobj \<Rightarrow> bool" where
  "crd_seen E st cr pkg k sch g c1 \<longleftrightarrow>
     (\<exists>w w'. observe_chart E cr w = (Ok (pkg, k, sch), w')) \<and>
     (\<exists>w w'. observe_gvr E st cr k sch w = (Ok (Some g), w')) \<and>
     (\<exists>w w'. Get_crd E (GroupResource g) w = (Ok (Some c1), w')) \<and>
     (\<exists>w w'. Lookup_crd E g w = (Ok True, w')) \<and>
     (\<exists>newcrd. GenerateCRD E st sch k = Inr newcrd \<and>
        StatusEqual E (ko_name c1) (crd_of c1) (ko_name newcrd) (crd_of newcrd) = Inr True)"

definition digests_agree :: "'s env \<Rightarrow> deploy_options \<Rightarrow> string \<Rightarrow> bool" where
  "digests_agree E opts dig \<longleftrightarrow>
     (\<exists>w w'. Deploy E opts w = (Ok dig, w')) \<and> (\<exists>w w'. Lookup E opts w = (Ok dig, w'))"

definition in_sync :: "'s env \<Rightarrow> statics \<Rightarrow> comp_def \<Rightarrow> comp_def \<Rightarrow> bool" where
  "in_sync E st cr cr2 \<longleftrightarrow> (\<exists>pkg k sch g c1 cr3. crd_seen E st cr pkg k sch g c1 \<and>
     digests_agree E (controller_deploy_options st cr g sch True) (cs_digest (cd_status cr)) \<and>
     RefreshCompositionDefinitionStatus E cr (crd_of c1) g k (cf_packageURL pkg) = Ok cr3 \<and>
     cr2 = SetConditions E Available cr3)"

lemma in_syncI:
  "crd_seen E st cr pkg k sch g c1 \<Longrightarrow> dig = cs_digest (cd_status cr) \<Longrightarrow>
   Deploy E (controller_deploy_options st cr g sch True) w1 = (Ok dig, w2) \<Longrightarrow>
   Lookup E (controller_deploy_options st cr g sch True) w3 = (Ok dig, w4) \<Longrightarrow>
   RefreshCompositionDefinitionStatus E cr (crd_of c1) g k (cf_packageURL pkg) = Ok cr3 \<Longrightarrow>
   in_sync E st cr (SetConditions E Available cr3)"
  unfolding in_sync_def digests_agree_def by blast

definition observed :: "'s env \<Rightarrow> statics \<Rightarrow> comp_def \<Rightarrow> observation \<Rightarrow> comp_def \<Rightarrow> bool" where
  "observed E st cr ob cr2 =
     (if ob_upToDate ob then ob_exists ob \<and> in_sync E st cr cr2
      else cr2 = cr \<or> (\<exists>g. cr2 = SetConditions E (crd_absent g) cr))"

lemma obs_sel [simp]: "ob_exists (obs a b) = a" "ob_upToDate (obs a b) = b"
  by (simp_all add: obs_def)

lemma observed_intros [simp]:
  "observed E st cr (obs b False) cr" "observed E st cr (obs b False) (SetConditions E (crd_absent g) cr)"
  "observed E st cr (obs True True) cr2 = in_sync E st cr cr2"
  by (auto simp: observed_def)

text \<open>
  C6: An observation that reports the resource as up to date is right about all three (CRD version and
  schema, dry-run digest, live digest), and then the status is refreshed and available; any other
  observation leaves the definition as it was, but for the condition that its CRD is missing; a failed
  one leaves it as it was. The version recorded in the status is never consulted.
\<close>

theorem Observe_observed:
  "triple (\<lambda>s. fst s = cr) (Observe E st) (\<lambda>ob s. observed E st cr ob (fst s)) (\<lambda>e s. fst s = cr)"
proof -
  have obs_bundle: "triple (\<lambda>s. fst s = cr) (observe_bundle E st cr pkg k sch g c1)
      (\<lambda>ob s. observed E st cr ob (fst s)) (\<lambda>e s. fst s = cr)"
    if "crd_seen E st cr pkg k sch g c1" for pkg k sch g c1
    unfolding observe_bundle_def Let_def
    by (rule triple_step) (auto simp: ok_iffs
        intro!: triple_end triple_step triple_setVar, rule in_syncI [OF that refl], assumption+)
  have seen: "crd_seen E st cr pkg k sch g c1"
    if "observe_chart E cr w1 = (Ok (pkg, k, sch), w1')" "observe_gvr E st cr k sch w2 = (Ok (Some g), w2')"
      "Get_crd E (GroupResource g) w3 = (Ok (Some c1), w3')" "Lookup_crd E g w4 = (Ok True, w4')"
      "GenerateCRD E st sch k = Inr newcrd"
      "StatusEqual E (ko_name c1) (crd_of c1) (ko_name newcrd) (crd_of newcrd) = Inr True"
    for pkg k sch g c1 newcrd w1 w1' w2 w2' w3 w3' w4 w4'
    unfolding crd_seen_def using that by blast
  show ?thesis
    unfolding Observe_def
    by (intro triple_getVar triple_step triple_setVar)
      (auto simp: ok_iffs split: option.split
        intro!: triple_end triple_step triple_setVar, rule obs_bundle, rule seen, assumption+)
qed

section \<open>Creating and updating\<close>

lemma no_delete_parts:
  "chart_events \<subseteq> no_delete" "certificate_events \<subseteq> no_delete" "crd_upsert_events \<subseteq> no_delete"
proof -
  show "certificate_events \<subseteq> no_delete"
  proof
    fix ev
    assume "ev \<in> certificate_events"
    then show "ev \<in> no_delete" by (cases ev) (simp_all add: no_delete_def)
  qed
qed (auto simp: chart_events_def crd_upsert_events_def no_delete_def split: event.splits)

text \<open>
  \<open>Update\<close> in two parts: up to the new digest in the status, and after it. The second part gets what the
  first one found: kind, resource and package of the chart, and the CRD generated for it.
\<close>

definition deploy_new ::
  "'s env \<Rightarrow> statics \<Rightarrow> 's cert_iface \<Rightarrow> (comp_def \<times> 's world, comp_def \<times> gvk \<times> gvr \<times> kobj \<times> chart_fs) prog" where
  "deploy_new E st C =
     thenP getVar (\<lambda>cr.
     thenP (besideP (wrapping ''error getting chart info: '' (ChartInfoFromSpec E (cd_chart cr)))) (\<lambda>(pkg, dir).
     thenP (besideP (ForSpec E (cd_chart cr))) (\<lambda>pkgFS.
     thenP (besideP (liftOutcome (ChartGroupVersionKind E pkg dir))) (\<lambda>g.
     thenP (besideP (apply_chart_crd E st C ''error managing certificates after CRD update: '' pkg dir g))
       (\<lambda>(r, crd2, schemaBytes).
     thenP (besideP (wrapping ''error deploying dynamic controller: ''
       (Deploy E (controller_deploy_options st cr r schemaBytes False)))) (\<lambda>dig.
     thenP (setVar (set_digest dig cr)) (\<lambda>_.
     returnP (set_digest dig cr, g, r, crd2, pkgFS))))))))"

definition finish_update ::
  "'s env \<Rightarrow> statics \<Rightarrow> comp_def \<times> gvk \<times> gvr \<times> kobj \<times> chart_fs \<Rightarrow> (comp_def \<times> 's world, unit) prog" where
  "finish_update E st = (\<lambda>(cr1, g, r, crd2, pkgFS).
     thenP (besideP (whenP (old_gvk E cr1 \<noteq> g)
       (foreachP (versionInfo cr1) (undeploy_old E st cr1)))) (\<lambda>_.
     thenP (besideP (move_compositions E cr1 g)) (\<lambda>_.
     thenP (besideP (wrapping ''error refreshing CompositionDefinition status: ''
       (liftOutcome (RefreshCompositionDefinitionStatus E cr1 (crd_of crd2) r g (cf_packageURL pkgFS))))) (\<lambda>cr2.
     setVar cr2))))"

lemma Update_parts: "Update E st C = thenP (deploy_new E st C) (finish_update E st)"
  unfolding Update_def deploy_new_def finish_update_def Let_def
  by (simp add: thenP_assoc case_prod_unfold)

context cert_interface
begin

lemma apply_chart_crd_emits: "emits w_trace no_delete (apply_chart_crd E st C msg pkg dir g)"
proof -
  have upsert: "emits w_trace no_delete (thenP (wrapping m1 (ApplyOrUpdateCRD E crd1 opts)) k)"
    if "ko_kind crd1 = crdKind" "\<And>x. emits w_trace no_delete (k x)"
    for m1 crd1 opts and k :: "gvr \<times> kobj \<Rightarrow> ('s world, gvr \<times> kobj \<times> string) prog"
    using that by (intro emits_thenP emits_onErr emits_mono [OF emits_ApplyOrUpdateCRD] no_delete_parts)
  show ?thesis
    unfolding apply_chart_crd_def
    by (rule emits_thenP, intro emits_intros,
        rule emits_thenP_yields [OF _ yields_GenerateCRD], intro emits_intros,
        intro emits_thenP [OF bundle_emits] upsert emits_case_prod emits_onErr emits_returnP
          emits_thenP [OF emits_onErr [OF emits_mono [OF manage_emits]]] no_delete_parts)
qed

lemma deploy_new_emits: "emits (\<lambda>s. w_trace (snd s)) no_delete (deploy_new E st C)"
  unfolding deploy_new_def
  by (intro emits_intros emits_chart no_delete_parts apply_chart_crd_emits Deploy_no_delete)

lemma Create_emits: "emits (\<lambda>s. w_trace (snd s)) no_delete (Create E st C)"
  unfolding Create_def
  by (intro emits_intros emits_chart no_delete_parts apply_chart_crd_emits Deploy_no_delete)

lemma finish_update_emits: "emits (\<lambda>s. w_trace (snd s)) no_crd_delete (finish_update E st x)"
proof -
  have "emits w_trace no_crd_delete (move_compositions E cr g)" for cr g
    unfolding move_compositions_def
    by (intro emits_intros emits_UpdateCompositionsVersion) (simp_all add: no_crd_delete_def)
  moreover have "emits w_trace no_crd_delete (undeploy_old E st cr vi)" for cr vi
    unfolding undeploy_old_def
    by (intro emits_intros Undeploy_skip_keeps_crds) (simp add: controller_undeploy_options_def)
  ultimately show ?thesis
    unfolding finish_update_def by (intro emits_intros)
qed

lemma Update_emits: "emits (\<lambda>s. w_trace (snd s)) no_crd_delete (Update E st C)"
  unfolding Update_parts
  by (intro emits_thenP finish_update_emits emits_mono [OF deploy_new_emits no_delete_sub])

end

text \<open>
  C12: Updating never deletes a CustomResourceDefinition: the definition's old bundle goes, its kind and the
  compositions of it stay.
\<close>

theorem Update_keeps_crds:
  "emits (\<lambda>s. w_trace (snd s)) no_crd_delete (Update E st (certManager E CE m))"
  by (rule cert_mgr.Update_emits)


section \<open>What is left in the status\<close>

definition deployed_as :: "'s env \<Rightarrow> statics \<Rightarrow> comp_def \<Rightarrow> string \<Rightarrow> bool" where
  "deployed_as E st cr dig \<longleftrightarrow>
     (\<exists>r sch w w'. Deploy E (controller_deploy_options st cr r sch False) w = (Ok dig, w'))"

definition update_done :: "'s env \<Rightarrow> statics \<Rightarrow> comp_def \<Rightarrow> comp_def \<Rightarrow> bool" where
  "update_done E st cr cr2 \<longleftrightarrow> (\<exists>dig crd2 r g url. deployed_as E st cr dig \<and>
     RefreshCompositionDefinitionStatus E (set_digest dig cr) crd2 r g url = Ok cr2)"

definition digest_at_most :: "'s env \<Rightarrow> statics \<Rightarrow> comp_def \<Rightarrow> comp_def \<Rightarrow> bool" where
  "digest_at_most E st cr cr2 \<longleftrightarrow> cr2 = cr \<or> (\<exists>dig. deployed_as E st cr dig \<and> cr2 = set_digest dig cr)"

lemma update_doneI: "deployed_as E st cr dig \<Longrightarrow>
   RefreshCompositionDefinitionStatus E (set_digest dig cr) crd2 r g url = Ok cr2 \<Longrightarrow> update_done E st cr cr2"
  unfolding update_done_def by blast

definition created_as :: "'s env \<Rightarrow> statics \<Rightarrow> comp_def \<Rightarrow> comp_def \<Rightarrow> bool" where
  "created_as E st cr cr2 \<longleftrightarrow> (\<exists>dig. deployed_as E st cr dig \<and> cr2 = set_digest dig cr)"

lemma created_asI: "Deploy E (controller_deploy_options st cr r sch False) w = (Ok dig, w') \<Longrightarrow>
   created_as E st cr (set_digest dig cr)"
  unfolding created_as_def deployed_as_def by blast

lemma digest_at_most_intros:
  "digest_at_most E st cr cr" "deployed_as E st cr dig \<Longrightarrow> digest_at_most E st cr (set_digest dig cr)"
  by (auto simp: digest_at_most_def)


text \<open>
  Creating writes the digest of what it deployed, and only when it succeeds.
\<close>

lemma Create_status:
  "triple (\<lambda>s. fst s = cr) (Create E st C)
     (\<lambda>_ s. created_as E st cr (fst s)) (\<lambda>_ s. fst s = cr)"
  unfolding Create_def
  by (intro triple_getVar triple_step)
    (auto intro!: triple_step triple_end intro: created_asI)

section \<open>A version whose chart was not recorded\<close>

definition lost_chart :: "'s env \<Rightarrow> comp_def \<Rightarrow> bool" where
  "lost_chart E cr \<longleftrightarrow> gvk_kind (old_gvk E cr) = mg_kind (cs_managed (cd_status cr)) \<and>
     (\<exists>vi \<in> set (versionInfo cr). vd_version vi = gvk_version (old_gvk E cr) \<and> vd_chart vi = None)"

definition same_version :: "'s env \<Rightarrow> comp_def \<Rightarrow> comp_def \<Rightarrow> bool" where
  "same_version E cr cr2 \<longleftrightarrow>
     (cs_apiVersion (cd_status cr2), cs_kind (cd_status cr2)) = env_to_api_version E (old_gvk E cr)"

lemma foreachP_stuck:
  assumes "x \<in> set xs" and "\<And>w w'. f x w \<noteq> (Ok (), w')"
  shows "foreachP xs f w \<noteq> (Ok (), w')"
  using assms by (induction xs arbitrary: w) (auto simp: ok_iffs)

lemma set_digest_simps [simp]:
  "old_gvk E (set_digest dig cr) = old_gvk E cr" "versionInfo (set_digest dig cr) = versionInfo cr"
  "cs_managed (cd_status (set_digest dig cr)) = cs_managed (cd_status cr)"
  by (simp_all add: old_gvk_def versionInfo_def set_digest_def)

lemma undeploy_old_stuck:
  assumes "gvk_kind (old_gvk E cr) = mg_kind (cs_managed (cd_status cr))"
    and "vd_version vi = gvk_version (old_gvk E cr)" and "vd_chart vi = None"
  shows "undeploy_old E st cr vi w \<noteq> (Ok (), w')"
proof
  assume "undeploy_old E st cr vi w = (Ok (), w')"
  then have "Undeploy E (controller_undeploy_options st cr None (old_gvr E cr) True) w = (Ok (), w')"
    using assms by (simp add: undeploy_old_def whenP_def onErr_Ok_iff)
  moreover have "ud_spec (controller_undeploy_options st cr None (old_gvr E cr) True) = None"
    by (simp add: controller_undeploy_options_def)
  ultimately show False using Undeploy_nil_spec fst_conv by metis
qed

text \<open>
  C16: A definition whose version was first recorded without a chart (it was listed because a sibling added it)
  can no longer be moved to another version: \<open>Update\<close> ends well only if the chart keeps the recorded
  version, otherwise removing the old bundle errs or panics on the nil chart.
\<close>

theorem Update_lost_chart:
  "triple (\<lambda>s. fst s = cr \<and> lost_chart E cr) (Update E st C) (\<lambda>_ s. same_version E cr (fst s)) (\<lambda>_ _. True)"
proof (rule tripleI, simp_all)
  fix s x s'
  assume pre: "fst s = cr \<and> lost_chart E cr" and run: "Update E st C s = (Ok x, s')"
  obtain w where s: "s = (cr, w)" using pre by (cases s) auto
  obtain dig g r crd2 fs w1 where fin: "finish_update E st (set_digest dig cr, g, r, crd2, fs) (set_digest dig cr, w1) = (Ok x, s')"
    using run unfolding s Update_parts deploy_new_def
    by (auto simp: thenP_Ok_iff getVar_def setVar_def besideP_Ok_iff)
  let ?cr1 = "set_digest dig cr"
  from fin obtain w2 w3 cr2 where u: "whenP (old_gvk E ?cr1 \<noteq> g) (foreachP (versionInfo ?cr1) (undeploy_old E st ?cr1)) w1 = (Ok (), w2)"
    and ref: "RefreshCompositionDefinitionStatus E ?cr1 (crd_of crd2) r g (cf_packageURL fs) = Ok cr2"
    and s': "s' = (cr2, w3)"
    unfolding finish_update_def prod.case
    by (auto simp: ok_iffs setVar_def)
  have "old_gvk E cr = g"
  proof (rule ccontr)
    assume "old_gvk E cr \<noteq> g"
    with u have "foreachP (versionInfo ?cr1) (undeploy_old E st ?cr1) w1 = (Ok (), w2)" by (simp add: whenP_def)
    moreover obtain vi where "vi \<in> set (versionInfo cr)" "vd_version vi = gvk_version (old_gvk E cr)" "vd_chart vi = None"
      using pre by (auto simp: lost_chart_def)
    ultimately show False
      using foreachP_stuck [of vi "versionInfo ?cr1" "undeploy_old E st ?cr1"] undeploy_old_stuck [of E ?cr1 vi] pre
      by (simp add: lost_chart_def)
  qed
  moreover have "cs_apiVersion (cd_status cr2) = fst (env_to_api_version E g) \<and> cs_kind (cd_status cr2) = snd (env_to_api_version E g)"
    using ref by (auto simp: RefreshCompositionDefinitionStatus_def Let_def split: outcome.splits prod.splits)
  ultimately show "same_version E cr (fst s')" by (simp add: s' same_version_def)
qed

section \<open>Deleting\<close>

text \<open>The definitions a listing counts for a kind, and for a version of it.\<close>

definition defs_of_kind :: "'s env \<Rightarrow> gvk \<Rightarrow> comp_def list \<Rightarrow> comp_def list" where
  "defs_of_kind E g = filter (\<lambda>cd. gvk_group (def_gvk E cd) = gvk_group g \<and>
     gvk_kind (def_gvk E cd) = gvk_kind g)"

definition defs_of_version :: "'s env \<Rightarrow> gvk \<Rightarrow> comp_def list \<Rightarrow> comp_def list" where
  "defs_of_version E g = filter (\<lambda>cd. gvk_group (def_gvk E cd) = gvk_group g \<and>
     gvk_kind (def_gvk E cd) = gvk_kind g \<and> gvk_version (def_gvk E cd) = gvk_version g)"

text \<open>Every listing shows more than one definition of the kind; exactly one of the version.\<close>

definition shared_kind :: "'s env \<Rightarrow> gvk \<Rightarrow> bool" where
  "shared_kind E g \<longleftrightarrow> (\<forall>s cds. fst (env_list_defs E s) = Inr cds \<longrightarrow> 1 < length (defs_of_kind E g cds))"

definition only_of_version :: "'s env \<Rightarrow> gvk \<Rightarrow> bool" where
  "only_of_version E g \<longleftrightarrow> (\<forall>s cds. fst (env_list_defs E s) = Inr cds \<longrightarrow> length (defs_of_version E g cds) = 1)"

definition composition_of :: "'s env \<Rightarrow> gvr \<Rightarrow> kobj \<Rightarrow> bool" where
  "composition_of E r o1 \<longleftrightarrow>
     (\<exists>sel s us u. fst (env_dyn_list E r sel s) = Inr us \<and> u \<in> set us \<and> same_object o1 u)"

text \<open>Compositions of the resource are not CustomResourceDefinitions; there always is one.\<close>

definition no_crd_compositions :: "'s env \<Rightarrow> gvr \<Rightarrow> bool" where
  "no_crd_compositions E r \<longleftrightarrow>
     (\<forall>sel s us. fst (env_dyn_list E r sel s) = Inr us \<longrightarrow> (\<forall>u \<in> set us. ko_kind u \<noteq> crdKind))"

definition still_listed :: "'s env \<Rightarrow> gvr \<Rightarrow> bool" where
  "still_listed E r \<longleftrightarrow> (\<forall>sel s. fst (env_dyn_list E r sel s) \<noteq> Inr [])"

lemma yields_GetCompositions:
  "yields (\<lambda>us. \<exists>sel s. fst (env_dyn_list E r sel s) = Inr us) (wrapping m (GetCompositions E r))"
  by (auto simp: yields_def GetCompositions_def ok_iffs dyn_list_def call_apply)

lemma yields_definitions:
  "yields (\<lambda>l. \<exists>s cds. fst (env_list_defs E s) = Inr cds \<and> l = defs_of_version E g cds)
     (wrapping m (GetCompositionDefinitionsWithVersion E g))"
  "yields (\<lambda>l. \<exists>s cds. fst (env_list_defs E s) = Inr cds \<and> l = defs_of_kind E g cds)
     (wrapping m (GetCompositionDefinitions E \<lparr>gk_group = gvk_group g, gk_kind = gvk_kind g\<rparr>))"
  by (fastforce simp: yields_def GetCompositionDefinitionsWithVersion_def GetCompositionDefinitions_def
      ok_iffs list_defs_def call_apply defs_of_version_def defs_of_kind_def)+

text \<open>Deleting the compositions removes listed compositions and nothing else.\<close>

definition composition_deletes :: "'s env \<Rightarrow> gvr \<Rightarrow> event set" where
  "composition_deletes E r =
     {ev. is_write ev \<longrightarrow> (\<exists>uo o1. ev = EvDelete uo o1 \<and> composition_of E r o1)}"

lemma emits_delete_compositions:
  "emits w_trace (composition_deletes E r) (delete_compositions E r)"
proof -
  have get: "emits w_trace (composition_deletes E r) (wrapping m (GetCompositions E r))" for m
    by (intro emits_intros) (simp add: composition_deletes_def)
  have un: "emits w_trace (composition_deletes E r) (Uninstall E u no_uninstall_options)"
    if "u \<in> set us" "\<exists>sel s. fst (env_dyn_list E r sel s) = Inr us" for u us
  proof (rule emits_Uninstall)
    fix ev
    assume "uninstall_event no_uninstall_options u ev"
    with that show "ev \<in> composition_deletes E r"
      by (cases ev) (auto simp: composition_deletes_def composition_of_def)
  qed
  show ?thesis
    unfolding delete_compositions_def
    by (rule emits_thenP_yields [OF get yields_GetCompositions], rule emits_thenP, rule emits_foreachP,
        erule un, assumption, intro emits_intros) (simp add: composition_deletes_def)
qed

text \<open>
  While another definition of the same kind is listed, deleting a definition never deletes the
  CustomResourceDefinition, whatever else it removes and however it ends.
\<close>

theorem delete_existing_shared:
  assumes "shared_kind E g" and "no_crd_compositions E r"
  shows "emits w_trace no_crd_delete (delete_existing E st cr g r)"
proof -
  have comps: "composition_deletes E r \<subseteq> no_crd_delete"
  proof
    fix ev
    assume "ev \<in> composition_deletes E r"
    with assms(2) show "ev \<in> no_crd_delete"
      by (cases ev) (auto simp: composition_deletes_def composition_of_def no_crd_delete_def
          no_crd_compositions_def dest: same_object_kind)
  qed
  have list: "EvListDefs \<in> no_crd_delete" by (simp add: no_crd_delete_def)
  have undeploy: "emits w_trace no_crd_delete
      (let skipCRD = (if 1 < length l then True else False) in
       onErr f (Undeploy E (controller_undeploy_options st cr (cd_chart cr) r skipCRD)))"
    if "\<exists>s cds. fst (env_list_defs E s) = Inr cds \<and> l = defs_of_kind E g cds" for l f
    using that assms(1) by (auto simp: shared_kind_def controller_undeploy_options_def
        intro!: emits_onErr Undeploy_skip_keeps_crds)
  show ?thesis
    unfolding delete_existing_def
    by (rule emits_thenP, intro emits_intros list, rule emits_thenP, intro emits_whenP
        emits_mono [OF emits_delete_compositions comps],
        rule emits_thenP_yields [OF _ yields_definitions(2)], intro emits_intros list, rule undeploy)
qed

text \<open>A cluster with definitions \<open>ds\<close> and compositions \<open>us\<close> that answers every listing with them.\<close>

definition listing_env :: "comp_def list \<Rightarrow> kobj list \<Rightarrow> cluster env" where
  "listing_env ds us = sample_env\<lparr>env_list_defs := (\<lambda>s. (Inr ds, s)),
     env_dyn_list := (\<lambda>g sel s. (Inr us, s))\<rparr>"

definition fireworks_gvk :: gvk where
  "fireworks_gvk = \<lparr>gvk_group = ''composition.krateo.io'', gvk_version = ''v1-0-0'', gvk_kind = ''Fireworks''\<rparr>"

definition fireworks_gvr :: gvr where
  "fireworks_gvr = \<lparr>gvr_group = ''composition.krateo.io'', gvr_version = ''v1-0-0'', gvr_resource = ''fireworks''\<rparr>"

definition example_definition :: comp_def where
  "example_definition = example_def (Some (example_chart ''1.0.0'')) []"

definition example_composition :: kobj where
  "example_composition = zero_obj\<lparr>ko_kind := ''Fireworks'', ko_name := ''party''\<rparr>"

lemma listing_env_counts:
  "defs_of_kind (listing_env ds us) fireworks_gvk [example_definition, example_definition] =
     [example_definition, example_definition]"
  "defs_of_version (listing_env ds us) fireworks_gvk [example_definition] = [example_definition]"
  by (simp_all add: defs_of_kind_def defs_of_version_def def_gvk_def listing_env_def sample_env_def
      fireworks_gvk_def example_definition_def example_def_def)

theorem delete_existing_shared_witness:
  "emits w_trace no_crd_delete (delete_existing
     (listing_env [example_definition, example_definition] [example_composition])
     (\<lparr>st_statusJsonSchema = ''{}'', st_emptyJsonSchema = ''{}'', st_tempDir = ''/tmp''\<rparr>)
     example_definition fireworks_gvk fireworks_gvr)"
proof (rule delete_existing_shared)
  show "shared_kind (listing_env [example_definition, example_definition] [example_composition]) fireworks_gvk"
    using listing_env_counts(1) by (auto simp: shared_kind_def listing_env_def)
  show "no_crd_compositions (listing_env [example_definition, example_definition] [example_composition]) fireworks_gvr"
    by (auto simp: no_crd_compositions_def listing_env_def example_composition_def crdKind_def)
qed

text \<open>
  C10: While the server still lists a composition of the last definition of a version (its finalizers are
  pending), deleting that definition ends with an error and has removed nothing but listed compositions:
  the bundle and the CustomResourceDefinition that serve them stay.
\<close>

theorem delete_existing_waits:
  assumes "only_of_version E g" and "still_listed E r"
  shows "emits w_trace (composition_deletes E r) (delete_existing E st cr g r) \<and>
    fst (delete_existing E st cr g r w) \<noteq> Ok ()"
proof -
  have stuck: "yields (\<lambda>_. False) (delete_compositions E r)"
  proof -
    have "us \<noteq> []" if "wrapping m (GetCompositions E r) w = (Ok us, w')" for m us w w'
      using yieldsD [OF yields_GetCompositions that] assms(2) by (auto simp: still_listed_def)
    then show ?thesis
      by (auto simp: yields_def delete_compositions_def thenP_Ok_iff split: if_splits)
  qed
  have phase: "yields (\<lambda>_. False) (whenP (length l = 1) (delete_compositions E r))"
    if "\<exists>s cds. fst (env_list_defs E s) = Inr cds \<and> l = defs_of_version E g cds" for l
    using that assms(1) stuck by (auto simp: only_of_version_def whenP_def)
  have "emits w_trace (composition_deletes E r) (delete_existing E st cr g r)"
    unfolding delete_existing_def
    by (rule emits_thenP_yields [OF _ yields_definitions(1)], intro emits_intros,
        simp add: composition_deletes_def, rule emits_thenP_yields [OF _ phase], intro emits_whenP
        emits_delete_compositions, assumption, simp)
  moreover have "fst (delete_existing E st cr g r w) \<noteq> Ok ()"
  proof
    assume "fst (delete_existing E st cr g r w) = Ok ()"
    then obtain w' where "delete_existing E st cr g r w = (Ok (), w')" by (metis prod.collapse)
    then obtain l w1 w2 where "wrapping ''error getting CompositionDefinitions: ''
        (GetCompositionDefinitionsWithVersion E g) w = (Ok l, w1)"
      and "whenP (length l = 1) (delete_compositions E r) w1 = (Ok (), w2)"
      unfolding delete_existing_def by (auto simp: thenP_Ok_iff)
    then show False using yieldsD [OF yields_definitions(1)] yieldsD [OF phase] by blast
  qed
  ultimately show ?thesis by blast
qed

theorem delete_existing_waits_witness:
  "fst (delete_existing (listing_env [example_definition] [example_composition])
     (\<lparr>st_statusJsonSchema = ''{}'', st_emptyJsonSchema = ''{}'', st_tempDir = ''/tmp''\<rparr>)
     example_definition fireworks_gvk fireworks_gvr (sample_world [] [])) \<noteq> Ok ()"
proof (rule delete_existing_waits [THEN conjunct2])
  show "only_of_version (listing_env [example_definition] [example_composition]) fireworks_gvk"
    using listing_env_counts(2) by (auto simp: only_of_version_def listing_env_def)
  show "still_listed (listing_env [example_definition] [example_composition]) fireworks_gvr"
    by (auto simp: still_listed_def listing_env_def)
qed

text \<open>
  Deleting marks the definition as being deleted and changes nothing else of it, however it ends.
\<close>

lemma Delete_status:
  "triple (\<lambda>s. fst s = cr) (Delete E st) (\<lambda>_ s. fst s = SetConditions E Deleting cr)
     (\<lambda>_ s. fst s = SetConditions E Deleting cr)"
  unfolding Delete_def Let_def
  by (intro triple_getVar triple_setVar triple_step)
    (auto split: sum.split intro!: triple_step triple_end triple_last)

section \<open>Updating definitions, and starting up\<close>

text \<open>What the two retried updates may write: the mutation of a definition that was read.\<close>

definition read_definition :: "'s env \<Rightarrow> string \<Rightarrow> string \<Rightarrow> comp_def \<Rightarrow> bool" where
  "read_definition E ns name c \<longleftrightarrow> (\<exists>s. fst (env_get_def E ns name s) = Inr c)"

definition mutation_events :: "'s env \<Rightarrow> string \<Rightarrow> string \<Rightarrow> (comp_def \<Rightarrow> comp_def \<times> bool) \<Rightarrow> event set" where
  "mutation_events E ns name mutate = {ev. is_write ev \<longrightarrow> (\<exists>c. read_definition E ns name c \<and>
     snd (mutate c) \<and> ev = EvUpdateDef (fst (mutate c)))}"

definition status_events ::
  "'s env \<Rightarrow> (cd_status \<Rightarrow> cd_status \<Rightarrow> bool) \<Rightarrow> string \<Rightarrow> string \<Rightarrow> (comp_def \<Rightarrow> comp_def) \<Rightarrow> event set" where
  "status_events E semEq ns name mutate = {ev. is_write ev \<longrightarrow> (\<exists>c. read_definition E ns name c \<and>
     \<not> semEq (cd_status c) (cd_status (mutate c)) \<and> ev = EvUpdateDefStatus (mutate c))}"

lemma yields_get_def: "yields (read_definition E ns name) (get_def E ns name)"
  by (auto simp: yields_def get_def_def call_apply read_definition_def)

lemma yields_try_get_def:
  "yields (\<lambda>r. \<forall>c. r = Inr c \<longrightarrow> read_definition E ns name c) (tryP (get_def E ns name))"
  by (auto simp: yields_def tryP_def get_def_def call_apply read_definition_def split: sum.splits)


definition cleanup_events :: "event set" where
  "cleanup_events = {ev. is_write ev \<longrightarrow> (\<exists>cd labels. cd_labels cd = Some labels \<and>
     fmlookup labels obsoleteLabel \<noteq> None \<and>
     ev = EvUpdateDef (cd\<lparr>cd_labels := Some (fmdrop obsoleteLabel labels)\<rparr>))}"

lemma emits_cleanup: "emits w_trace cleanup_events (cleanupObsoleteFinalizerLabels E)"
proof -
  have "emits w_trace cleanup_events (cleanup_one E cd)" for cd
    unfolding cleanup_one_def
    by (intro emits_intros) (auto simp: cleanup_events_def without_obsolete_def)
  then show ?thesis
    unfolding cleanupObsoleteFinalizerLabels_def
    by (intro emits_intros) (simp add: cleanup_events_def)
qed

text \<open>
  The startup cleanup only ever writes definitions that carry the obsolete label, without that label and
  otherwise as listed; and it fails only if the listing fails: a definition that cannot be updated does not
  keep the others from being cleaned.
\<close>

theorem cleanup_only_drops_label:
  "emits w_trace cleanup_events (cleanupObsoleteFinalizerLabels E) \<and>
   (fst (cleanupObsoleteFinalizerLabels E w) = Ok () \<longleftrightarrow> (\<exists>ds. fst (env_list_defs E (w_ext w)) = Inr ds))"
proof
  have "\<exists>w'. cleanup_one E cd w = (Ok (), w')" for cd w
    by (cases "fst (env_update_def E (without_obsolete (the (cd_labels cd)) cd) (w_ext w))")
      (auto simp: cleanup_one_def thenP_def tryP_def update_def_def call_apply split: option.split)
  then have "always_ok (cleanup_one E cd)" for cd unfolding always_ok_def by blast
  then have "always_ok (foreachP ds (cleanup_one E))" for ds
    by (rule always_ok_foreachP)
  from always_okD [OF this] have all: "fst (foreachP ds (cleanup_one E) w) = Ok ()" for ds w
    by (metis fst_conv old.unit.exhaust)
  show "fst (cleanupObsoleteFinalizerLabels E w) = Ok () \<longleftrightarrow> (\<exists>ds. fst (env_list_defs E (w_ext w)) = Inr ds)"
    by (cases "fst (env_list_defs E (w_ext w))")
      (simp_all add: cleanupObsoleteFinalizerLabels_def thenP_def onErr_def list_defs_def call_apply all)
qed (rule emits_cleanup)

end
