(* ===== verification/Steady.thy ===== *)
theory Steady
  imports Crd_Settle Operator
begin

text \<open>
  A reconciliation that follows a successful \<open>Create\<close> has nothing to do: on a server for which applying
  the same object again changes nothing, the server-side dry run of the bundle answers the digest that
  \<open>Deploy\<close> returned, so \<open>Observe\<close> finds no drift.
\<close>

section \<open>A server for which applying is idempotent\<close>

text \<open>
  A dry run stores nothing. Once a create or an update of an object was answered, updating it with the
  same object (whatever its resource version), dry or not, answers the same digest fields, as long as what
  is stored still has them: generated values, such as the cluster address of a Service, are kept.
\<close>

definition encoded :: "'s env \<Rightarrow> (kobj \<Rightarrow> jfield list) \<Rightarrow> kobj \<Rightarrow> (err + string) list" where
  "encoded E flds o1 = map (env_marshal E) (flds o1)"

definition digest_fields :: "(kobj \<Rightarrow> jfield list) set" where
  "digest_fields = {rules_fields, binding_fields, name_fields, data_fields, svcspec_fields,
     (\<lambda>o1. depspec_fields (CleanFromRestartAnnotation o1))}"

definition steady_server :: "'s env \<Rightarrow> 's view \<Rightarrow> bool" where
  "steady_server E view \<longleftrightarrow>
     storing_server E view \<and>
     (\<forall>ao o1 s. ao_dryRun ao = [''All''] \<longrightarrow>
        view (snd (env_create E ao o1 s)) = view s \<and> view (snd (env_update E ao o1 s)) = view s) \<and>
     (\<forall>flds \<in> digest_fields. \<forall>ao o1 o2 rv s b o3. answered E o1 o2 \<longrightarrow>
        view s (key_of o1) = Some b \<longrightarrow> encoded E flds b = encoded E flds o2 \<longrightarrow>
        fst (env_update E ao (o1\<lparr>ko_resourceVersion := rv\<rparr>) s) = Inr o3 \<longrightarrow>
        encoded E flds o3 = encoded E flds o2)"

lemma steady_storing: "steady_server E view \<Longrightarrow> storing_server E view"
  by (simp add: steady_server_def)

lemma steady_dry:
  assumes "steady_server E view" "ao_dryRun ao = [''All'']"
  shows "view (snd (env_create E ao o1 s)) = view s" "view (snd (env_update E ao o1 s)) = view s"
  using assms unfolding steady_server_def by blast+

lemma steady_update:
  assumes "steady_server E view" "flds \<in> digest_fields" "answered E o1 o2"
    and "view s (key_of o1) = Some b" "encoded E flds b = encoded E flds o2"
    and "fst (env_update E ao (o1\<lparr>ko_resourceVersion := rv\<rparr>) s) = Inr o3"
  shows "encoded E flds o3 = encoded E flds o2"
  using assms unfolding steady_server_def by blast

section \<open>One object\<close>

text \<open>A dry run of an object that is stored with the fields of an earlier answer.\<close>

lemma Apply_dry:
  assumes srv: "steady_server E view" and ao: "ao_dryRun ao = [''All'']" and run: "Apply E o1 ao w = (Ok o3, w')"
    and flds: "flds \<in> digest_fields" and ans: "answered E o1 o2"
    and b: "view (w_ext w) (key_of o1) = Some b" "encoded E flds b = encoded E flds o2"
  shows "view (w_ext w') = view (w_ext w) \<and> encoded E flds o3 = encoded E flds b"
proof -
  note st = steady_storing [OF srv]
  have "\<exists>o1' w0. same_request o1 o1' \<and> view (w_ext w0) = view (w_ext w) \<and>
      apply_attempt E ao (o1', w0) = (Ok (), (o3, w'))"
  proof (rule Apply_invariant [OF _ _ refl run])
    show "view (snd (env_wait E d s)) = view s" for d s
      using st by (simp add: storing_server_def)
    fix v o4 e w2
    assume v: "same_request o1 (fst v)" "view (w_ext (snd v)) = view (w_ext w)"
      "apply_attempt E ao v = (Err e, (o4, w2))"
    then show "same_request o1 o4 \<and> view (w_ext w2) = view (w_ext w)"
      using apply_attempt_inv [OF st, of ao "fst v" "snd v" "Err e" o4 w2]
      by (auto simp: same_request_def steady_dry [OF srv ao])
  qed
  then obtain o1' w0 where same: "same_request o1 o1'" and w0: "view (w_ext w0) = view (w_ext w)"
    and ok: "apply_attempt E ao (o1', w0) = (Ok (), (o3, w'))" by blast
  obtain rv0 where o1': "o1' = o1\<lparr>ko_resourceVersion := rv0\<rparr>"
    using same by (auto simp: same_request_def)
  from apply_attempt_inv [OF st ok] obtain rv s where s: "view s = view (w_ext w)"
    "(Inr o3, w_ext w') = env_update E ao (o1\<lparr>ko_resourceVersion := rv\<rparr>) s"
    using w0 b(1) o1' by (auto split: if_splits)
  have "fst (env_update E ao (o1\<lparr>ko_resourceVersion := rv\<rparr>) s) = Inr o3" using s(2) by (metis fst_conv)
  then have "encoded E flds o3 = encoded E flds o2"
    using steady_update [OF srv flds ans _ b(2)] s(1) b(1) by metis
  moreover have "view (w_ext w') = view (w_ext w)"
    using steady_dry(2) [OF srv ao] s by (metis snd_conv)
  ultimately show ?thesis using b(2) by simp
qed

section \<open>The items of the bundle\<close>

abbreviation item_digest :: "'s item \<Rightarrow> kobj \<Rightarrow> jfield list" where
  "item_digest it \<equiv> (\<lambda>o1. it_fields it (it_clean it o1))"

lemma bundle_item_fields: "it \<in> set (bundle_items E opts rb) \<Longrightarrow> item_digest it \<in> digest_fields"
  unfolding bundle_items_def item_defs Let_def digest_fields_def by auto

text \<open>The stored object of an item has the digest fields of the answer to applying it.\<close>

definition steady_item :: "'s env \<Rightarrow> 's view \<Rightarrow> 's item \<Rightarrow> 's world \<Rightarrow> bool" where
  "steady_item E view it w \<longleftrightarrow>
     (case made it w of None \<Rightarrow> fst (it_make it w) = Ok None | Some o1 \<Rightarrow>
       (\<exists>o2 b. answered E o1 o2 \<and> view (w_ext w) (key_of o1) = Some b \<and>
          encoded E (item_digest it) b = encoded E (item_digest it) o2))"

lemma steady_item_view:
  assumes "good_item view it" "steady_item E view it w"
    and "\<And>o1. made it w = Some o1 \<Longrightarrow> view (w_ext w') (key_of o1) = view (w_ext w) (key_of o1)"
  shows "steady_item E view it w'"
  using assms(2,3) made_indep [OF assms(1), of w w'] pure_readerD(1) [of "it_make it" w w'] assms(1)
  by (cases "made it w'") (simp_all add: steady_item_def good_item_def)

text \<open>Its dry run adds to the hash what reading it back adds.\<close>

lemma dry_item_as_lookup:
  assumes srv: "steady_server E view" and ao: "ao_dryRun ao = [''All'']" and good: "good_item view it"
    and flds: "item_digest it \<in> digest_fields" and st: "steady_item E view it w"
    and run: "apply_item E ao it h w = (Ok (h2, m), w')"
    and u: "\<And>o1. made it w = Some o1 \<Longrightarrow> view (w_ext u) (key_of o1) = view (w_ext w) (key_of o1)"
  shows "view (w_ext w') = view (w_ext w) \<and> fst (lookup_item E it h u) = Ok h2 \<and>
    w_ext (snd (lookup_item E it h u)) = w_ext u"
proof -
  obtain x w1 where mk: "it_make it w = (Ok x, w1)"
    and rest: "(case x of None \<Rightarrow> returnP (h, None) | Some o1 \<Rightarrow>
         thenP (onErr (it_apply_err it) (Apply E o1 ao)) (\<lambda>o2.
         thenP (hashing E (it_what it) h (it_fields it (it_clean it o2))) (\<lambda>h2.
         returnP (h2, Some (it_clean it o2))))) w1 = (Ok (h2, m), w')"
    using run by (auto simp: apply_item_def thenP_Ok_iff)
  have w1: "w_ext w1 = w_ext w"
    using good pure_readerD(2) [of "it_make it" w] mk by (simp add: good_item_def)
  show ?thesis
  proof (cases x)
    case None
    then have "fst (it_make it u) = Ok None"
      using good mk pure_readerD(1) [of "it_make it" u w] by (simp add: good_item_def)
    from lookup_item_run(1) [OF good this] None rest w1 show ?thesis by simp
  next
    case (Some o1)
    with rest obtain o3 w2 where o3: "Apply E o1 ao w1 = (Ok o3, w2)"
      and h: "SumHash E h (item_digest it o3) = Inr h2" and w2: "w' = w2"
      by (auto simp: ok_iffs hashing_def)
    have made: "made it w = Some o1" "made it u = Some o1"
      using Some mk made_indep [OF good, of u w] by (simp_all add: made_def)
    with st obtain o2 b where ans: "answered E o1 o2" and b: "view (w_ext w) (key_of o1) = Some b"
      "encoded E (item_digest it) b = encoded E (item_digest it) o2"
      by (auto simp: steady_item_def)
    from Apply_dry [OF srv ao o3 flds ans, of b] b w1
    have dry: "view (w_ext w2) = view (w_ext w)" "encoded E (item_digest it) o3 = encoded E (item_digest it) b"
      by simp_all
    have "SumHash E h (item_digest it b) = Inr h2"
      using SumHash_cong [OF dry(2) [unfolded encoded_def]] h by metis
    from lookup_item_run(2) [OF good made(2) _ this] u [OF made(1)] b(1) dry(1) w2 show ?thesis by metis
  qed
qed

lemma dry_items_as_lookup:
  assumes srv: "steady_server E view" and ao: "ao_dryRun ao = [''All'']"
  shows "apply_items E ao its h w = (Ok h', w') \<Longrightarrow> (\<And>it. it \<in> set its \<Longrightarrow> good_item view it) \<Longrightarrow>
    (\<And>it. it \<in> set its \<Longrightarrow> item_digest it \<in> digest_fields) \<Longrightarrow>
    (\<And>it. it \<in> set its \<Longrightarrow> steady_item E view it w) \<Longrightarrow>
    (\<And>K. K \<in> set (made_keys its w) \<Longrightarrow> view (w_ext u) K = view (w_ext w) K) \<Longrightarrow>
    view (w_ext w') = view (w_ext w) \<and> fst (lookup_items E its h u) = Ok h'"
proof (induction its arbitrary: h w u)
  case (Cons it its)
  obtain h2 m w1 where one: "apply_item E ao it h w = (Ok (h2, m), w1)"
    and rest: "apply_items E ao its h2 w1 = (Ok h', w')"
    using Cons.prems(1) by (auto simp: thenP_Ok_iff)
  have good: "good_item view it" and flds: "item_digest it \<in> digest_fields" and st: "steady_item E view it w"
    using Cons.prems(2-4) by auto
  obtain r u1 where r: "lookup_item E it h u = (r, u1)" by fastforce
  have here: "view (w_ext u) (key_of o1) = view (w_ext w) (key_of o1)" if "made it w = Some o1" for o1
    using Cons.prems(5) that by (simp add: made_keys_def)
  from dry_item_as_lookup [OF srv ao good flds st one here] r
  have v: "view (w_ext w1) = view (w_ext w)" "r = Ok h2" "w_ext u1 = w_ext u" by simp_all
  have "view (w_ext w') = view (w_ext w1) \<and> fst (lookup_items E its h2 u1) = Ok h'"
  proof (rule Cons.IH [OF rest])
    have "made_keys its w1 = made_keys its w" by (rule made_keys_indep) (use Cons.prems(2) in auto)
    then show "view (w_ext u1) K = view (w_ext w1) K" if "K \<in> set (made_keys its w1)" for K
      using v Cons.prems(5) that by (simp add: made_keys_def)
    show "steady_item E view i w1" if "i \<in> set its" for i
      using steady_item_view [of view i E w w1] v(1) that Cons.prems(2,4) by auto
  qed (use Cons.prems(2,3) in auto)
  with v r show ?case by (simp add: thenP_def)
qed simp

section \<open>The dry run after a real one\<close>

lemma apply_items_answered:
  assumes srv: "storing_server E view" and ao: "ao_dryRun ao = []"
  shows "apply_items E ao its h w = (Ok h', w') \<Longrightarrow> (\<And>it. it \<in> set its \<Longrightarrow> good_item view it) \<Longrightarrow>
    distinct (made_keys its w) \<Longrightarrow> it \<in> set its \<Longrightarrow>
    (case made it w of None \<Rightarrow> fst (it_make it w) = Ok None | Some o1 \<Rightarrow>
      (\<exists>o2. answered E o1 o2 \<and> view (w_ext w') (key_of o1) = Some o2))"
proof (induction its arbitrary: h w)
  case (Cons i its)
  obtain h2 m w1 where one: "apply_item E ao i h w = (Ok (h2, m), w1)"
    and rest: "apply_items E ao its h2 w1 = (Ok h', w')"
    using Cons.prems(1) by (auto simp: thenP_Ok_iff)
  have good: "good_item view i" and goods: "\<And>j. j \<in> set its \<Longrightarrow> good_item view j"
    using Cons.prems(2) by auto
  have rk: "made_keys its w1 = made_keys its w" by (rule made_keys_indep [OF goods])
  have dist: "distinct (made_keys its w1)"
    using Cons.prems(3) unfolding rk by (simp add: made_keys_def)
  show ?case
  proof (cases "it \<in> set its")
    case True
    have g: "good_item view it" using True goods by simp
    have "made it w1 = made it w" "fst (it_make it w1) = fst (it_make it w)"
      using made_indep [OF g, of w1 w] pure_readerD(1) [of "it_make it" w1 w] g
      by (simp_all add: good_item_def)
    then show ?thesis using Cons.IH [OF rest goods dist True] by (simp split: option.splits)
  next
    case False
    then have it: "it = i" using Cons.prems(4) by simp
    obtain x w2 where mk: "it_make i w = (Ok x, w2)"
      and app: "(case x of None \<Rightarrow> returnP (h, None) | Some o1 \<Rightarrow>
         thenP (onErr (it_apply_err i) (Apply E o1 ao)) (\<lambda>o2.
         thenP (hashing E (it_what i) h (it_fields i (it_clean i o2))) (\<lambda>h2.
         returnP (h2, Some (it_clean i o2))))) w2 = (Ok (h2, m), w1)"
      using one by (auto simp: apply_item_def thenP_Ok_iff)
    show ?thesis
    proof (cases x)
      case None
      with mk it show ?thesis by (simp add: made_def)
    next
      case (Some o1)
      with app obtain o2 w4 where o2: "Apply E o1 ao w2 = (Ok o2, w4)" and w4: "w_ext w1 = w_ext w4"
        by (auto simp: ok_iffs hashing_def)
      have made: "made it w = Some o1" using mk it Some by (simp add: made_def)
      have stored: "view (w_ext w1) (key_of o1) = Some o2"
        using Apply_stores [OF srv ao o2] w4 by simp
      have "key_of o1 \<notin> set (made_keys its w)"
        using Cons.prems(3) made it by (simp add: made_keys_def)
      then have "view (w_ext w') (key_of o1) = Some o2"
        using apply_items_converge [OF srv ao rest goods dist] stored unfolding rk by metis
      with Apply_answered [OF srv ao o2] made show ?thesis by auto
    qed
  qed
qed simp

lemma Deploy_steady:
  assumes srv: "steady_server E view" and "static_files E" and "omits_empty E"
    and "\<not> do_dryRunServer opts" and "distinct_bundle E opts w" and "Deploy E opts w = (Ok digest, w')"
  shows "\<exists>rb. fst (bundle_rbac E opts w') = Ok rb \<and>
     (\<forall>it \<in> set (bundle_items E opts rb). \<forall>w''. w_ext w'' = w_ext w' \<longrightarrow> steady_item E view it w'')"
proof -
  note st = steady_storing [OF srv] and fl = assms(2)
  obtain rb w0 h6 w3 where rb: "fst (bundle_rbac E opts w') = Ok rb"
    and all: "apply_items E (deploy_applyOpts opts) (bundle_items E opts rb) NewFNVObjectHash w0 = (Ok h6, w3)"
    and dist0: "distinct (made_keys (bundle_items E opts rb) w0)"
    and agree: "\<forall>it \<in> set (bundle_items E opts rb). \<forall>w''. w_ext w'' = w_ext w' \<longrightarrow> agrees E view it w3 w''"
    using Deploy_run [OF st assms(2-6)] by blast
  have ao: "ao_dryRun (deploy_applyOpts opts) = []"
    using assms(4) by (simp add: deploy_applyOpts_def no_apply_options_def)
  have "steady_item E view it w''"
    if it: "it \<in> set (bundle_items E opts rb)" and w: "w_ext w'' = w_ext w'" for it w''
  proof -
    have good: "good_item view it" by (rule good_bundle_item [OF st fl it])
    have made: "made it w'' = made it w0" "made it w3 = made it w0"
      using made_indep [OF good] by blast+
    have mk: "fst (it_make it w'') = fst (it_make it w0)"
      using good pure_readerD(1) [of "it_make it" w'' w0] by (simp add: good_item_def)
    have ag: "agrees E view it w3 w''" using agree it w by blast
    have goods: "good_item view i" if "i \<in> set (bundle_items E opts rb)" for i
      by (rule good_bundle_item [OF st fl that])
    from apply_items_answered [OF st ao all goods dist0 it] ag show ?thesis
      by (cases "made it w0") (auto simp: steady_item_def agrees_def encoded_def made mk)
  qed
  with rb show ?thesis by blast
qed

text \<open>The places of the bundle's objects; they depend on the options only.\<close>

definition bundle_slots :: "'s env \<Rightarrow> deploy_options \<Rightarrow> 's world \<Rightarrow> (string \<times> string \<times> string) set" where
  "bundle_slots E opts w = (case fst (bundle_rbac E opts w) of
     Ok rb \<Rightarrow> set (made_keys (bundle_items E opts rb) w) | _ \<Rightarrow> {})"

lemma Deploy_then_dry_run:
  assumes srv: "steady_server E view" and fl: "static_files E" and om: "omits_empty E"
    and real: "\<not> do_dryRunServer opts" and dist: "distinct_bundle E opts w"
    and run: "Deploy E opts w = (Ok digest, w')"
    and same: "\<forall>K \<in> bundle_slots E opts w'. view (w_ext v) K = view (w_ext w') K"
    and dry: "Deploy E (opts\<lparr>do_dryRunServer := True\<rparr>) v = (Ok digest2, w2)"
  shows "digest2 = digest \<and>
    (view (w_ext u) = view (w_ext w2) \<longrightarrow> fst (Lookup E (opts\<lparr>do_dryRunServer := b\<rparr>) u) = Ok digest)"
proof -
  let ?opts = "opts\<lparr>do_dryRunServer := True\<rparr>"
  let ?ao = "deploy_applyOpts ?opts"
  note st = steady_storing [OF srv]
  have ao: "ao_dryRun ?ao = [''All'']" by (simp add: deploy_applyOpts_def no_apply_options_def)
  have rb_eq: "bundle_rbac E ?opts = bundle_rbac E opts" by (simp add: bundle_rbac_def)
  obtain rb where rb: "fst (bundle_rbac E opts w') = Ok rb"
    and steady: "\<forall>it \<in> set (bundle_items E opts rb). \<forall>w''. w_ext w'' = w_ext w' \<longrightarrow> steady_item E view it w''"
    using Deploy_steady [OF srv fl om real dist run] by blast
  obtain rb2 w0 h4 w1 h5 m w4 h6 where rb2: "bundle_rbac E ?opts v = (Ok rb2, w0)"
    and pre: "apply_items E ?ao (secret_items E ?opts (rb_sa rb2) @ rbac_items E rb2 @
       config_items E ?opts (rb_sa rb2)) NewFNVObjectHash w0 = (Ok h4, w1)"
    and dep: "apply_item E ?ao (deployment_item E ?opts (rb_sa rb2)) h4 w1 = (Ok (h5, m), w4)"
    and svc: "apply_items E ?ao [service_item E ?opts] h5 w4 = (Ok h6, w2)"
    and digest2: "digest2 = GetHash h6"
    using dry unfolding Deploy_as_items whenP_def bundle_rbac_def [symmetric] thenP_Ok_iff
    by (auto simp: thenP_Ok_iff simp del: apply_items.simps)
  have "fst (bundle_rbac E opts v) = fst (bundle_rbac E opts w')"
    unfolding bundle_rbac_def by (rule pure_readerD(1) [OF pure_reader_createRBAC [OF fl]])
  then have rb_same: "rb2 = rb" using rb rb2 unfolding rb_eq by simp
  have w0: "w_ext w0 = w_ext v"
    using pure_readerD(2) [OF pure_reader_createRBAC [OF fl]] rb2
    unfolding bundle_rbac_def by (metis snd_conv)
  have all: "apply_items E ?ao (bundle_items E ?opts rb2) NewFNVObjectHash w0 = (Ok h6, w2)"
    using pre dep svc unfolding bundle_items_def
    by (simp add: append_assoc [symmetric] apply_items_append thenP_Ok_iff del: append_assoc) blast
  obtain rb3 where rb3: "fst (bundle_rbac E opts w') = Ok rb3"
    and its: "\<And>w''. w_ext w'' = w_ext w' \<Longrightarrow>
      \<exists>h. fst (lookup_items E (bundle_items E opts rb3) NewFNVObjectHash w'') = Ok h \<and> digest = GetHash h"
    using Deploy_leaves [OF st fl om real dist run] by blast
  have "rb3 = rb" using rb rb3 by simp
  then obtain h where h: "fst (lookup_items E (bundle_items E opts rb) NewFNVObjectHash w') = Ok h" "digest = GetHash h"
    using its [OF refl] by blast
  have goods: "good_item view it" if "it \<in> set (bundle_items E opts rb)" for it
    by (rule good_bundle_item [OF st fl that])
  have slots: "view (w_ext w0) K = view (w_ext w') K" if "K \<in> set (made_keys (bundle_items E opts rb) x)" for K x
    using same that rb w0 made_keys_indep [OF goods, of "bundle_items E opts rb" w' x]
    by (simp add: bundle_slots_def)
  have as_lookup: "view (w_ext w2) = view (w_ext w0) \<and>
      fst (lookup_items E (bundle_items E opts rb) NewFNVObjectHash v) = Ok h6"
    if v: "\<And>K. K \<in> set (made_keys (bundle_items E opts rb) w0) \<Longrightarrow> view (w_ext v) K = view (w_ext w0) K" for v
  proof (rule dry_items_as_lookup [OF srv ao _ _ _ _ v])
    show "apply_items E ?ao (bundle_items E opts rb) NewFNVObjectHash w0 = (Ok h6, w2)"
      using all unfolding rb_same by simp
    show "steady_item E view it w0" if it: "it \<in> set (bundle_items E opts rb)" for it
    proof (rule steady_item_view [OF goods [OF it]])
      show "steady_item E view it w'" using steady it by blast
      show "view (w_ext w0) (key_of o1) = view (w_ext w') (key_of o1)" if "made it w' = Some o1" for o1
        by (rule slots [of _ w']) (use that it in \<open>auto simp: made_keys_def intro!: bexI [of _ it]\<close>)
    qed
  qed (auto intro: good_bundle_item [OF st fl] bundle_item_fields)
  have "h6 = h" using as_lookup [of w'] slots h(1) by simp
  moreover have "fst (Lookup E (opts\<lparr>do_dryRunServer := b\<rparr>) u) = Ok (GetHash h6)"
    if u: "view (w_ext u) = view (w_ext w2)"
  proof -
    obtain u1 where u1: "bundle_rbac E opts u = (Ok rb, u1)"
      using pure_readerD(1) [OF pure_reader_createRBAC [OF fl], of "do_gvr opts"] rb
      unfolding bundle_rbac_def by (metis prod.collapse)
    have "w_ext u1 = w_ext u"
      using pure_readerD(2) [OF pure_reader_createRBAC [OF fl]] u1
      unfolding bundle_rbac_def by (metis snd_conv)
    with as_lookup [of u1] as_lookup [OF refl] u u1 show ?thesis
      unfolding Lookup_as_items
      by (auto simp: bundle_rbac_def thenP_def split: prod.split outcome.split)
  qed
  ultimately show ?thesis using h(2) digest2 by simp
qed

text \<open>An observation that, if it ends well, reports no drift.\<close>

definition finds_no_drift :: "observation outcome \<Rightarrow> bool" where
  "finds_no_drift r = (case r of Ok ob \<Rightarrow> ob = obs True True | _ \<Rightarrow> True)"

lemma controller_dry_options:
  "controller_deploy_options st cr g sch False\<lparr>do_dryRunServer := True\<rparr> = controller_deploy_options st cr g sch True"
  "controller_deploy_options st cr g sch False\<lparr>do_dryRunServer := False\<rparr> = controller_deploy_options st cr g sch False"
  by (simp_all add: controller_deploy_options_def)

text \<open>The definition with the digest of what was deployed, and perhaps another status besides.\<close>

definition redeployed :: "comp_def \<Rightarrow> string \<Rightarrow> comp_def \<Rightarrow> bool" where
  "redeployed cr dig cr' \<longleftrightarrow> cs_digest (cd_status cr') = dig \<and> cd_chart cr' = cd_chart cr \<and>
     cd_namespace cr' = cd_namespace cr \<and> cd_deleted cr' = cd_deleted cr"

lemma redeployed_set_digest: "redeployed cr dig (set_digest dig cr)"
  by (simp add: redeployed_def set_digest_def)

lemma redeployed_options:
  "redeployed cr dig cr' \<Longrightarrow> controller_deploy_options st cr' g sch b = controller_deploy_options st cr g sch b"
  by (simp add: redeployed_def controller_deploy_options_def)

lemma observe_bundle_after_Deploy:
  assumes srv: "steady_server E view" and fl: "static_files E" and om: "omits_empty E"
    and dist: "distinct_bundle E (controller_deploy_options st cr g sch False) w"
    and run: "Deploy E (controller_deploy_options st cr g sch False) w = (Ok digest, w')"
    and same: "\<forall>K \<in> bundle_slots E (controller_deploy_options st cr g sch False) w'.
      view (w_ext u) K = view (w_ext w') K"
    and cr': "redeployed cr digest cr'"
  shows "finds_no_drift (fst (observe_bundle E st cr' pkg k sch g c1 (v, u)))"
proof -
  obtain r s where Pair: "observe_bundle E st cr' pkg k sch g c1 (v, u) = (r, s)"
    by (rule prod.exhaust)
  have real: "\<not> do_dryRunServer (controller_deploy_options st cr g sch False)"
    by (simp add: controller_deploy_options_def)
  note dry = Deploy_then_dry_run [OF srv fl om real dist run same, unfolded controller_dry_options]
  have look: "controller_deploy_options st cr g sch False\<lparr>do_dryRunServer := True\<rparr> =
      controller_deploy_options st cr g sch True" by (rule controller_dry_options)
  have "ob = obs True True" if ok: "r = Ok ob" for ob
  proof -
    obtain dig w2 where d: "Deploy E (controller_deploy_options st cr g sch True) u = (Ok dig, w2)"
      and rest: "(if digest \<noteq> dig then returnP (obs True False) else
      thenP (besideP (wrapping ''error looking up deployed resources digest: ''
          (Lookup E (controller_deploy_options st cr g sch True)))) (\<lambda>dig2.
      if digest \<noteq> dig2 then returnP (obs True False)
      else
      thenP (besideP (wrapping ''error refreshing CompositionDefinition status: ''
        (liftOutcome (RefreshCompositionDefinitionStatus E cr' (crd_of c1) g k
           (cf_packageURL pkg))))) (\<lambda>cr2.
      thenP (setVar (SetConditions E Available cr2)) (\<lambda>_.
      returnP (obs True True))))) (v, w2) = (Ok ob, s)"
      using Pair ok unfolding observe_bundle_def Let_def redeployed_options [OF cr']
        cr' [unfolded redeployed_def, THEN conjunct1]
      by (auto simp: ok_iffs simp del: returnP_apply split del: if_split)
    have dig: "dig = digest" and lk: "fst (Lookup E (controller_deploy_options st cr g sch True) w2) = Ok digest"
      using dry [OF d, of w2 True] unfolding look by simp_all
    with rest show ?thesis
      by (auto simp: ok_iffs split: if_splits)
  qed
  with Pair show ?thesis by (auto simp: finds_no_drift_def split: outcome.split)
qed

section \<open>The sample environment is steady\<close>

lemma encoded_rv: "flds \<in> digest_fields \<Longrightarrow> encoded E flds (o1\<lparr>ko_resourceVersion := rv\<rparr>) = encoded E flds o1"
  unfolding digest_fields_def encoded_def
  by (auto simp: rules_fields_def binding_fields_def name_fields_def data_fields_def svcspec_fields_def
      depspec_fields_def obj_rules_def obj_subjects_def obj_roleRef_def obj_data_def
      obj_svcSpec_def, simp_all add: obj_depSpec_Clean)
    (simp_all add: CleanFromRestartAnnotation_def obj_depSpec_def)

lemma sample_steady: "steady_server sample_env sample_view"
  unfolding steady_server_def
proof (intro conjI allI ballI impI sample_storing)
  fix ao :: apply_options and o1 :: kobj and s :: cluster
  assume "ao_dryRun ao = [''All'']"
  then show "sample_view (snd (env_create sample_env ao o1 s)) = sample_view s"
    "sample_view (snd (env_update sample_env ao o1 s)) = sample_view s"
    by (simp_all add: sample_env_def sample_put_def)
next
  fix flds ao o1 o2 rv and s :: cluster and o3
  assume flds: "flds \<in> digest_fields" and "answered sample_env o1 o2"
    and "fst (env_update sample_env ao (o1\<lparr>ko_resourceVersion := rv\<rparr>) s) = Inr o3"
  moreover have "o3 = o1\<lparr>ko_resourceVersion := rv\<rparr>"
    using calculation(3) by (simp add: sample_env_def sample_put_def)
  ultimately show "encoded sample_env flds o3 = encoded sample_env flds o2"
    using sample_answers [of o1 o2] encoded_rv [OF flds] by metis
qed

definition sample_headers :: "string \<Rightarrow> (string \<times> bool \<times> string) list" where
  "sample_headers b = [(''chart'', True, ''''), (''chart/Chart.yaml'', False, b),
     (''chart/values.schema.json'', False, ''{}'')]"

lemma sample_tar:
  "\<exists>t. New sample_env ''1.0.0'' = Inr t \<and>
     map (\<lambda>e. de_name (tf_nodes t ! e)) (tf_rootEntries t) = [''chart''] \<and>
     read_path t ''chart/Chart.yaml'' = Inr ''1.0.0'' \<and> read_path t ''chart/values.schema.json'' = Inr ''{}''"
proof -
  have untar: "env_untar sample_env ''1.0.0'' = Inr (sample_headers ''1.0.0'')"
    by (simp add: sample_env_def sample_headers_def)
  then obtain t where t: "New sample_env ''1.0.0'' = Inr t" and load: "t = tar_load empty_tarfs (sample_headers ''1.0.0'')"
    by (simp add: New_def)
  have names: "Clean ''chart'' = ''chart''" "Clean ''chart/Chart.yaml'' = ''chart/Chart.yaml''"
    "Clean ''chart/values.schema.json'' = ''chart/values.schema.json''" "ValidPath ''chart/Chart.yaml''"
    "ValidPath ''chart/values.schema.json''" by code_simp+
  have "has_file (sample_headers ''1.0.0'') ''chart/Chart.yaml'' ''1.0.0''"
    unfolding has_file_def sample_headers_def using names
    by (intro conjI exI [of _ "[(''chart'', True, '''')]"] exI [of _ "''chart/Chart.yaml''"]
      exI [of _ "[(''chart/values.schema.json'', False, ''{}'')]"]) simp_all
  moreover have "has_file (sample_headers ''1.0.0'') ''chart/values.schema.json'' ''{}''"
    unfolding has_file_def sample_headers_def using names
    by (intro conjI exI [of _ "[(''chart'', True, ''''), (''chart/Chart.yaml'', False, ''1.0.0'')]"]
      exI [of _ "''chart/values.schema.json''"] exI [of _ "[]"]) simp_all
  moreover have "(let t = tar_load empty_tarfs (sample_headers ''1.0.0'') in
      map (\<lambda>e. de_name (tf_nodes t ! e)) (tf_rootEntries t)) = [''chart'']" by code_simp
  ultimately show ?thesis
    using t load read_path_has_file [OF untar _ t] by (simp add: Let_def)
qed

lemma sample_chart:
  "\<exists>t w'. ChartInfoFromSpec sample_env (Some no_credentials) w = (Ok (t, ''chart''), w') \<and> w_ext w' = w_ext w \<and>
     ChartGroupVersionKind sample_env t ''chart'' = Ok \<lparr>gvk_group = ''composition.krateo.io'',
       gvk_version = ''v1-0-0'', gvk_kind = ''Fireworks''\<rparr> \<and> ChartJsonSchema t ''chart'' = Inr ''{}''"
proof -
  obtain t where "New sample_env ''1.0.0'' = Inr t \<and>
     map (\<lambda>e. de_name (tf_nodes t ! e)) (tf_rootEntries t) = [''chart''] \<and>
     read_path t ''chart/Chart.yaml'' = Inr ''1.0.0'' \<and> read_path t ''chart/values.schema.json'' = Inr ''{}''"
    using sample_tar by (rule exE)
  note t = this [THEN conjunct1] this [THEN conjunct2, THEN conjunct1]
    this [THEN conjunct2, THEN conjunct2, THEN conjunct1] this [THEN conjunct2, THEN conjunct2, THEN conjunct2]
  from t(1,2) have "ChartInfoFromBytes sample_env ''1.0.0'' = Inr (t, ''chart'')"
    by (auto simp: ChartInfoFromBytes_def ReadDir_def)
  moreover have run: "\<exists>v'. chartBytesFromSpecWithRetry sample_env q v = (Ok ''1.0.0'', v') \<and> w_ext v' = w_ext v"
    if "cq_version q = ''1.0.0''" for q v
  proof -
    have "fst (fetch_attempt sample_env q v) = Ok ''1.0.0'' \<and> w_ext (snd (fetch_attempt sample_env q v)) = w_ext v"
      using that by (simp add: fetch_attempt_def thenP_def onErr_def get_chart_def call_apply sample_env_def liftSum_def)
    then obtain v' where v': "fetch_attempt sample_env q v = (Ok ''1.0.0'', v')" "w_ext v' = w_ext v"
      by (metis prod.collapse)
    from v'(1) have "Do (Wait sample_env) (chart_retry sample_env) (fetch_attempt sample_env q) v = (Ok ''1.0.0'', v')"
      by (rule Do_first_Ok)
    then show ?thesis
      unfolding chartBytesFromSpecWithRetry_def using v' by (intro exI [of _ v']) (simp add: onErr_def)
  qed
  obtain w' where "chartBytesFromSpecWithRetry sample_env
      \<lparr>cq_url = ''oci://charts/fireworks'', cq_repo = '''', cq_version = ''1.0.0'', cq_insecure = False,
       cq_credentials = None\<rparr> w = (Ok ''1.0.0'', w')" "w_ext w' = w_ext w"
    using run [of "\<lparr>cq_url = ''oci://charts/fireworks'', cq_repo = '''', cq_version = ''1.0.0'', cq_insecure = False,
       cq_credentials = None\<rparr>" w]
    by auto
  ultimately have "ChartInfoFromSpec sample_env (Some no_credentials) w = (Ok (t, ''chart''), w') \<and> w_ext w' = w_ext w"
    by (simp add: ChartInfoFromSpec_def chart_options_def no_credentials_def thenP_def liftSum_def)
  moreover have "version_label ''1.0.0'' = ''v1-0-0''" by code_simp
  then have "ChartGroupVersionKind sample_env t ''chart'' = Ok \<lparr>gvk_group = ''composition.krateo.io'',
       gvk_version = ''v1-0-0'', gvk_kind = ''Fireworks''\<rparr>"
    using t(3) by (simp add: ChartGroupVersionKind_def gvk_of_fields_def assert_string_def defaultGroup_def sample_env_def)
  ultimately show ?thesis using t(4) by (auto simp: ChartJsonSchema_def)
qed

definition sample_statics :: statics where
  "sample_statics = \<lparr>st_statusJsonSchema = ''{}'', st_emptyJsonSchema = ''{}'', st_tempDir = ''/tmp''\<rparr>"

definition chart_definition :: comp_def where
  "chart_definition = example_definition\<lparr>cd_chart := Some no_credentials\<rparr>"

definition no_crds :: "cluster \<Rightarrow> bool" where
  "no_crds c \<longleftrightarrow> (\<forall>n. find_obj crdKind '''' n c = None)"

text \<open>The chart of the definition is served, and its bundle deploys; the part in between is left open.\<close>

lemma sample_Create_runs:
  assumes mid: "\<And>t w. ChartJsonSchema t ''chart'' = Inr ''{}'' \<Longrightarrow> no_crds (w_ext w) \<Longrightarrow>
    \<exists>r c w'. apply_chart_crd sample_env sample_statics C ''error managing certificates after CRD apply: '' t ''chart''
     \<lparr>gvk_group = ''composition.krateo.io'', gvk_version = ''v1-0-0'', gvk_kind = ''Fireworks''\<rparr>
     w = (Ok (r, c, ''{}''), w')"
  shows "\<exists>cr1 w1. Create sample_env sample_statics C (chart_definition, sample_world [] []) = (Ok (), (cr1, w1))"
proof -
  obtain t w1 where c: "ChartInfoFromSpec sample_env (Some no_credentials) (sample_world [] []) = (Ok (t, ''chart''), w1)"
    "w_ext w1 = w_ext (sample_world [] [])" "ChartGroupVersionKind sample_env t ''chart'' = Ok \<lparr>gvk_group = ''composition.krateo.io'',
       gvk_version = ''v1-0-0'', gvk_kind = ''Fireworks''\<rparr>" "ChartJsonSchema t ''chart'' = Inr ''{}''"
    using sample_chart by metis
  have "no_crds (w_ext w1)" using c(2) by (simp add: sample_world_def no_crds_def find_obj_def)
  from mid [OF c(4) this] obtain r crd2 w2 where
    a: "apply_chart_crd sample_env sample_statics C ''error managing certificates after CRD apply: '' t ''chart''
     \<lparr>gvk_group = ''composition.krateo.io'', gvk_version = ''v1-0-0'', gvk_kind = ''Fireworks''\<rparr> w1 = (Ok (r, crd2, ''{}''), w2)"
    by metis
  have "do_spec (controller_deploy_options sample_statics chart_definition r ''{}'' False) = Some no_credentials"
    by (simp add: controller_deploy_options_def chart_definition_def)
  then obtain dig w3 where "Deploy sample_env (controller_deploy_options sample_statics chart_definition r ''{}'' False) w2
      = (Ok dig, w3)"
    using always_okD [OF always_ok_Deploy] by metis
  with c(1,3) a have "Create sample_env sample_statics C (chart_definition, sample_world [] []) =
      (Ok (), (set_digest dig chart_definition, w3))"
    by (simp add: Create_def ok_iffs getVar_def setVar_def chart_definition_def)
  then show ?thesis by blast
qed

lemma sample_controller_distinct:
  assumes "cd_chart cr = Some no_credentials"
  shows "distinct_bundle sample_env (controller_deploy_options sample_statics cr g sch False) v"
proof (rule sample_distinct)
  have "JSONSchemaTemplateConfigmapPath sample_statics \<noteq> CDCtemplateConfigmapPath sample_statics" by code_simp
  then show "do_jsonSchemaTemplatePath (controller_deploy_options sample_statics cr g sch False) \<noteq>
      do_configmapTemplatePath (controller_deploy_options sample_statics cr g sch False)"
    by (simp add: controller_deploy_options_def)
qed (simp add: controller_deploy_options_def assms)

end
