(* ===== verification/Reconcile.thy ===== *)
theory Reconcile
  imports Steady
begin

text \<open>
  A whole reconciliation: \<open>Observe\<close> after a successful \<open>Create\<close>. The chart, the name of the resource, the
  CustomResourceDefinition and the bundle are followed from one operation to the other, through the
  certificate manager.
\<close>

section \<open>Deploying leaves CustomResourceDefinitions alone\<close>

lemma returnP_Ok_iff: "returnP x w = (Ok y, w') \<longleftrightarrow> x = y \<and> w' = w"
  by (auto simp: returnP_def)

definition bundle_kinds :: "string set" where
  "bundle_kinds = {''ServiceAccount'', ''ClusterRole'', ''ClusterRoleBinding'', ''Role'', ''RoleBinding'',
     ''ConfigMap'', ''Deployment'', ''Service''}"

definition of_bundle :: "kobj \<Rightarrow> bool" where
  "of_bundle o1 \<longleftrightarrow> ko_kind o1 \<in> bundle_kinds"

lemma of_bundle_not_crd: "of_bundle o1 \<Longrightarrow> ko_kind o1 \<noteq> crdKind"
  by (auto simp: of_bundle_def bundle_kinds_def crdKind_def)

definition makes_of_bundle :: "'s item \<Rightarrow> bool" where
  "makes_of_bundle it \<longleftrightarrow> yields (\<lambda>m. \<forall>o1. m = Some o1 \<longrightarrow> of_bundle o1) (it_make it)"

definition rbac_of_bundle :: "rbac \<Rightarrow> bool" where
  "rbac_of_bundle rb \<longleftrightarrow> of_bundle (rb_sa rb) \<and> of_bundle (rb_clusterrole rb) \<and>
     of_bundle (rb_clusterrolebinding rb) \<and> of_bundle (rb_role rb) \<and> of_bundle (rb_rolebinding rb)"

lemma bundle_kinds_simps [simp]:
  "''ServiceAccount'' \<in> bundle_kinds" "''ClusterRole'' \<in> bundle_kinds" "''ClusterRoleBinding'' \<in> bundle_kinds"
  "''Role'' \<in> bundle_kinds" "''RoleBinding'' \<in> bundle_kinds" "''ConfigMap'' \<in> bundle_kinds"
  "''Deployment'' \<in> bundle_kinds" "''Service'' \<in> bundle_kinds"
  by (simp_all add: bundle_kinds_def)

lemma CreateK8sObject_of_bundle:
  "CreateK8sObject E otype g nn path extra w = (Ok o1, w') \<Longrightarrow> of_bundle o1 \<longleftrightarrow> otype \<in> bundle_kinds"
  using yieldsD [OF yields_CreateK8sObject] by (fastforce simp: of_bundle_def)

lemma createRBAC_kinds: "createRBACResources E g nn folder w = (Ok rb, w') \<Longrightarrow> rbac_of_bundle rb"
  by (auto simp: createRBACResources_def ok_iffs rbac_of_bundle_def dest!: CreateK8sObject_of_bundle)

lemma bundle_rbac_kinds: "bundle_rbac E opts w = (Ok rb, w') \<Longrightarrow> rbac_of_bundle rb"
  unfolding bundle_rbac_def by (rule createRBAC_kinds)

lemma bundle_items_kinds:
  assumes "rbac_of_bundle rb" and "it \<in> set (bundle_items E opts rb)"
  shows "makes_of_bundle it"
  using assms unfolding bundle_items_def item_defs Let_def when_credentials_def secret_role_def
    secret_rolebinding_def jsonSchemaConfigmap_def controllerConfigmap_def controllerDeployment_def
    controllerService_def makes_of_bundle_def rbac_of_bundle_def
  by (auto simp: yields_def ok_iffs returnP_Ok_iff dest!: CreateK8sObject_of_bundle
      split: option.splits sum.splits simp del: returnP_apply)
    (metis (full_types) old.unit.exhaust sum.exhaust)

lemma keeps_apply_item:
  assumes srv: "storing_server E view" and core: "keeps_core E" and K: "fst K = crdKind"
    and good: "good_item view it" and mk: "makes_of_bundle it"
  shows "keeps view (has_core K D) (apply_item E no_apply_options it h)"
  unfolding apply_item_def
proof (rule keeps_thenP_yields [OF quiet_keeps [OF pure_reader_quiet] mk [unfolded makes_of_bundle_def]])
  show "pure_reader (it_make it)" using good by (simp add: good_item_def)
  fix x
  assume x: "\<forall>o1. x = Some o1 \<longrightarrow> of_bundle o1"
  show "keeps view (has_core K D) (case x of None \<Rightarrow> returnP (h, None) | Some o1 \<Rightarrow>
         thenP (onErr (it_apply_err it) (Apply E o1 no_apply_options)) (\<lambda>o2.
         thenP (hashing E (it_what it) h (it_fields it (it_clean it o2))) (\<lambda>h2.
         returnP (h2, Some (it_clean it o2)))))"
  proof (rule keeps_case_option)
    fix o1
    assume "x = Some o1"
    with x K have "key_of o1 \<noteq> K" by (auto simp: key_of_def dest!: of_bundle_not_crd)
    then show "keeps view (has_core K D) (thenP (onErr (it_apply_err it) (Apply E o1 no_apply_options)) (\<lambda>o2.
         thenP (hashing E (it_what it) h (it_fields it (it_clean it o2))) (\<lambda>h2.
         returnP (h2, Some (it_clean it o2)))))"
      unfolding hashing_def by (intro keeps_intros keeps_core_Apply [OF srv core]) simp
  qed (rule keeps_basic)
qed

lemma apply_item_kind:
  assumes srv: "storing_server E view" and good: "good_item view it" and mk: "makes_of_bundle it"
    and run: "apply_item E no_apply_options it h w = (Ok (h2, Some d), w')"
  shows "of_bundle d"
proof -
  obtain o1 w1 o2 w2 where m: "it_make it w = (Ok (Some o1), w1)" and ap: "Apply E o1 no_apply_options w1 = (Ok o2, w2)"
    and d: "d = it_clean it o2"
    using run by (auto simp: apply_item_def ok_iffs split: option.splits)
  have "key_of d = key_of o1"
    using good Apply_stores [OF srv _ ap] d by (simp add: good_item_def no_apply_options_def)
  moreover have "of_bundle o1" using yieldsD [OF mk [unfolded makes_of_bundle_def] m] by simp
  ultimately show ?thesis by (auto simp: key_of_def of_bundle_def)
qed

lemma keeps_apply_items:
  assumes "storing_server E view" and "keeps_core E" and "fst K = crdKind"
    and "\<And>it. it \<in> set its \<Longrightarrow> good_item view it \<and> makes_of_bundle it"
  shows "keeps view (has_core K D) (apply_items E no_apply_options its h)"
  using assms(4)
  by (induction its arbitrary: h) (auto intro!: keeps_intros keeps_apply_item [OF assms(1-3)] simp del: returnP_apply)

lemma keeps_restart:
  assumes srv: "storing_server E view" and K: "fst K = crdKind" and d: "of_bundle d"
  shows "keeps view (has_core K D) (deploy_restart E d)"
proof -
  have "keeps view (has_core K D) (k_patch E d (with_dep_spec f d))" for f
    unfolding keeps_def
  proof (intro allI impI)
    fix w :: "'a world"
    let ?o = "with_dep_spec f d" and ?r = "env_patch E d (with_dep_spec f d) (w_ext w)"
    assume I: "has_core K D (view (w_ext w))"
    have "key_of ?o \<noteq> K" using K of_bundle_not_crd [OF d] by (auto simp: key_of_def)
    moreover have "stores_answer view ?o (w_ext w) ?r" using srv unfolding storing_server_def by blast
    ultimately show "has_core K D (view (w_ext (snd (k_patch E d ?o w))))"
      using I by (auto simp: k_patch_def call_apply stores_answer_def has_core_def split: sum.splits)
  qed
  then show ?thesis
    unfolding deploy_restart_def RestartDeployment_def now_rfc3339_def
    by (intro keeps_intros keeps_watching [OF srv]) (simp_all add: keeps_def)
qed

lemma Deploy_keeps_core:
  assumes srv: "storing_server E view" and core: "keeps_core E" and fl: "static_files E"
    and real: "\<not> do_dryRunServer opts" and K: "fst K = crdKind"
  shows "keeps view (has_core K D) (Deploy E opts)"
proof -
  have ao: "deploy_applyOpts opts = no_apply_options" using real by (simp add: deploy_applyOpts_def)
  show ?thesis
    unfolding Deploy_as_items bundle_rbac_def [symmetric] ao
  proof (rule keeps_thenP_yields [OF quiet_keeps [OF pure_reader_quiet]])
    show "pure_reader (bundle_rbac E opts)" unfolding bundle_rbac_def by (rule pure_reader_createRBAC [OF fl])
    show "yields rbac_of_bundle (bundle_rbac E opts)"
      by (auto simp: yields_def dest: bundle_rbac_kinds)
    fix rb
    assume rb: "rbac_of_bundle rb"
    have it: "good_item view it \<and> makes_of_bundle it" if "it \<in> set (bundle_items E opts rb)" for it
      using good_bundle_item [OF srv fl that] bundle_items_kinds [OF rb that] by blast
    have dep: "yields (\<lambda>p. \<forall>d. snd p = Some d \<longrightarrow> of_bundle d) (apply_item E no_apply_options (deployment_item E opts (rb_sa rb)) h)" for h
      using apply_item_kind [OF srv] it [of "deployment_item E opts (rb_sa rb)"]
      by (fastforce simp: yields_def bundle_items_def)
    have some: "yields (\<lambda>p. snd p \<noteq> None) (apply_item E no_apply_options (deployment_item E opts (rb_sa rb)) h)" for h
      by (auto simp: yields_def apply_item_def deployment_item_def item_def Let_def ok_iffs returnP_Ok_iff simp del: returnP_apply)
    show "keeps view (has_core K D) (thenP (apply_items E no_apply_options (secret_items E opts (rb_sa rb) @ rbac_items E rb @
       config_items E opts (rb_sa rb)) NewFNVObjectHash) (\<lambda>h4.
     thenP (apply_item E no_apply_options (deployment_item E opts (rb_sa rb)) h4) (\<lambda>p.
     thenP (apply_items E no_apply_options [service_item E opts] (fst p)) (\<lambda>h6.
     thenP (whenP (\<not> do_dryRunServer opts) (deploy_restart E (the (snd p)))) (\<lambda>_.
     returnP (GetHash h6))))))"
    proof (rule keeps_thenP)
      show "keeps view (has_core K D) (apply_items E no_apply_options (secret_items E opts (rb_sa rb) @ rbac_items E rb @
         config_items E opts (rb_sa rb)) NewFNVObjectHash)"
        by (rule keeps_apply_items [OF srv core K]) (use it in \<open>auto simp: bundle_items_def\<close>)
      fix h4
      have y: "yields (\<lambda>p. of_bundle (the (snd p))) (apply_item E no_apply_options (deployment_item E opts (rb_sa rb)) h4)"
        using dep [of h4] some [of h4] by (fastforce simp: yields_def)
      show "keeps view (has_core K D) (thenP (apply_item E no_apply_options (deployment_item E opts (rb_sa rb)) h4) (\<lambda>p.
       thenP (apply_items E no_apply_options [service_item E opts] (fst p)) (\<lambda>h6.
       thenP (whenP (\<not> do_dryRunServer opts) (deploy_restart E (the (snd p)))) (\<lambda>_. returnP (GetHash h6)))))"
        by (rule keeps_thenP_yields [OF _ y])
          (use it in \<open>auto simp: bundle_items_def simp del: apply_items.simps returnP_apply
            intro!: keeps_intros keeps_apply_item [OF srv core K] keeps_apply_items [OF srv core K] keeps_restart [OF srv K]\<close>)
    qed
  qed
qed

section \<open>The same chart every time\<close>

text \<open>Whenever a program ends well, it ends with the same result.\<close>

definition determined :: "('w, 'a) prog \<Rightarrow> bool" where
  "determined m \<longleftrightarrow> (\<forall>w w' x y. fst (m w) = Ok x \<longrightarrow> fst (m w') = Ok y \<longrightarrow> x = y)"

lemma determinedD: "determined m \<Longrightarrow> m w = (Ok x, v) \<Longrightarrow> m w' = (Ok y, v') \<Longrightarrow> x = y"
  unfolding determined_def by (metis fst_conv)

lemma determinedI:
  "(\<And>w w' x y v v'. m w = (Ok x, v) \<Longrightarrow> m w' = (Ok y, v') \<Longrightarrow> x = y) \<Longrightarrow> determined m"
  unfolding determined_def by (metis prod.collapse)

lemma determined_basic: "determined (returnP x)" "determined (failP e)" "determined (liftSum r)" "determined (panicP s)"
  by (auto simp: determined_def liftSum_def split: sum.splits)

lemma determined_onErr: "determined m \<Longrightarrow> determined (onErr f m)"
  by (rule determinedI) (auto simp: onErr_Ok_iff dest: determinedD)

lemma determined_thenP:
  assumes "determined m" and "\<And>x. determined (k x)"
  shows "determined (thenP m k)"
proof (rule determinedI)
  fix w w' x y v v'
  assume "thenP m k w = (Ok x, v)" "thenP m k w' = (Ok y, v')"
  then obtain a b w1 w2 where "m w = (Ok a, w1)" "k a w1 = (Ok x, v)" "m w' = (Ok b, w2)" "k b w2 = (Ok y, v')"
    by (auto simp: thenP_Ok_iff)
  with determinedD [OF assms(1)] determinedD [OF assms(2)] show "x = y" by metis
qed

lemma determined_case_option:
  "determined n \<Longrightarrow> (\<And>x. determined (g x)) \<Longrightarrow> determined (case r of None \<Rightarrow> n | Some x \<Rightarrow> g x)"
  by (cases r) simp_all

lemma Do_Ok_from:
  assumes "Do wait cfg operation w = (Ok x, w')" and "rc_wait cfg = Some wait" and "\<And>a d e w. run_onRetry cfg a d e w = w"
  shows "\<exists>v. operation v = (Ok x, w')"
  using Do_loop_Ok_inv [where I = "\<lambda>_. True" and cfg = cfg and operation = operation and wait = wait] assms
  by (auto simp: Do_def Let_def)

text \<open>Chart versions and secrets do not change: an answer, once given, is given again.\<close>

definition fixed_charts :: "'s env \<Rightarrow> bool" where
  "fixed_charts E \<longleftrightarrow>
     (\<forall>q s s' x y. fst (env_get_chart E q s) = Inr x \<longrightarrow> fst (env_get_chart E q s') = Inr y \<longrightarrow> x = y) \<and>
     (\<forall>ns n s s' x y. fst (env_get_secret E ns n s) = Inr x \<longrightarrow> fst (env_get_secret E ns n s') = Inr y \<longrightarrow> x = y)"

lemma outcome_of_Ok: "outcome_of r = Ok x \<longleftrightarrow> r = Inr x"
  by (cases r) simp_all

lemma determined_fetch:
  assumes "fixed_charts E"
  shows "determined (get_chart E q)" "determined (get_secret E ns n)" "determined (chart_options E ci)"
proof -
  show chart: "determined (get_chart E q)" for q
    using assms unfolding determined_def get_chart_def call_apply fst_conv outcome_of_Ok fixed_charts_def by blast
  show secret: "determined (get_secret E ns n)" for ns n
    using assms unfolding determined_def get_secret_def call_apply fst_conv outcome_of_Ok fixed_charts_def by blast
  show "determined (chart_options E ci)"
    unfolding chart_options_def GetSecret_def Let_def
    by (intro determined_case_option determined_thenP determined_onErr determined_basic secret)
qed

text \<open>What the two ways of reading a chart have in common.\<close>

lemma ChartInfoFromSpec_reads:
  assumes "ChartInfoFromSpec E (Some ci) w = (Ok (t, dir), w')"
  shows "\<exists>q v1 v2 v3 v4 url bytes. chart_options E ci v1 = (Ok q, v2) \<and>
    get_chart E q v3 = (Ok (Some (Inr bytes), url), v4) \<and> ChartInfoFromBytes E bytes = Inr (t, dir)"
proof -
  obtain q v2 bytes v5 where q: "chart_options E ci w = (Ok q, v2)"
    and b: "chartBytesFromSpecWithRetry E q v2 = (Ok bytes, v5)" and t: "ChartInfoFromBytes E bytes = Inr (t, dir)"
    using assms by (auto simp: ChartInfoFromSpec_def ok_iffs)
  obtain v where "fetch_attempt E q v = (Ok bytes, v5)"
    using b Do_Ok_from [of "Wait E" "chart_retry E" "fetch_attempt E q" v2 bytes v5]
    by (auto simp: chartBytesFromSpecWithRetry_def ok_iffs chart_retry_def run_onRetry_def)
  then obtain url v4 where "get_chart E q v = (Ok (Some (Inr bytes), url), v4)"
    by (auto simp: fetch_attempt_def ok_iffs split: option.splits)
  with q t show ?thesis by blast
qed

lemma ForSpec_reads:
  assumes "ForSpec E (Some ci) w = (Ok f, w')"
  shows "\<exists>q v1 v2 v3 v4 url rd. chart_options E ci v1 = (Ok q, v2) \<and>
    get_chart E q v3 = (Ok (Some rd, url), v4) \<and> FromReader E rd url = Inr f"
proof -
  obtain q v2 dat url v4 where q: "chart_options E ci w = (Ok q, v2)" and g: "get_chart E q v2 = (Ok (dat, url), v4)"
    and rest: "(case dat of None \<Rightarrow> panicP ''invalid memory address or nil pointer dereference''
      | Some rd \<Rightarrow> liftSum (FromReader E rd url)) v4 = (Ok f, w')"
    using assms by (auto simp: ForSpec_def ok_iffs)
  from rest obtain rd where "dat = Some rd" "FromReader E rd url = Inr f"
    by (cases dat) (auto simp: liftSum_Ok_iff)
  with q g show ?thesis by blast
qed

lemma same_archive:
  assumes "ChartInfoFromBytes E bytes = Inr (t, dir)" and "FromReader E (Inr bytes) url = Inr f"
  shows "cf_fs f = t \<and> cf_rootdir f = dir"
proof -
  obtain all where new: "New E bytes = Inr t" and all: "fst (ReadDir t ''.'') = Inr all" "length all = 1"
    and dir: "dir = de_name (tf_nodes t ! hd all)"
    using assms(1) by (auto simp: ChartInfoFromBytes_def split: sum.splits if_splits)
  obtain e where e: "all = [e]" using all(2) by (cases all) auto
  show ?thesis
    using assms(2) new all(1) dir by (auto simp: FromReader_def e Let_def split: if_splits)
qed

lemma chart_determined:
  assumes fc: "fixed_charts E" and a: "ChartInfoFromSpec E nfo w = (Ok (t, dir), w')"
  shows "ChartInfoFromSpec E nfo v = (Ok (t2, dir2), v') \<Longrightarrow> t2 = t \<and> dir2 = dir"
    and "ForSpec E nfo v = (Ok f, v') \<Longrightarrow> cf_fs f = t \<and> cf_rootdir f = dir"
proof -
  obtain ci where ci: "nfo = Some ci" using a by (auto simp: ChartInfoFromSpec_def split: option.splits)
  note det = determinedD [OF determined_fetch(3) [OF fc]] determinedD [OF determined_fetch(1) [OF fc]]
  obtain q v1 v2 v3 v4 url bytes where r1: "chart_options E ci v1 = (Ok q, v2)"
    "get_chart E q v3 = (Ok (Some (Inr bytes), url), v4)" "ChartInfoFromBytes E bytes = Inr (t, dir)"
    using ChartInfoFromSpec_reads [OF a [unfolded ci]] by blast
  show "t2 = t \<and> dir2 = dir" if b: "ChartInfoFromSpec E nfo v = (Ok (t2, dir2), v')"
  proof -
    obtain q2 u1 u2 u3 u4 url2 bytes2 where r2: "chart_options E ci u1 = (Ok q2, u2)"
      "get_chart E q2 u3 = (Ok (Some (Inr bytes2), url2), u4)" "ChartInfoFromBytes E bytes2 = Inr (t2, dir2)"
      using ChartInfoFromSpec_reads [OF b [unfolded ci]] by blast
    have "q2 = q" by (rule det(1) [OF r2(1) r1(1)])
    then have "(Some (Inr bytes2 :: err + string), url2) = (Some (Inr bytes), url)"
      using det(2) r1(2) r2(2) by metis
    with r1(3) r2(3) show ?thesis by simp
  qed
  show "cf_fs f = t \<and> cf_rootdir f = dir" if b: "ForSpec E nfo v = (Ok f, v')"
  proof -
    obtain q2 u1 u2 u3 u4 url2 rd where r2: "chart_options E ci u1 = (Ok q2, u2)"
      "get_chart E q2 u3 = (Ok (Some rd, url2), u4)" "FromReader E rd url2 = Inr f"
      using ForSpec_reads [OF b [unfolded ci]] by blast
    have "q2 = q" by (rule det(1) [OF r2(1) r1(1)])
    then have "(Some rd, url2) = (Some (Inr bytes), url)"
      using det(2) r1(2) r2(2) by metis
    with same_archive [OF r1(3)] r2(3) show ?thesis by simp
  qed
qed

text \<open>\<open>Observe\<close> sees the kind and the schema that \<open>Create\<close> saw.\<close>

lemma observe_chart_same:
  assumes fc: "fixed_charts E" and a: "ChartInfoFromSpec E (cd_chart cr) w = (Ok (t, dir), w')"
    and g: "ChartGroupVersionKind E t dir = Ok g" and s: "ChartJsonSchema t dir = Inr sch"
    and run: "observe_chart E cr v = (Ok (pkg, k, sch2), v')"
  shows "k = g \<and> sch2 = sch"
proof -
  obtain t2 dir2 v2 v3 where b: "ChartInfoFromSpec E (cd_chart cr) v = (Ok (t2, dir2), v2)"
    and f: "ForSpec E (cd_chart cr) v2 = (Ok pkg, v3)" and k: "GroupVersionKind E pkg = Ok k"
    and sc: "ChartJsonSchema t2 dir2 = Inr sch2"
    using run by (auto simp: observe_chart_def ok_iffs)
  note c = chart_determined(1) [OF fc a b] chart_determined(2) [OF fc a f]
  show ?thesis using k g sc s c by (auto simp: GroupVersionKind_def ChartGroupVersionKind_def)
qed

section \<open>The cluster after Create\<close>

text \<open>The generated CRD, discovery and the fallback agree on the names of the kind of a chart.\<close>

definition names_agree :: "'s env \<Rightarrow> statics \<Rightarrow> bool" where
  "names_agree E st \<longleftrightarrow> (\<forall>t dir k sch c. ChartGroupVersionKind E t dir = Ok k \<longrightarrow> GenerateCRD E st sch k = Inr c \<longrightarrow>
     (\<exists>v. generated_crd E c v \<and> cv_name v = gvk_version k \<and> crd_group (crd_of c) = gvk_group k) \<and>
     (\<forall>s p. fst (env_plural E k s) = Inr p \<longrightarrow> p = crd_plural (crd_of c)) \<and>
     (\<forall>g. GetGVRFromGeneratedCRD E st sch k = Ok g \<longrightarrow> g = \<lparr>gvr_group = gvk_group k, gvr_version = gvk_version k,
        gvr_resource = crd_plural (crd_of c)\<rparr>))"

text \<open>What is stored for the kind, if anything, is of that kind and has the status schema of this provider.\<close>

definition same_provider_stored :: "'s env \<Rightarrow> statics \<Rightarrow> (string \<times> string \<times> string \<Rightarrow> kobj option) \<Rightarrow> bool" where
  "same_provider_stored E st V \<longleftrightarrow> (\<forall>t dir k sch c. ChartGroupVersionKind E t dir = Ok k \<longrightarrow>
     GenerateCRD E st sch k = Inr c \<longrightarrow> same_kind_stored E c V \<and> \<not> status_lags E c V)"

text \<open>Looking after certificates leaves the versions and names of CustomResourceDefinitions alone.\<close>

definition guards_crds :: "'s view \<Rightarrow> 's cert_iface \<Rightarrow> bool" where
  "guards_crds view C \<longleftrightarrow>
     (\<forall>g K D. fst K = crdKind \<longrightarrow> keeps view (has_core K D) (ci_ManageCertificates C g)) \<and>
     (\<forall>w. \<exists>b. ci_GetCABundle C w = (Ok b, w))"

lemma certManager_guards:
  assumes "storing_server E view" "keyed_view view" "keeps_core E" "static_files E" "quiet_certs CE view"
  shows "guards_crds view (certManager E CE m)"
  using ManageCertificates_keeps_core [OF assms] by (simp add: guards_crds_def GetCABundle_def)

definition kind_gvr :: "gvk \<Rightarrow> kobj \<Rightarrow> gvr" where
  "kind_gvr k c = \<lparr>gvr_group = gvk_group k, gvr_version = gvk_version k, gvr_resource = crd_plural (crd_of c)\<rparr>"

text \<open>The CRD of the kind is stored, with its version and the generated status schema.\<close>

definition crd_in_place :: "'s env \<Rightarrow> gvk \<Rightarrow> kobj \<Rightarrow> crd_version list \<times> string \<times> string \<Rightarrow> bool" where
  "crd_in_place E k c D \<longleftrightarrow> has_version (gvk_version k) (fst D) \<and>
     (\<forall>o1. crd_core (crd_of o1) = D \<longrightarrow> status_same E (crd_of o1) (crd_of c))"

lemma same_view: "keeps view (\<lambda>V. V = view (w_ext w)) m \<Longrightarrow> m w = (r, w') \<Longrightarrow> view (w_ext w') = view (w_ext w)"
  unfolding keeps_def by (metis snd_conv)

lemma status_same_core: "crd_core c1 = crd_core c2 \<Longrightarrow> status_same E c1 c = status_same E c2 c"
  by (rule status_same_first) (simp add: crd_core_def first_status_def)

lemma kind_gvr_slot:
  "crd_group (crd_of c) = gvk_group k \<Longrightarrow> GroupResource (kind_gvr k c) = crd_gr c"
  by (simp add: GroupResource_def crd_gr_def kind_gvr_def)

text \<open>The upsert, the certificates and the bundle, in the order \<open>Create\<close> and \<open>Update\<close> go through them.\<close>

lemma chart_crd_in_place:
  assumes srv: "storing_server E view" and key: "keyed_view view" and core: "keeps_core E" and fl: "static_files E"
    and gc: "guards_crds view C" and na: "names_agree E st" and start: "same_provider_stored E st (view (w_ext v1))"
    and g: "ChartGroupVersionKind E t dir = Ok g"
    and run: "apply_chart_crd E st C msg t dir g v1 = (Ok (r, c2, sch), v3)"
    and dep: "Deploy E (controller_deploy_options st cr r sch False) v3 = (Ok dig, w1)"
  shows "\<exists>c D. ChartJsonSchema t dir = Inr sch \<and> GenerateCRD E st sch g = Inr c \<and> r = kind_gvr g c \<and>
    crd_in_place E g c D \<and> has_core (crd_slot E (crd_gr c)) D (view (w_ext w1))"
proof -
  have pure: "ci_GetCABundle C u = (Ok b, u') \<Longrightarrow> u' = u" for u b u'
    using gc unfolding guards_crds_def by (metis prod.inject)
  obtain c b v2 where sch: "ChartJsonSchema t dir = Inr sch" and gen: "GenerateCRD E st sch g = Inr c"
    and up: "ApplyOrUpdateCRD E c (cert_apply_opts C b) v1 = (Ok (r, c2), v2)"
    and man: "ci_ManageCertificates C r v2 = (Ok (), v3)"
    using run unfolding apply_chart_crd_def by (auto simp: ok_iffs dest!: pure)
  obtain v where v: "generated_crd E c v" "cv_name v = gvk_version g" "crd_group (crd_of c) = gvk_group g"
    using na g gen unfolding names_agree_def by meson
  have st: "same_kind_stored E c (view (w_ext v1))" "\<not> status_lags E c (view (w_ext v1))"
    using start g gen unfolding same_provider_stored_def by metis+
  from ApplyOrUpdateCRD_ends [OF srv key core v(1) st(1) up] st(2) v obtain o2 where
    r: "r = kind_gvr g c" and o2: "view (w_ext v2) (crd_slot E (crd_gr c)) = Some o2"
      "status_same E (crd_of o2) (crd_of c)" "has_version (gvk_version g) (crd_versions (crd_of o2))"
    by (auto simp: kind_gvr_def)
  let ?K = "crd_slot E (crd_gr c)" and ?D = "crd_core (crd_of o2)"
  have K: "fst ?K = crdKind" by (simp add: crd_slot_def)
  have "has_core ?K ?D (view (w_ext v2))" using o2(1) by (simp add: has_core_def)
  moreover have "keeps view (has_core ?K ?D) (ci_ManageCertificates C r)"
    using gc K unfolding guards_crds_def by blast
  ultimately have "has_core ?K ?D (view (w_ext v3))" using man by (metis keepsD)
  moreover have real: "\<not> do_dryRunServer (controller_deploy_options st cr r sch False)"
    by (simp add: controller_deploy_options_def)
  ultimately have "has_core ?K ?D (view (w_ext w1))"
    using Deploy_keeps_core [OF srv core fl _ K, of "controller_deploy_options st cr r sch False" ?D] dep
    by (metis keepsD)
  moreover have "crd_in_place E g c ?D"
    using o2 status_same_core by (auto simp: crd_in_place_def crd_core_def)
  ultimately show ?thesis using sch gen r by metis
qed

lemma Create_leaves_crd:
  assumes srv: "storing_server E view" and "keyed_view view" and "keeps_core E" and "static_files E"
    and qc: "quiet_calls E view" and "guards_crds view C" and "names_agree E st"
    and start: "same_provider_stored E st (view (w_ext w))"
    and run: "Create E st C (cr, w) = (Ok (), (cr1, w1))"
  shows "\<exists>t dir v1 g sch c v3 dig D. ChartInfoFromSpec E (cd_chart cr) w = (Ok (t, dir), v1) \<and>
    ChartGroupVersionKind E t dir = Ok g \<and> ChartJsonSchema t dir = Inr sch \<and> GenerateCRD E st sch g = Inr c \<and>
    Deploy E (controller_deploy_options st cr (kind_gvr g c) sch False) v3 = (Ok dig, w1) \<and>
    cr1 = set_digest dig cr \<and> crd_in_place E g c D \<and> has_core (crd_slot E (crd_gr c)) D (view (w_ext w1))"
proof -
  obtain t dir v1 g r c2 sch v3 dig where
    ch: "ChartInfoFromSpec E (cd_chart cr) w = (Ok (t, dir), v1)" "ChartGroupVersionKind E t dir = Ok g"
    and up: "apply_chart_crd E st C ''error managing certificates after CRD apply: '' t dir g v1 = (Ok (r, c2, sch), v3)"
    and dep: "Deploy E (controller_deploy_options st cr r sch False) v3 = (Ok dig, w1)" and cr1: "cr1 = set_digest dig cr"
    using run unfolding Create_def by (auto simp: ok_iffs getVar_def setVar_def)
  have "view (w_ext v1) = view (w_ext w)" by (rule same_view [OF keeps_charts(1) [OF qc srv] ch(1)])
  with chart_crd_in_place [OF assms(1-4,6,7) _ ch(2) up dep] start ch dep cr1 show ?thesis by metis
qed

section \<open>What Observe finds\<close>

lemma observe_gvr_same:
  assumes na: "names_agree E st" and g: "ChartGroupVersionKind E t dir = Ok g" and gen: "GenerateCRD E st sch g = Inr c"
    and del: "\<not> cd_deleted cr" and run: "observe_gvr E st cr g sch u = (Ok r, u')"
  shows "r = Some (kind_gvr g c)"
proof -
  have n: "p = crd_plural (crd_of c)" if "fst (env_plural E g s) = Inr p" for s p
    using na g gen that unfolding names_agree_def by meson
  have f: "q = kind_gvr g c" if "GetGVRFromGeneratedCRD E st sch g = Ok q" for q
    using na g gen that unfolding names_agree_def kind_gvr_def by metis
  obtain got u1 where got: "tryP (GVKtoGVR E g) u = (Ok got, u1)"
    and rest: "(case got of Inr g \<Rightarrow> returnP (Some g) | Inl e \<Rightarrow>
         if cd_deleted cr then returnP None
         else if IsNotFound E e
         then thenP (wrapping ''error getting GVR from generated CRD for GVR fallback: ''
                (liftOutcome (GetGVRFromGeneratedCRD E st sch g))) (\<lambda>g. returnP (Some g))
         else failP (Wrap ''error converting GVK to GVR: '' e ('' - GVK: '' @ gvk_String g))) u1 = (Ok r, u')"
    using run by (auto simp: observe_gvr_def thenP_Ok_iff)
  show ?thesis
  proof (cases got)
    case (Inl e)
    with rest del f show ?thesis by (auto simp: ok_iffs split: if_splits)
  next
    case (Inr q)
    with got have "GVKtoGVR E g u = (Ok q, u1)" by (auto simp: tryP_def split: prod.splits outcome.splits)
    then have "q = kind_gvr g c"
      by (auto simp: GVKtoGVR_def ok_iffs plurals_get_def call_apply outcome_of_Ok kind_gvr_def dest!: n)
    with Inr rest show ?thesis by simp
  qed
qed

lemma Observe_after:
  assumes srv: "steady_server E view" and fl: "static_files E" and om: "omits_empty E"
    and qc: "quiet_calls E view" and na: "names_agree E st" and fc: "fixed_charts E"
    and dist: "\<And>g sch v. distinct_bundle E (controller_deploy_options st cr g sch False) v"
    and del: "\<not> cd_deleted cr"
    and ch: "ChartInfoFromSpec E (cd_chart cr) w = (Ok (t, dir), v1)" "ChartGroupVersionKind E t dir = Ok g"
      "ChartJsonSchema t dir = Inr sch" and gen: "GenerateCRD E st sch g = Inr c"
    and dep: "Deploy E (controller_deploy_options st cr (kind_gvr g c) sch False) v3 = (Ok dig, w1)"
    and same: "\<forall>K \<in> bundle_slots E (controller_deploy_options st cr (kind_gvr g c) sch False) w1.
      view (w_ext x) K = view (w_ext w1) K"
    and crd: "crd_in_place E g c D" "has_core (crd_slot E (crd_gr c)) D (view (w_ext x))"
    and cr': "redeployed cr dig cr'" and run: "Observe E st (cr', x) = (Ok ob, s)"
  shows "ob = obs True True"
proof -
  note st = steady_storing [OF srv]
  let ?g = "kind_gvr g c"
  obtain o1 where o1: "view (w_ext x) (crd_slot E (crd_gr c)) = Some o1" "crd_core (crd_of o1) = D"
    using crd(2) by (auto simp: has_core_def)
  have "crd_group (crd_of c) = gvk_group g" using na ch(2) gen unfolding names_agree_def by meson
  note gr = kind_gvr_slot [OF this]
  obtain pkg k sch2 u1 where oc: "observe_chart E cr' x = (Ok (pkg, k, sch2), u1)"
    and rest1: "thenP (besideP (observe_gvr E st cr' k sch2)) (\<lambda>gvr1.
     case gvr1 of
       None \<Rightarrow> returnP (obs False False)
     | Some g \<Rightarrow>
         thenP (besideP (wrapping ''error getting CRD: '' (Get_crd E (GroupResource g)))) (\<lambda>crd1.
         case crd1 of
           None \<Rightarrow> thenP (setVar (SetConditions E (crd_absent g) cr')) (\<lambda>_. returnP (obs False False))
         | Some c1 \<Rightarrow>
             thenP (besideP (wrapping ''error looking up existing CRD version: '' (Lookup_crd E g))) (\<lambda>existVersion.
             if \<not> existVersion
             then thenP (setVar (SetConditions E (crd_absent g) cr')) (\<lambda>_. returnP (obs True False))
             else
               thenP (besideP (wrapping ''error generating CRD: ''
                 (liftSum (GenerateCRD E st sch2 k)))) (\<lambda>genCRD.
               thenP (besideP (wrapping ''error comparing CRD status: ''
                 (liftSum (StatusEqual E (ko_name c1) (crd_of c1) (ko_name genCRD) (crd_of genCRD))))) (\<lambda>statusEqual.
               if \<not> statusEqual then returnP (obs True False)
               else
                 thenP (besideP (wrapping ''error getting compositions: '' (GetCompositions E g))) (\<lambda>ul.
                 observe_bundle E st cr' pkg k sch2 g c1)))))) (cr', u1) = (Ok ob, s)"
    using run unfolding Observe_def by (auto simp: thenP_Ok_iff getVar_def besideP_Ok_iff)
  have c1: "k = g" "sch2 = sch"
    using observe_chart_same [OF fc ch, of x pkg k sch2 u1] oc by (simp_all add: observe_chart_def cr' [unfolded redeployed_def])
  have u1: "view (w_ext u1) = view (w_ext x)" by (rule same_view [OF keeps_charts(3) [OF qc st] oc])
  obtain q u2 where q: "observe_gvr E st cr' g sch u1 = (Ok q, u2)" 
    using rest1 c1 by (auto simp: thenP_Ok_iff besideP_Ok_iff)
  have "\<not> cd_deleted cr'" using del cr' by (simp add: redeployed_def)
  note q' = observe_gvr_same [OF na ch(2) gen this q]
  have u2: "view (w_ext u2) = view (w_ext x)"
    using same_view [OF keeps_lookups(1) [OF qc st] q] u1 by simp
  have stored: "view (w_ext u) (crd_slot E (GroupResource ?g)) = Some o1" if "view (w_ext u) = view (w_ext x)" for u
    using that o1(1) gr by simp
  have eq: "StatusEqual E n1 (crd_of o1) n2 (crd_of c) = Inr True" for n1 n2
    using crd(1) o1(2) by (simp add: crd_in_place_def status_same_StatusEqual)
  obtain u3 where get: "Get_crd E (GroupResource ?g) u2 = (Ok (Some (typed crdKind o1)), u3)" and u3: "view (w_ext u3) = view (w_ext x)"
    using Get_crd_stored [OF st, of "GroupResource ?g" u2] stored [OF u2] u2 by simp
  obtain u4 where look: "Lookup_crd E ?g u3 = (Ok True, u4)"
    using Lookup_crd_stored [OF st stored [OF u3]] crd(1) o1(2)
    by (cases "Lookup_crd E ?g u3") (auto simp: crd_in_place_def crd_core_def kind_gvr_def)
  have u4: "view (w_ext u4) = view (w_ext x)"
    using same_view [OF keeps_lookups(4) [OF qc st] look] u3 by simp
  obtain ul u5 where comps: "GetCompositions E ?g u4 = (Ok ul, u5)"
    and rest: "observe_bundle E st cr' pkg g sch ?g (typed crdKind o1) (cr', u5) = (Ok ob, s)"
    using rest1 unfolding c1 by (auto simp: ok_iffs q q' get look gen eq)
  have "view (w_ext u5) = view (w_ext x)"
    using same_view [OF keeps_lookups(2) [OF qc st] comps] u4 by simp
  then have "\<forall>K \<in> bundle_slots E (controller_deploy_options st cr ?g sch False) w1. view (w_ext u5) K = view (w_ext w1) K"
    using same by simp
  from observe_bundle_after_Deploy [OF srv fl om dist dep this cr', of pkg g "typed crdKind o1" cr'] rest
  show ?thesis by (simp add: finds_no_drift_def)
qed

text \<open>
  C1: The reconciliation after a successful \<open>Create\<close> has nothing to do. On a server that stores what it
  answers and for which applying an object again changes nothing, with charts that do not change and the
  same name of the kind in the generated CRD, in discovery and in the fallback: unless it ends in an error,
  \<open>Observe\<close> reports that the resource exists and is up to date. The CRD has the version and the status
  schema, and neither the digest of the dry run nor the one of what is in the cluster differs from the
  digest in the status; what the certificate manager does in between changes none of that.
\<close>

theorem Create_then_Observe:
  assumes "steady_server E view" and "keyed_view view" and "keeps_core E" and "static_files E" and "omits_empty E"
    and "quiet_calls E view" and "quiet_certs CE view" and "fixed_charts E" and "names_agree E st"
    and "\<And>g sch v. distinct_bundle E (controller_deploy_options st cr g sch False) v"
    and "\<not> cd_deleted cr" and "same_provider_stored E st (view (w_ext w))"
    and "Create E st (certManager E CE m) (cr, w) = (Ok (), (cr1, w1))"
  shows "finds_no_drift (fst (Observe E st (cr1, w1)))"
proof -
  note srv = steady_storing [OF assms(1)]
  obtain t dir v1 g sch c v3 dig D where "ChartInfoFromSpec E (cd_chart cr) w = (Ok (t, dir), v1)"
    "ChartGroupVersionKind E t dir = Ok g" "ChartJsonSchema t dir = Inr sch" "GenerateCRD E st sch g = Inr c"
    "Deploy E (controller_deploy_options st cr (kind_gvr g c) sch False) v3 = (Ok dig, w1)"
    "crd_in_place E g c D" "has_core (crd_slot E (crd_gr c)) D (view (w_ext w1))" and cr1: "cr1 = set_digest dig cr"
    using Create_leaves_crd [OF srv assms(2-4,6) certManager_guards [OF srv assms(2-4,7)] assms(9,12,13)] by metis
  note Observe_after [OF assms(1,4-6,9,8,10,11) this(1-5) ballI [OF refl] this(6,7) redeployed_set_digest]
  then show ?thesis
    using cr1 by (cases "Observe E st (set_digest dig cr, w1)") (auto simp: finds_no_drift_def split: outcome.split)
qed

section \<open>The sample environment\<close>

text \<open>A cluster that collects signing requests at once: every reconciliation renews the certificate.\<close>

definition collecting_cert_env :: "cluster cert_env" where
  "collecting_cert_env = sample_cert_env\<lparr>ce_csr_get := (\<lambda>n c. (Inl not_found, c))\<rparr>"

lemma sample_quiet: "quiet_calls sample_env sample_view" "quiet_certs collecting_cert_env sample_view"
  by (auto simp: quiet_calls_def quiet_certs_def sample_env_def collecting_cert_env_def sample_cert_env_def
      sample_view_def find_obj_def)

lemma sample_fixed: "fixed_charts sample_env"
  by (simp add: fixed_charts_def sample_env_def)

lemma sample_Generate:
  "GenerateCRD sample_env sample_statics sch k = Inr (crd_object (example_crd [example_version (gvk_version k) True True]))"
  "GetGVRFromGeneratedCRD sample_env sample_statics sch k = Ok \<lparr>gvr_group = ''composition.krateo.io'',
     gvr_version = gvk_version k, gvr_resource = ''fireworks''\<rparr>"
  by (simp_all add: GenerateCRD_def GetGVRFromGeneratedCRD_def generateCRD_def Unmarshal_def sample_env_def
      sample_decode_def typed_def crd_object_def sample_statics_def crd_of_def obj_crd_def example_crd_def example_version_def)

lemma sample_kind: "ChartGroupVersionKind sample_env t dir = Ok k \<Longrightarrow> gvk_group k = ''composition.krateo.io''"
  by (auto simp: ChartGroupVersionKind_def gvk_of_fields_def defaultGroup_def assert_string_def
      split: sum.splits outcome.splits option.splits gval.splits)

lemma sample_crd_names:
  "crd_of (crd_object c) = c" "crd_group (example_crd vs) = ''composition.krateo.io''"
  "crd_plural (example_crd vs) = ''fireworks''" "cv_name (example_version n a b) = n"
  "crd_kind (example_crd vs) = ''Fireworks''" "crd_versions (example_crd vs) = vs"
  "fst (env_plural sample_env k s) = Inr ''fireworks''"
  by (simp_all add: crd_of_def obj_crd_def crd_object_def example_crd_def example_version_def sample_env_def)

lemma sample_names_agree: "names_agree sample_env sample_statics"
  unfolding names_agree_def sample_Generate
  using sample_generated by (auto simp: sample_crd_names dest!: sample_kind intro!: exI)

lemma sample_empty_stored:
  "no_crds c \<Longrightarrow> same_provider_stored sample_env sample_statics (sample_view c)"
  by (simp add: same_provider_stored_def same_kind_stored_def status_lags_def sample_view_def no_crds_def
      crd_slot_def split: prod.split)

lemma collecting_calls:
  "csr_create collecting_cert_env = csr_create sample_cert_env" "csr_delete collecting_cert_env = csr_delete sample_cert_env"
  "csr_approve collecting_cert_env = csr_approve sample_cert_env" "csr_wait collecting_cert_env = csr_wait sample_cert_env"
  "csr_certificate collecting_cert_env = csr_certificate sample_cert_env"
  "ce_newPrivateKey collecting_cert_env = ce_newPrivateKey sample_cert_env"
  "ce_newRequest collecting_cert_env = ce_newRequest sample_cert_env"
  "csr_of_request collecting_cert_env = csr_of_request sample_cert_env"
  "ce_encodeKey collecting_cert_env = ce_encodeKey sample_cert_env"
  by (simp_all add: fun_eq_iff cert_call_defs csr_of_request_def collecting_cert_env_def)

lemma collecting_renews:
  "\<exists>w'. CheckOrRegenerateClientCertAndKey sample_env collecting_cert_env o1 w =
     (Ok (False, EncodeToString sample_pem, EncodeToString ''key''), w')"
proof -
  have "GenerateClientCertAndKey sample_env collecting_cert_env o1 = GenerateClientCertAndKey sample_env sample_cert_env o1"
    unfolding GenerateClientCertAndKey_def create_csr_def collecting_calls by (rule refl)
  moreover have "yields (\<lambda>p. p = (EncodeToString sample_pem, EncodeToString ''key'')) (GenerateClientCertAndKey sample_env sample_cert_env o1)"
    by (auto simp: yields_def GenerateClientCertAndKey_def Let_def ok_iffs csr_certificate_def call_apply silently_def
        sample_cert_env_def split: prod.splits)
  moreover obtain w1 where w1: "csr_get collecting_cert_env (go_username o1) w = (Err not_found, w1)"
    by (simp add: csr_get_def call_apply collecting_cert_env_def)
  moreover obtain p w2 where "GenerateClientCertAndKey sample_env sample_cert_env o1 w1 = (Ok p, w2)"
    using always_okD [OF always_ok_Generate_sample] by blast
  ultimately show ?thesis
    by (auto simp: CheckOrRegenerateClientCertAndKey_def prog_defs dest: yieldsD)
qed

lemma posix_collecting: "posix_files collecting_cert_env cl_files"
  by (simp add: posix_files_def collecting_cert_env_def sample_cert_env_def)

lemma sample_pem_valid: "validateCABundleFormat (Some sample_pem) = Inr ()"
  unfolding sample_pem_def by code_simp

lemma collecting_stores:
  "\<exists>w'. UpdateCerts collecting_cert_env (EncodeToString c) (EncodeToString k) ''/certs'' w = (Ok (), w') \<and>
     getCABundle collecting_cert_env ''/certs'' w' = (Ok c, w'\<lparr>w_trace := w_trace w' @ [EvFile (FsRead (Join [''/certs'', ''tls.crt'']))]\<rparr>)"
proof -
  have "fs_mkdirAll collecting_cert_env = fs_mkdirAll sample_cert_env" "fs_create collecting_cert_env = fs_create sample_cert_env"
    "fs_write collecting_cert_env = fs_write sample_cert_env" "fs_remove collecting_cert_env = fs_remove sample_cert_env"
    "fs_rename collecting_cert_env = fs_rename sample_cert_env"
    by (simp_all add: fun_eq_iff cert_call_defs collecting_cert_env_def)
  then have "UpdateCerts collecting_cert_env = UpdateCerts sample_cert_env"
    by (intro ext) (simp only: UpdateCerts_def removing_def)
  moreover obtain x w' where "UpdateCerts sample_cert_env (EncodeToString c) (EncodeToString k) ''/certs'' w = (Ok x, w')"
    using always_okD [OF always_ok_UpdateCerts_sample] by blast
  ultimately have up: "UpdateCerts collecting_cert_env (EncodeToString c) (EncodeToString k) ''/certs'' w = (Ok (), w')" by simp
  have "pair_at cl_files ''/certs'' w' = (Some c, Some k)"
    using tripleD_Ok [OF UpdateCerts_triple [OF posix_collecting] refl up] by simp
  then have "getCABundle collecting_cert_env ''/certs'' w' = (Ok c, w'\<lparr>w_trace := w_trace w' @ [EvFile (FsRead (Join [''/certs'', ''tls.crt'']))]\<rparr>)"
    by (simp add: getCABundle_def fs_read_def call_apply pair_at_def collecting_cert_env_def sample_cert_env_def)
  with up show ?thesis by blast
qed

lemma sample_propagate:
  assumes "sample_view (w_ext w) (crd_slot sample_env (GroupResource g)) = Some o1"
    and "length (crd_versions (crd_of o1)) \<le> 1"
  shows "\<exists>w'. propagateCABundleWithRetry sample_env example_manager (Some sample_pem) g w = (Ok (), w')"
proof -
  have ok: "always_ok (propagate_webhook sample_env example_manager (Some sample_pem))"
    unfolding propagate_webhook_def
    by (intro always_ok_thenP always_ok_onErr always_ok_sample_Create always_ok_Apply_sample always_ok_returnP) simp
  obtain w' where wh: "propagate_webhook sample_env example_manager (Some sample_pem)
      (w\<lparr>w_trace := w_trace w @ [crd_get_event sample_env (GroupResource g)]\<rparr>) = (Ok (), w')"
    using always_okD [OF ok, of "w\<lparr>w_trace := w_trace w @ [crd_get_event sample_env (GroupResource g)]\<rparr>"] by auto
  have "crd_of ((typed crdKind (typed crdKind o1))\<lparr>ko_apiVersion := a\<rparr>) = crd_of o1" for a
    by (simp add: crd_of_def obj_crd_def typed_def)
  then have "propagate_crd sample_env (Some sample_pem) (typed crdKind o1) = returnP ()"
    using assms(2) by (simp add: propagate_crd_def Let_def)
  with wh have "propagateCABundle sample_env example_manager (Some sample_pem) g w = (Ok (), w')"
    using assms(1) by (simp add: propagateCABundle_def ok_iffs Get_crd_stored [OF sample_storing])
  then have "Do (Wait sample_env) (cabundle_retry sample_env)
      (propagateCABundle sample_env example_manager (Some sample_pem) g) w = (Ok (), w')"
    by (rule Do_first_Ok)
  then show ?thesis
    by (simp add: propagateCABundleWithRetry_def ok_iffs sample_pem_valid)
qed

lemma sample_manages:
  assumes "sample_view (w_ext w) (crd_slot sample_env (GroupResource g)) = Some o1"
    and "length (crd_versions (crd_of o1)) \<le> 1"
  shows "\<exists>w'. ManageCertificates sample_env collecting_cert_env example_manager g w = (Ok (), w')"
proof -
  let ?o = "cm_certOpts example_manager"
  obtain w1 where w1: "CheckOrRegenerateClientCertAndKey sample_env collecting_cert_env ?o w =
      (Ok (False, EncodeToString sample_pem, EncodeToString ''key''), w1)"
    using collecting_renews by blast
  obtain w2 w3 where w2: "UpdateCerts collecting_cert_env (EncodeToString sample_pem) (EncodeToString ''key'') ''/certs'' w1 = (Ok (), w2)"
    and w3: "getCABundle collecting_cert_env ''/certs'' w2 = (Ok sample_pem, w3)" and ext: "w_ext w3 = w_ext w2"
    using collecting_stores [of sample_pem "''key''" w1] by auto
  have "sample_view (w_ext w1) = sample_view (w_ext w)" "sample_view (w_ext w2) = sample_view (w_ext w1)"
    by (rule same_view [OF keeps_certificates(1) [OF sample_quiet(2)] w1],
        rule same_view [OF keeps_certificates(2) [OF sample_quiet(2)] w2])
  then have "\<exists>w'. propagateCABundleWithRetry sample_env example_manager (Some sample_pem) g
      (w3\<lparr>w_caBundle := Some sample_pem\<rparr>) = (Ok (), w')"
    using assms ext by (intro sample_propagate) auto
  moreover have "cm_certPath example_manager = ''/certs''" by (simp add: example_manager_def)
  ultimately show ?thesis
    using w1 w2 w3 by (auto simp: ManageCertificates_def ok_iffs whenP_def GetCABundle_def setCABundle_def sample_pem_valid)
qed

abbreviation sample_manager :: "cluster cert_iface" where
  "sample_manager \<equiv> certManager sample_env collecting_cert_env example_manager"

lemma sample_managed_crd:
  assumes "ChartJsonSchema t ''chart'' = Inr ''{}''" and "no_crds (w_ext w)" and "gvk_group k = ''composition.krateo.io''"
  shows "\<exists>r c w'. apply_chart_crd sample_env sample_statics sample_manager msg t ''chart'' k w = (Ok (r, c, ''{}''), w')"
proof -
  let ?crd = "crd_object (example_crd [example_version (gvk_version k) True True])"
  let ?g = "\<lparr>gvr_group = ''composition.krateo.io'', gvr_version = gvk_version k, gvr_resource = ''fireworks''\<rparr>"
  let ?opts = "cert_apply_opts sample_manager (w_caBundle w)"
  have slot: "GroupResource ?g = crd_gr ?crd" by (simp add: GroupResource_def crd_gr_def sample_crd_names)
  have none: "sample_view (w_ext w) (crd_slot sample_env (crd_gr ?crd)) = None"
    using assms(2) by (simp add: sample_view_def no_crds_def crd_slot_def)
  let ?w1 = "w\<lparr>w_trace := w_trace w @ [crd_get_event sample_env (crd_gr ?crd)]\<rparr>"
  obtain c w2 where w2: "Apply sample_env ?crd no_apply_options ?w1 = (Ok c, w2)"
    using always_okD [OF always_ok_Apply_sample] by blast
  obtain w3 where w3: "wait_established sample_env (ko_name c) w2 = (Ok (), w3)"
    using always_okD [OF always_ok_established, of "ko_name c" w2] by auto
  have up: "ApplyOrUpdateCRD sample_env ?crd ?opts w = (Ok (?g, c), w3)"
    using w2 w3 none slot
    by (simp add: ApplyOrUpdateCRD_def sample_crd_names Let_def ok_iffs Get_crd_stored [OF sample_storing])
  obtain o2 where o2: "sample_view (w_ext w3) (crd_slot sample_env (crd_gr ?crd)) = Some o2"
      "crd_core (crd_of o2) = crd_core (crd_of ?crd)"
    using Apply_crd_stores [OF sample_storing sample_core _ _ w3, of ?crd "''''" ?w1] w2
      sample_generated [of "gvk_version k"]
    by (auto simp: onErr_Ok_iff generated_crd_def crd_object_def crdKind_def)
  then have "length (crd_versions (crd_of o2)) \<le> 1"
    by (simp add: crd_core_def sample_crd_names)
  with o2(1) obtain w4 where "ManageCertificates sample_env collecting_cert_env example_manager ?g w3 = (Ok (), w4)"
    using sample_manages [of w3 ?g o2] slot by auto
  with assms(1) up show ?thesis
    by (simp add: apply_chart_crd_def ok_iffs sample_Generate GetCABundle_def)
qed

lemma sample_managed_Create:
  "\<exists>cr1 w1. Create sample_env sample_statics sample_manager (chart_definition, sample_world [] []) = (Ok (), (cr1, w1))"
  by (rule sample_Create_runs, rule sample_managed_crd) simp_all

theorem Create_then_Observe_witness:
  "\<exists>cr1 w1. Create sample_env sample_statics sample_manager (chart_definition, sample_world [] []) = (Ok (), (cr1, w1)) \<and>
     finds_no_drift (fst (Observe sample_env sample_statics (cr1, w1)))"
proof -
  obtain cr1 w1 where run: "Create sample_env sample_statics sample_manager
      (chart_definition, sample_world [] []) = (Ok (), (cr1, w1))"
    using sample_managed_Create by metis
  have chart: "cd_chart chart_definition = Some no_credentials" "\<not> cd_deleted chart_definition"
    by (simp_all add: chart_definition_def example_definition_def example_def_def)
  have "no_crds (w_ext (sample_world [] []))"
    by (simp add: no_crds_def sample_world_def find_obj_def)
  from Create_then_Observe [OF sample_steady sample_keyed sample_core sample_static sample_omits sample_quiet
      sample_fixed sample_names_agree sample_controller_distinct [OF chart(1)] chart(2) sample_empty_stored [OF this] run] run
  show ?thesis by metis
qed

end
