(* ===== verification/Upgrade.thy ===== *)
theory Upgrade
  imports Reconcile
begin

text \<open>
  Moving a definition to another chart: \<open>Update\<close> deploys the new bundle, removes the old one and relabels the
  compositions. What it removes and relabels stays clear of what it deployed, so the next \<open>Observe\<close> finds
  nothing to do.
\<close>

section \<open>A server that touches nothing else\<close>

text \<open>
  Deleting an object leaves the others stored, reading a composition leaves all, and writing one leaves the
  objects of the kinds the operator itself manages.
\<close>

definition tidy_server :: "'s env \<Rightarrow> 's view \<Rightarrow> bool" where
  "tidy_server E view \<longleftrightarrow>
     (\<forall>uo o1 s K. K \<noteq> key_of o1 \<longrightarrow> view (snd (env_delete E uo o1 s)) K = view s K) \<and>
     (\<forall>g ns n s. view (snd (env_dyn_get E g ns n s)) = view s) \<and>
     (\<forall>g ns u s K. fst K \<in> insert crdKind bundle_kinds \<longrightarrow> view (snd (env_dyn_update E g ns u s)) K = view s K)"

definition unchanged :: "(string \<times> string \<times> string) set \<Rightarrow> (string \<times> string \<times> string \<Rightarrow> kobj option) \<Rightarrow>
    (string \<times> string \<times> string \<Rightarrow> kobj option) \<Rightarrow> bool" where
  "unchanged S V0 V \<longleftrightarrow> (\<forall>K \<in> S. V K = V0 K)"

lemma keeps_uninstall_attempt:
  assumes srv: "storing_server E view" and tidy: "tidy_server E view" and K: "key_of o1 \<notin> S"
    and I: "unchanged S V0 (view (w_ext w))"
  shows "key_of (fst (snd (uninstall_attempt E uo (o1, w)))) = key_of o1 \<and>
    unchanged S V0 (view (w_ext (snd (snd (uninstall_attempt E uo (o1, w))))))"
proof -
  obtain e where e: "IsNotFound E e" and g: "k_get E o1 w =
     (outcome_of (case view (w_ext w) (key_of o1) of Some o2 \<Rightarrow> Inr o2 | None \<Rightarrow> Inl e),
      w\<lparr>w_trace := w_trace w @ [EvGet (ko_kind o1) (ko_apiVersion o1) (ko_namespace o1) (ko_name o1)]\<rparr>)"
    using server_get [OF srv] by blast
  have del: "unchanged S V0 (view (snd (env_delete E uo (o1\<lparr>ko_resourceVersion := rv\<rparr>) (w_ext w))))" for rv
  proof -
    have "view (snd (env_delete E uo (o1\<lparr>ko_resourceVersion := rv\<rparr>) (w_ext w))) k = view (w_ext w) k" if "k \<in> S" for k
    proof -
      have "k \<noteq> key_of (o1\<lparr>ko_resourceVersion := rv\<rparr>)" using that K by (auto simp: key_of_def)
      then show ?thesis using tidy unfolding tidy_server_def by blast
    qed
    with I show ?thesis by (simp add: unchanged_def)
  qed
  show ?thesis
  proof (cases "view (w_ext w) (key_of o1)")
    case None
    with e g I show ?thesis by (simp add: uninstall_attempt_def prog_defs)
  next
    case (Some tmp)
    with g I del show ?thesis
      by (cases "fst (env_delete E uo (o1\<lparr>ko_resourceVersion := ko_resourceVersion tmp\<rparr>) (w_ext w))")
        (simp_all add: uninstall_attempt_def prog_defs k_delete_def call_apply Let_def key_of_def)
  qed
qed

lemma keeps_Uninstall:
  assumes srv: "storing_server E view" and tidy: "tidy_server E view" and K: "key_of o1 \<notin> S"
  shows "keeps view (unchanged S V0) (Uninstall E o1 uo)"
  unfolding keeps_def snd_Uninstall
proof (intro allI impI)
  fix w :: "'a world"
  assume I: "unchanged S V0 (view (w_ext w))"
  let ?I = "\<lambda>s. key_of (fst s) = key_of o1 \<and> unchanged S V0 (view (w_ext (snd s)))"
  have "?I (snd (Do (\<lambda>d. besideP (Wait E d)) client_retry (uninstall_attempt E uo) (o1, w)))"
  proof (rule Do_invariant)
    fix s :: "kobj \<times> 'a world"
    assume "?I s"
    then show "?I (snd (uninstall_attempt E uo s))"
      using keeps_uninstall_attempt [OF srv tidy, of "fst s" S V0 "snd s" uo] K by simp
  next
    fix d and s :: "kobj \<times> 'a world"
    assume "?I s"
    then show "?I (snd (besideP (Wait E d) s))"
      using srv by (cases s) (auto simp: besideP_def Wait_def call_apply storing_server_def)
  qed (use I in simp_all)
  then show "unchanged S V0 (view (w_ext (snd (snd (Do (\<lambda>d. besideP (Wait E d)) client_retry (uninstall_attempt E uo) (o1, w))))))"
    by blast
qed

section \<open>Removing a bundle\<close>

text \<open>The objects that removing a bundle asks the server to delete.\<close>

inductive undeployed :: "'s env \<Rightarrow> undeploy_options \<Rightarrow> kobj \<Rightarrow> bool" for E opts where
  rbac: "createRBACResources E (ud_gvr opts) (getCDCrbacNN (bundle_nn (ud_namespace opts) (ud_gvr opts)))
      (ud_rbacFolderPath opts) w = (Ok rb, w') \<Longrightarrow>
    o1 \<in> {rb_sa rb, rb_clusterrole rb, rb_clusterrolebinding rb, rb_role rb, rb_rolebinding rb} \<Longrightarrow> undeployed E opts o1"
| schema: "jsonSchemaConfigmap E (ud_gvr opts) (bundle_nn (ud_namespace opts) (ud_gvr opts))
      (ud_jsonSchemaTemplatePath opts) (ud_jsonSchemaBytes opts) w = (Ok o1, w') \<Longrightarrow> undeployed E opts o1"
| deployment: "controllerDeployment E (ud_gvr opts) (bundle_nn (ud_namespace opts) (ud_gvr opts))
      (ud_deploymentTemplatePath opts) sa w = (Ok o1, w') \<Longrightarrow> undeployed E opts o1"
| configmap: "controllerConfigmap E (ud_gvr opts) (bundle_nn (ud_namespace opts) (ud_gvr opts))
      (ud_configmapTemplatePath opts) sa w = (Ok o1, w') \<Longrightarrow> undeployed E opts o1"
| service: "controllerService E (ud_gvr opts) (bundle_nn (ud_namespace opts) (ud_gvr opts))
      (ud_serviceTemplatePath opts) w = (Ok o1, w') \<Longrightarrow> undeployed E opts o1"
| role: "ud_spec opts = Some ci \<Longrightarrow> ci_credentials ci = Some cred \<Longrightarrow>
    secret_role E (ud_gvr opts) cred (bundle_nn (ud_namespace opts) (ud_gvr opts)) (ud_rbacFolderPath opts) w = (Ok o1, w') \<Longrightarrow>
    undeployed E opts o1"
| binding: "ud_spec opts = Some ci \<Longrightarrow> ci_credentials ci = Some cred \<Longrightarrow>
    secret_rolebinding E (ud_gvr opts) cred (bundle_nn (ud_namespace opts) (ud_gvr opts)) (ud_rbacFolderPath opts) [] w =
      (Ok o1, w') \<Longrightarrow> undeployed E opts o1"

lemma undeployed_of_bundle: "undeployed E opts o1 \<Longrightarrow> of_bundle o1"
proof (induction rule: undeployed.induct)
  case (rbac w rb w' o1)
  then have "rbac_of_bundle rb" using createRBAC_kinds by blast
  with rbac(2) show ?case by (auto simp: rbac_of_bundle_def)
qed (simp_all add: jsonSchemaConfigmap_def controllerDeployment_def controllerConfigmap_def controllerService_def
    secret_role_def secret_rolebinding_def onErr_Ok_iff CreateK8sObject_of_bundle)

lemma keeps_rendered:
  assumes "pure_reader m" and "\<And>w x w'. m w = (Ok x, w') \<Longrightarrow> P x" and "\<And>x. P x \<Longrightarrow> keeps view I (k x)"
  shows "keeps view I (thenP m k)"
  by (rule keeps_thenP_yields [OF quiet_keeps [OF pure_reader_quiet [OF assms(1)]] _ assms(3)])
    (auto simp: yields_def assms(2))

lemma keeps_undeploy_parts:
  assumes srv: "storing_server E view" and tidy: "tidy_server E view" and fl: "static_files E"
    and apart: "\<And>o1. undeployed E opts o1 \<Longrightarrow> key_of o1 \<notin> S"
  shows "keeps view (unchanged S V0) (undeploy_service E opts)" "keeps view (unchanged S V0) (undeploy_secret E opts)"
proof -
  note un = keeps_Uninstall [OF srv tidy apart]
  note files = pure_reader_onErr pure_reader_CreateK8sObject [OF fl]
  show "keeps view (unchanged S V0) (undeploy_service E opts)"
    unfolding undeploy_service_def Let_def
    by (intro keeps_thenP [OF keeps_tryP [OF quiet_keeps [OF pure_reader_quiet [OF pure_reader_files(2) [OF fl]]]]]
        keeps_case_sum keeps_basic keeps_rendered [where P = "undeployed E opts"] un)
      (auto simp: controllerService_def [symmetric] intro: undeployed.service, auto simp: controllerService_def intro: files)
  have secret: "keeps view (unchanged S V0)
     (thenP (secret_role E (ud_gvr opts) cred (bundle_nn (ud_namespace opts) (ud_gvr opts)) (ud_rbacFolderPath opts)) (\<lambda>role.
         thenP (Uninstall E role no_uninstall_options) (\<lambda>_.
         thenP (secret_rolebinding E (ud_gvr opts) cred (bundle_nn (ud_namespace opts) (ud_gvr opts)) (ud_rbacFolderPath opts) []) (\<lambda>rb.
         Uninstall E rb no_uninstall_options))))"
    if "ud_spec opts = Some ci" "ci_credentials ci = Some cred" for ci cred
    by (intro keeps_rendered [where P = "undeployed E opts"] keeps_thenP un)
      (assumption | erule undeployed.role [OF that] undeployed.binding [OF that] |
        simp add: secret_role_def secret_rolebinding_def files)+
  show "keeps view (unchanged S V0) (undeploy_secret E opts)"
    by (cases "ud_spec opts")
      (auto simp: undeploy_secret_def Let_def spec_credentials_def thenP_panicP split: option.split
        intro!: keeps_basic secret)
qed

lemma keeps_Undeploy:
  assumes srv: "storing_server E view" and tidy: "tidy_server E view" and fl: "static_files E"
    and apart: "\<And>o1. undeployed E opts o1 \<Longrightarrow> key_of o1 \<notin> S" and skip: "ud_skipCRD opts"
  shows "keeps view (unchanged S V0) (Undeploy E opts)"
proof -
  note un = keeps_Uninstall [OF srv tidy apart]
  have rb: "keeps view (unchanged S V0) (uninstallRBACResources E rb)"
    if "\<forall>o1 \<in> {rb_sa rb, rb_clusterrole rb, rb_clusterrolebinding rb, rb_role rb, rb_rolebinding rb}. undeployed E opts o1" for rb
    unfolding uninstallRBACResources_def by (intro keeps_thenP un) (use that in auto)
  show ?thesis
    unfolding Undeploy_def Let_def
  proof (rule keeps_rendered [where P = "\<lambda>rb. \<forall>o1 \<in> {rb_sa rb, rb_clusterrole rb, rb_clusterrolebinding rb, rb_role rb,
      rb_rolebinding rb}. undeployed E opts o1"], goal_cases)
    case 1
    then show ?case by (rule pure_reader_createRBAC [OF fl])
  next
    case (2 w x w')
    then show ?case by (blast intro: undeployed.rbac)
  next
    case (3 rb)
    show ?case
      by (intro keeps_rendered [where P = "undeployed E opts"] keeps_thenP un rb [OF 3] keeps_whenP
          keeps_undeploy_parts [OF srv tidy fl apart])
        (auto simp: skip intro: undeployed.schema undeployed.deployment undeployed.configmap,
         auto simp: jsonSchemaConfigmap_def controllerDeployment_def controllerConfigmap_def
           intro: pure_reader_onErr pure_reader_CreateK8sObject [OF fl])
  qed
qed

section \<open>Relabelling the compositions\<close>

lemma keeps_move_compositions:
  assumes srv: "storing_server E view" and tidy: "tidy_server E view" and qc: "quiet_calls E view"
    and S: "fst ` S \<subseteq> insert crdKind bundle_kinds"
  shows "keeps view (unchanged S V0) (move_compositions E cr g)"
proof -
  have get: "keeps view (unchanged S V0) (dyn_get E r ns n)" for r ns n
    unfolding dyn_get_def by (rule keeps_call) (use tidy in \<open>auto simp: tidy_server_def\<close>)
  have put: "keeps view (unchanged S V0) (dyn_update E r ns u)" for r ns u
    unfolding keeps_def
  proof (intro allI impI)
    fix w :: "'a world"
    assume "unchanged S V0 (view (w_ext w))"
    moreover have "view (snd (env_dyn_update E r ns u (w_ext w))) K = view (w_ext w) K" if "K \<in> S" for K
      using tidy S that unfolding tidy_server_def by blast
    ultimately show "unchanged S V0 (view (w_ext (snd (dyn_update E r ns u w))))"
      by (simp add: unchanged_def dyn_update_def call_apply)
  qed
  show ?thesis
    unfolding move_compositions_def UpdateCompositionsVersion_def getCompositionsWithRetry_def GetCompositions_def
      updateCompositionWithRetry_def relabel_attempt_def Let_def
    by (intro keeps_intros keeps_Do [where wait = "Wait E"] get put keeps_calls [OF qc] keeps_server [OF srv]) simp_all
qed

section \<open>Observe after Update\<close>

lemma bundle_slots_kinds: "fst ` bundle_slots E opts w \<subseteq> bundle_kinds"
proof -
  have "ko_kind o1 \<in> bundle_kinds"
    if rb: "bundle_rbac E opts w = (Ok rb, w2)" and it: "it \<in> set (bundle_items E opts rb)" and m: "made it w = Some o1"
    for rb w2 it o1
  proof -
    obtain w3 where "it_make it w = (Ok (Some o1), w3)"
      using m by (cases "it_make it w") (auto simp: made_def split: outcome.splits)
    with yieldsD [OF bundle_items_kinds [OF bundle_rbac_kinds [OF rb] it, unfolded makes_of_bundle_def]]
    show ?thesis by (auto simp: of_bundle_def)
  qed
  then show ?thesis
    by (cases "bundle_rbac E opts w")
      (auto simp: bundle_slots_def made_keys_def key_of_def split: outcome.splits option.splits)
qed

text \<open>
  When the chart gives another kind or version than the one recorded, the objects of the recorded versions
  have other names than the new ones: the templates name them after resource and version.
\<close>

definition bundles_apart :: "'s env \<Rightarrow> statics \<Rightarrow> comp_def \<Rightarrow> bool" where
  "bundles_apart E st cr \<longleftrightarrow> (\<forall>t dir w w' k sch c vi o1 v. ChartInfoFromSpec E (cd_chart cr) w = (Ok (t, dir), w') \<longrightarrow>
     ChartGroupVersionKind E t dir = Ok k \<longrightarrow> k \<noteq> old_gvk E cr \<longrightarrow> GenerateCRD E st sch k = Inr c \<longrightarrow>
     vi \<in> set (versionInfo cr) \<longrightarrow>
     undeployed E (controller_undeploy_options st cr (vd_chart vi) (old_gvr E cr) True) o1 \<longrightarrow>
     key_of o1 \<notin> bundle_slots E (controller_deploy_options st cr (kind_gvr k c) sch False) v)"

lemma set_digest_same [simp]:
  "old_gvk E (set_digest dig cr) = old_gvk E cr" "old_gvr E (set_digest dig cr) = old_gvr E cr"
  "versionInfo (set_digest dig cr) = versionInfo cr"
  "controller_undeploy_options st (set_digest dig cr) c r b = controller_undeploy_options st cr c r b"
  by (simp_all add: set_digest_def old_gvk_def old_gvr_def versionInfo_def controller_undeploy_options_def)

lemma redeployed_refresh:
  "RefreshCompositionDefinitionStatus E (set_digest dig cr) c r k url = Ok cr2 \<Longrightarrow> redeployed cr dig cr2"
  by (auto simp: RefreshCompositionDefinitionStatus_def UpdateVersionInfo_def set_versionInfo_def Let_def set_digest_def
      redeployed_def split: outcome.splits prod.splits)

text \<open>The second half of an update keeps clear of what the first one put in place.\<close>

lemma keeps_finish:
  assumes srv: "storing_server E view" and tidy: "tidy_server E view" and fl: "static_files E" and qc: "quiet_calls E view"
    and S: "fst ` S \<subseteq> insert crdKind bundle_kinds"
    and apart: "\<And>vi o1. k \<noteq> old_gvk E cr \<Longrightarrow> vi \<in> set (versionInfo cr) \<Longrightarrow>
      undeployed E (controller_undeploy_options st cr (vd_chart vi) (old_gvr E cr) True) o1 \<Longrightarrow> key_of o1 \<notin> S"
    and run: "finish_update E st (set_digest dig cr, k, r, c2, pkg) (set_digest dig cr, w) = (Ok (), (cr1, w1))"
  shows "unchanged S (view (w_ext w)) (view (w_ext w1)) \<and> redeployed cr dig cr1"
proof -
  let ?I = "unchanged S (view (w_ext w))" and ?cr = "set_digest dig cr"
  obtain w2 where u: "whenP (old_gvk E ?cr \<noteq> k) (foreachP (versionInfo ?cr) (undeploy_old E st ?cr)) w = (Ok (), w2)"
    and m: "move_compositions E ?cr k w2 = (Ok (), w1)"
    and ref: "RefreshCompositionDefinitionStatus E ?cr (crd_of c2) r k (cf_packageURL pkg) = Ok cr1"
    using run unfolding finish_update_def prod.case by (auto simp: ok_iffs setVar_def)
  have "keeps view ?I (undeploy_old E st ?cr vi)" if "k \<noteq> old_gvk E cr" "vi \<in> set (versionInfo cr)" for vi
    unfolding undeploy_old_def set_digest_same
    by (intro keeps_whenP keeps_onErr keeps_Undeploy [OF srv tidy fl apart [OF that]])
      (auto simp: controller_undeploy_options_def)
  then have "keeps view ?I (whenP (old_gvk E ?cr \<noteq> k) (foreachP (versionInfo ?cr) (undeploy_old E st ?cr)))"
    by (intro keeps_whenP keeps_foreachP) auto
  from keepsD [OF this u] have "?I (view (w_ext w2))" by (simp add: unchanged_def)
  with m keeps_move_compositions [OF srv tidy qc S] have "?I (view (w_ext w1))" by (metis keepsD)
  with redeployed_refresh [OF ref] show ?thesis by simp
qed


section \<open>Moving from 0.9.0 to 1.0.0 in the sample environment\<close>

lemma sample_view_del: "K \<noteq> key_of o1 \<Longrightarrow> sample_view (del_obj o1 c) K = sample_view c K"
proof -
  have f: "find P (filter Q xs) = find P xs" if "\<And>x. P x \<Longrightarrow> Q x" for P Q and xs :: "kobj list"
    using that by (induction xs) auto
  show "K \<noteq> key_of o1 \<Longrightarrow> ?thesis"
    by (auto simp: sample_view_def find_obj_def del_obj_def same_key_def key_of_def prod_eq_iff intro!: f)
qed

lemma sample_tidy: "tidy_server sample_env sample_view"
  unfolding tidy_server_def
  by (auto simp: sample_env_def sample_view_del sample_view_put key_of_def crdKind_def bundle_kinds_def)

definition old_chart :: chart_info where
  "old_chart = no_credentials\<lparr>ci_version := ''0.9.0''\<rparr>"

definition upgraded_definition :: comp_def where
  "upgraded_definition = (let cr = example_def (Some no_credentials) [\<lparr>vd_version = ''v0-9-0'', vd_served = True,
     vd_stored = False, vd_chart = Some old_chart\<rparr>]
     in cr\<lparr>cd_status := (cd_status cr)\<lparr>cs_apiVersion := ''composition.krateo.io/v0-9-0''\<rparr>\<rparr>)"

lemma upgraded_simps:
  "cd_chart upgraded_definition = Some no_credentials" "\<not> cd_deleted upgraded_definition"
  "versionInfo upgraded_definition = [\<lparr>vd_version = ''v0-9-0'', vd_served = True, vd_stored = False, vd_chart = Some old_chart\<rparr>]"
  "mg_kind (cs_managed (cd_status upgraded_definition)) = ''Fireworks''"
  "old_gvk sample_env upgraded_definition = \<lparr>gvk_group = ''composition.krateo.io'', gvk_version = ''v0-9-0'', gvk_kind = ''Fireworks''\<rparr>"
  "gvr_version (old_gvr sample_env upgraded_definition) = ''v0-9-0''"
  by (simp_all add: upgraded_definition_def example_def_def versionInfo_def old_gvk_def old_gvr_def sample_env_def)

text \<open>The bundle's objects are named after the version they are rendered for.\<close>

definition named_for :: "string \<Rightarrow> kobj \<Rightarrow> bool" where
  "named_for v o1 \<longleftrightarrow> (\<exists>p. ko_name o1 = p @ v)"

lemma named_for_sample [simp]: "named_for v (sample_obj k (p @ v))"
  by (simp add: named_for_def)

lemma undeployed_named:
  assumes "undeployed sample_env opts o1" and "ud_spec opts = Some ci" and "ci_credentials ci = None"
  shows "named_for (gvr_version (ud_gvr opts)) o1"
  using assms
proof (induction rule: undeployed.induct)
  case (rbac w rb w' o1)
  then have "named_for (gvr_version (ud_gvr opts)) (rb_sa rb)" "named_for (gvr_version (ud_gvr opts)) (rb_clusterrole rb)"
    "named_for (gvr_version (ud_gvr opts)) (rb_clusterrolebinding rb)" "named_for (gvr_version (ud_gvr opts)) (rb_role rb)"
    "named_for (gvr_version (ud_gvr opts)) (rb_rolebinding rb)"
    by (auto simp: createRBACResources_def thenP_def sa_values_def sample_Create_run crdKind_def)
  with rbac(2) show ?case by auto
qed (auto simp: jsonSchemaConfigmap_def controllerConfigmap_def controllerDeployment_def controllerService_def onErr_def
    sample_Create_run crdKind_def)

lemma bundle_slots_named:
  assumes "do_spec opts = Some no_credentials" and "K \<in> bundle_slots sample_env opts w"
  shows "\<exists>p. snd (snd K) = p @ gvr_version (do_gvr opts)"
  using assms
  by (simp add: bundle_slots_def bundle_rbac_def createRBACResources_def thenP_def sample_Create_run
      crdKind_def sa_values_def made_keys_def made_def bundle_items_def item_defs Let_def
      when_credentials_def spec_credentials_def jsonSchemaConfigmap_def controllerConfigmap_def
      controllerDeployment_def onErr_def stat_file_def call_apply tryP_def)
    (auto simp: sample_env_def key_of_def)

lemma sample_chart_kind:
  assumes "ChartInfoFromSpec sample_env (Some no_credentials) w = (Ok (t, dir), w')"
    and "ChartGroupVersionKind sample_env t dir = Ok k"
  shows "k = \<lparr>gvk_group = ''composition.krateo.io'', gvk_version = ''v1-0-0'', gvk_kind = ''Fireworks''\<rparr>"
proof -
  obtain t2 w2 where c: "ChartInfoFromSpec sample_env (Some no_credentials) w = (Ok (t2, ''chart''), w2)"
    "ChartGroupVersionKind sample_env t2 ''chart'' = Ok \<lparr>gvk_group = ''composition.krateo.io'',
       gvk_version = ''v1-0-0'', gvk_kind = ''Fireworks''\<rparr>"
    using sample_chart by metis
  with assms show ?thesis by simp
qed

lemma sample_apart: "bundles_apart sample_env sample_statics upgraded_definition"
  unfolding bundles_apart_def
proof (intro allI impI)
  fix t dir w w' k sch c o1 v and vi :: version_detail
  let ?old = "controller_undeploy_options sample_statics upgraded_definition (vd_chart vi)
      (old_gvr sample_env upgraded_definition) True"
  let ?new = "controller_deploy_options sample_statics upgraded_definition (kind_gvr k c) sch False"
  assume c: "ChartInfoFromSpec sample_env (cd_chart upgraded_definition) w = (Ok (t, dir), w')"
    "ChartGroupVersionKind sample_env t dir = Ok k"
    and vi: "vi \<in> set (versionInfo upgraded_definition)" and o1: "undeployed sample_env ?old o1"
  have "named_for ''v0-9-0'' o1"
    using undeployed_named [OF o1, of old_chart] vi
    by (simp add: controller_undeploy_options_def upgraded_simps old_chart_def no_credentials_def)
  moreover have "\<exists>p. snd (snd K) = p @ ''v1-0-0''" if "K \<in> bundle_slots sample_env ?new v" for K
    using bundle_slots_named [OF _ that] sample_chart_kind [OF c [unfolded upgraded_simps]]
    by (simp add: controller_deploy_options_def upgraded_simps kind_gvr_def)
  ultimately show "key_of o1 \<notin> bundle_slots sample_env ?new v"
    by (fastforce simp: named_for_def key_of_def)
qed

text \<open>The update runs to its end.\<close>

lemma always_ok_Uninstall_sample: "always_ok (Uninstall sample_env o1 uo)"
  unfolding always_ok_def
proof
  fix w
  have "\<exists>o2 w'. uninstall_attempt sample_env uo (o1, w) = (Ok (), (o2, w'))"
    by (cases "find_obj (ko_kind o1) (ko_namespace o1) (ko_name o1) (w_ext w)")
      (simp_all add: uninstall_attempt_def prog_defs sample_get, simp_all add: k_delete_def call_apply sample_env_def Let_def)
  then obtain o2 w' where "uninstall_attempt sample_env uo (o1, w) = (Ok (), (o2, w'))" by blast
  then have "Do (\<lambda>d. besideP (Wait sample_env d)) client_retry (uninstall_attempt sample_env uo) (o1, w) = (Ok (), (o2, w'))"
    by (rule Do_first_Ok)
  then show "\<exists>x w'. Uninstall sample_env o1 uo w = (Ok x, w')" by (simp add: Uninstall_def)
qed

lemma always_ok_Do: "always_ok m \<Longrightarrow> always_ok (Do wait cfg m)"
  unfolding always_ok_def using Do_first_Ok by metis

lemma always_ok_Uninstall_crd: "always_ok (Uninstall_crd sample_env gr)"
proof -
  have "always_ok (uninstall_crd_attempt sample_env gr)"
    unfolding always_ok_def
  proof
    fix w
    show "\<exists>x w'. uninstall_crd_attempt sample_env gr w = (Ok x, w')"
      by (cases "find_obj crdKind '''' (env_gr_string sample_env gr) (w_ext w)")
        (simp_all add: uninstall_crd_attempt_def prog_defs sample_get, simp add: k_delete_def call_apply sample_env_def)
  qed
  then show ?thesis unfolding Uninstall_crd_def by (rule always_ok_Do)
qed

lemma always_ok_Undeploy:
  assumes "ud_spec opts = Some ci" and "ci_credentials ci = None"
  shows "always_ok (Undeploy sample_env opts)"
  unfolding Undeploy_def Let_def createRBACResources_def jsonSchemaConfigmap_def controllerConfigmap_def
    controllerDeployment_def undeploy_service_def controllerService_def undeploy_secret_def
    uninstallRBACResources_def sa_values_def
  using assms by (simp add: spec_credentials_def del: returnP_apply)
    (intro always_ok_intros always_ok_sample always_ok_tryP always_ok_Uninstall_sample always_ok_Uninstall_crd;
      simp add: crdKind_def stat_file_def call_no_panic)

lemma sample_labels:
  "\<exists>m. env_nested_labels sample_env u = Inr m" "\<exists>u2. env_set_labels sample_env m u = Inr u2"
  by (cases "ko_body u") (simp_all add: sample_env_def split: gval.split)

lemma always_ok_relabel: "always_ok (relabel_attempt sample_env g ns n v)"
  unfolding always_ok_def
proof
  fix w :: "cluster world"
  have put: "always_ok (thenP (tryP (dyn_update sample_env g ns u)) (\<lambda>r. case r of Inl e \<Rightarrow> k e | Inr _ \<Rightarrow> returnP ()))"
    for u and k :: "err \<Rightarrow> (cluster world, unit) prog"
    by (simp add: always_ok_def thenP_def tryP_def dyn_update_def call_apply) (simp add: sample_env_def)
  have set: "always_ok (liftSum (env_set_labels sample_env m u))" for m u
    using sample_labels(2) [of m u] by (metis always_ok_liftSum)
  have get: "always_ok (liftSum (env_nested_labels sample_env u))" for u
    using sample_labels(1) [of u] by (metis always_ok_liftSum)
  let ?w = "w\<lparr>w_trace := w_trace w @ [EvDynGet g ns n]\<rparr>"
  have read: "tryP (dyn_get sample_env g ns n) w =
      (Ok (case find_obj ''Fireworks'' ns n (w_ext w) of Some u \<Rightarrow> Inr u | None \<Rightarrow> Inl not_found), ?w)"
    by (simp add: tryP_def dyn_get_def call_apply sample_env_def split: option.split)
  show "\<exists>x w'. relabel_attempt sample_env g ns n v w = (Ok x, w')"
  proof (cases "find_obj ''Fireworks'' ns n (w_ext w)")
    case None
    with read show ?thesis by (simp add: relabel_attempt_def thenP_Ok)
  next
    case (Some u)
    show ?thesis
      unfolding relabel_attempt_def thenP_def [of "tryP (dyn_get sample_env g ns n)"] read Some option.case
        prod.case outcome.case sum.case Let_def
      by (intro always_okD always_ok_thenP always_ok_onErr get set put)
        (auto intro!: always_ok_returnP always_ok_thenP always_ok_onErr set put simp del: returnP_apply)
  qed
qed

lemma always_ok_move: "always_ok (move_compositions sample_env cr g)"
proof -
  have "always_ok (liftSum (env_label_selector sample_env l v))" for l v
    by (rule always_ok_liftSum) (simp add: sample_env_def)
  then show ?thesis
    unfolding move_compositions_def UpdateCompositionsVersion_def getCompositionsWithRetry_def GetCompositions_def
      updateCompositionWithRetry_def
    by (intro always_ok_whenP always_ok_onErr always_ok_thenP always_ok_Do always_ok_sample always_ok_relabel)
      (auto intro!: always_ok_returnP always_ok_foreachP always_ok_onErr always_ok_Do always_ok_relabel simp del: returnP_apply)
qed

lemma update_details_Ok: "cd_chart cr \<noteq> None \<Longrightarrow> \<exists>vis2. update_details cr g vs vis = Ok vis2"
proof (induction vs arbitrary: vis)
  case (Cons v vs)
  then obtain c where c: "cd_chart cr = Some c" by blast
  then have "\<exists>d. new_detail cr v g = Ok d" by (simp add: new_detail_def)
  then have "\<exists>vis1. update_detail cr g v vis = Ok vis1"
    by (auto simp: update_detail_def split: option.split)
  then obtain vis1 where "update_detail cr g v vis = Ok vis1" by blast
  with Cons show ?case by simp
qed simp

lemma sample_finish:
  assumes "cd_chart cr \<noteq> None"
    and "\<And>vi. vi \<in> set (versionInfo cr) \<Longrightarrow> \<exists>c. vd_chart vi = Some c \<and> ci_credentials c = None"
  shows "\<exists>cr1 w1. finish_update sample_env st (cr, k, r, c2, pkg) (cr, w) = (Ok (), (cr1, w1))"
proof -
  have "always_ok (undeploy_old sample_env st cr vi)" if vi: "vi \<in> set (versionInfo cr)" for vi
  proof -
    from assms(2) [OF vi] obtain c where "vd_chart vi = Some c" "ci_credentials c = None" by blast
    then show ?thesis
      unfolding undeploy_old_def
      by (intro always_ok_whenP always_ok_onErr always_ok_Undeploy) (simp_all add: controller_undeploy_options_def)
  qed
  then have "always_ok (whenP (old_gvk sample_env cr \<noteq> k) (foreachP (versionInfo cr) (undeploy_old sample_env st cr)))"
    by (intro always_ok_whenP always_ok_foreachP)
  from always_okD [OF this, of w] obtain x w2 where
    u: "whenP (old_gvk sample_env cr \<noteq> k) (foreachP (versionInfo cr) (undeploy_old sample_env st cr)) w = (Ok x, w2)"
    by metis
  obtain y w3 where m: "move_compositions sample_env cr k w2 = (Ok y, w3)"
    using always_okD [OF always_ok_move, of cr k w2] by metis
  obtain vis where "update_details cr r (crd_versions (crd_of c2)) (versionInfo cr) = Ok vis"
    using update_details_Ok [OF assms(1)] by blast
  then obtain cr1 where ref: "RefreshCompositionDefinitionStatus sample_env cr (crd_of c2) r k (cf_packageURL pkg) = Ok cr1"
    by (cases "env_to_api_version sample_env k")
      (simp add: RefreshCompositionDefinitionStatus_def UpdateVersionInfo_def Let_def)
  have "finish_update sample_env st (cr, k, r, c2, pkg) (cr, w) = (Ok (), (cr1, w3))"
    unfolding finish_update_def prod.case thenP_def besideP_def snd_conv u fst_conv outcome.case m
    by (simp add: ref onErr_def liftOutcome_def setVar_def)
  then show ?thesis by blast
qed

lemma sample_ForSpec: "\<exists>f w'. ForSpec sample_env (Some no_credentials) w = (Ok f, w') \<and> w_ext w' = w_ext w"
proof -
  obtain t where t: "New sample_env ''1.0.0'' = Inr t" using sample_tar by metis
  moreover have "t = tar_load empty_tarfs (sample_headers ''1.0.0'')"
    using t by (simp add: New_def sample_env_def sample_headers_def)
  moreover have "(let t = tar_load empty_tarfs (sample_headers ''1.0.0'') in
      map (\<lambda>e. de_isDir (tf_nodes t ! e)) (tf_rootEntries t)) = [True]" by code_simp
  ultimately have "\<exists>e. tf_rootEntries t = [e] \<and> de_isDir (tf_nodes t ! e)"
    by (auto simp: Let_def)
  with t obtain f where f: "FromReader sample_env (Inr ''1.0.0'') ''oci://charts/fireworks'' = Inr f"
    by (auto simp: FromReader_def ReadDir_def Let_def)
  let ?q = "\<lparr>cq_url = ''oci://charts/fireworks'', cq_repo = '''', cq_version = ''1.0.0'', cq_insecure = False,
    cq_credentials = None\<rparr>"
  have "get_chart sample_env ?q w = (Ok (Some (Inr ''1.0.0''), ''oci://charts/fireworks''),
      w\<lparr>w_trace := w_trace w @ [EvGetChart ?q]\<rparr>)"
    by (simp add: get_chart_def call_apply) (simp add: sample_env_def)
  with f show ?thesis
    by (simp add: ForSpec_def chart_options_def no_credentials_def thenP_def liftSum_def)
qed

definition old_world :: "cluster world" where
  "old_world = sample_world [sample_obj ''Deployment'' (CDCtemplateDeploymentPath sample_statics @ ''v0-9-0'')] []"

lemma old_world_no_crds: "no_crds (w_ext old_world)"
  by (simp add: no_crds_def old_world_def sample_world_def find_obj_def crdKind_def)

lemma sample_Update_runs:
  "\<exists>cr1 w1. Update sample_env sample_statics sample_manager (upgraded_definition, old_world) = (Ok (), (cr1, w1))"
proof -
  let ?k = "\<lparr>gvk_group = ''composition.krateo.io'', gvk_version = ''v1-0-0'', gvk_kind = ''Fireworks''\<rparr>"
  obtain t w1 where c: "ChartInfoFromSpec sample_env (Some no_credentials) old_world = (Ok (t, ''chart''), w1)"
    "w_ext w1 = w_ext old_world" "ChartGroupVersionKind sample_env t ''chart'' = Ok ?k" "ChartJsonSchema t ''chart'' = Inr ''{}''"
    using sample_chart by metis
  obtain f w2 where f: "ForSpec sample_env (Some no_credentials) w1 = (Ok f, w2)" "w_ext w2 = w_ext w1"
    using sample_ForSpec by blast
  obtain r c2 w3 where a: "apply_chart_crd sample_env sample_statics sample_manager ''error managing certificates after CRD update: ''
      t ''chart'' ?k w2 = (Ok (r, c2, ''{}''), w3)"
    using sample_managed_crd [OF c(4), of w2 ?k "''error managing certificates after CRD update: ''"] c(2) f(2)
      old_world_no_crds by auto
  have "do_spec (controller_deploy_options sample_statics upgraded_definition r ''{}'' False) = Some no_credentials"
    by (simp add: controller_deploy_options_def upgraded_simps)
  then obtain dig w4 where d: "Deploy sample_env (controller_deploy_options sample_statics upgraded_definition r ''{}'' False) w3 = (Ok dig, w4)"
    using always_okD [OF always_ok_Deploy] by metis
  have "cd_chart (set_digest dig upgraded_definition) \<noteq> None" by (simp add: set_digest_def upgraded_simps)
  from sample_finish [OF this, of sample_statics ?k r c2 f w4] obtain cr1 w5 where
    "finish_update sample_env sample_statics (set_digest dig upgraded_definition, ?k, r, c2, f) (set_digest dig upgraded_definition, w4)
      = (Ok (), (cr1, w5))"
    by (auto simp: upgraded_simps old_chart_def no_credentials_def)
  with c f a d show ?thesis
    unfolding Update_parts deploy_new_def by (auto simp: ok_iffs getVar_def setVar_def upgraded_simps)
qed


end
