(* ===== verification/Removal.thy ===== *)
theory Removal
  imports Upgrade
begin

text \<open>
  Deleting a definition whose kind another definition shares keeps the CustomResourceDefinition, and what
  \<open>Observe\<close> reports afterwards.
\<close>

section \<open>Delete leaves the CRD of a shared kind stored\<close>

lemma keeps_getters:
  assumes "quiet_calls E view"
  shows "keeps view I (GetCompositionDefinitionsWithVersion E g)" "keeps view I (GetCompositionDefinitions E gk)"
    "keeps view I (GetCompositions E r)" "keeps view I (GVKtoGVR E g)"
  unfolding GetCompositionDefinitionsWithVersion_def GetCompositionDefinitions_def GetCompositions_def GVKtoGVR_def
  by (intro keeps_intros keeps_calls [OF assms])+

lemma keeps_delete_compositions:
  assumes srv: "storing_server E view" and tidy: "tidy_server E view" and qc: "quiet_calls E view"
    and comps: "no_crd_compositions E r" and S: "fst ` S \<subseteq> {crdKind}"
  shows "keeps view (unchanged S V0) (delete_compositions E r)"
proof -
  have un: "keeps view (unchanged S V0) (Uninstall E u no_uninstall_options)"
    if "u \<in> set us" "\<exists>sel s. fst (env_dyn_list E r sel s) = Inr us" for u us
  proof (rule keeps_Uninstall [OF srv tidy])
    have "ko_kind u \<noteq> crdKind" using comps that by (auto simp: no_crd_compositions_def)
    then show "key_of u \<notin> S" using S by (force simp: key_of_def)
  qed
  show ?thesis
    unfolding delete_compositions_def
    by (rule keeps_thenP_yields [OF keeps_onErr [OF keeps_getters(3) [OF qc]] yields_GetCompositions])
      (auto intro!: keeps_intros keeps_getters [OF qc] intro: un simp del: returnP_apply)
qed

lemma keeps_delete_existing:
  assumes srv: "storing_server E view" and tidy: "tidy_server E view" and fl: "static_files E" and qc: "quiet_calls E view"
    and shared: "shared_kind E g" and comps: "no_crd_compositions E r" and S: "fst ` S \<subseteq> {crdKind}"
  shows "keeps view (unchanged S V0) (delete_existing E st cr g r)"
proof -
  have un: "keeps view (unchanged S V0) (Undeploy E (controller_undeploy_options st cr c r True))" for c
  proof (rule keeps_Undeploy [OF srv tidy fl])
    fix o1
    assume "undeployed E (controller_undeploy_options st cr c r True) o1"
    then have "ko_kind o1 \<noteq> crdKind" by (rule of_bundle_not_crd [OF undeployed_of_bundle])
    then show "key_of o1 \<notin> S" using S by (force simp: key_of_def)
  qed (simp add: controller_undeploy_options_def)
  have last: "keeps view (unchanged S V0) (let skipCRD = (if length l > 1 then True else False) in
      onErr f (Undeploy E (controller_undeploy_options st cr (cd_chart cr) r skipCRD)))"
    if "\<exists>s cds. fst (env_list_defs E s) = Inr cds \<and> l = defs_of_kind E g cds" for l f
    using that shared by (auto simp: shared_kind_def intro!: keeps_onErr un)
  show ?thesis
    unfolding delete_existing_def
    by (intro keeps_thenP [OF keeps_onErr [OF keeps_getters(1) [OF qc]]]
        keeps_thenP [OF keeps_whenP [OF keeps_delete_compositions [OF srv tidy qc comps S]]]
        keeps_thenP_yields [OF keeps_onErr [OF keeps_getters(2) [OF qc]] yields_definitions(2)] last)
qed

text \<open>The part of \<open>Delete\<close> that works on the world.\<close>

definition delete_world :: "'s env \<Rightarrow> statics \<Rightarrow> comp_def \<Rightarrow> ('s world, unit) prog" where
  "delete_world E st cr =
     thenP (wrapping ''error getting chart info: '' (ChartInfoFromSpec E (cd_chart cr))) (\<lambda>(pkg, dir).
     thenP (wrapping ''error getting chart GVK: '' (liftOutcome (ChartGroupVersionKind E pkg dir))) (\<lambda>g.
     thenP (tryP (GVKtoGVR E g)) (\<lambda>got.
     case got of
       Inl e \<Rightarrow>
         if IsNotFound E e then returnP ()
         else failP (Wrap ''error converting GVK to GVR: '' e ('' - GVK: '' @ gvk_String g))
     | Inr r \<Rightarrow> delete_existing E st cr g r)))"

lemma besideP_thenP: "besideP (thenP m k) = thenP (besideP m) (\<lambda>x. besideP (k x))"
  by (auto simp: besideP_def thenP_def fun_eq_iff split: prod.split outcome.split)

lemma besideP_basic: "besideP (returnP x) = returnP x" "besideP (failP e) = failP e"
  by (auto simp: besideP_def returnP_def failP_def)

lemma Delete_parts:
  "Delete E st (cr, w) = besideP (delete_world E st (SetConditions E Deleting cr)) (SetConditions E Deleting cr, w)"
proof -
  have split: "besideP (case p of (a, b) \<Rightarrow> f a b) = (case p of (a, b) \<Rightarrow> besideP (f a b))" for p and f :: "tarfs \<Rightarrow> string \<Rightarrow> ('a world, unit) prog"
    by (cases p) simp
  have sum: "besideP (case r of Inl e \<Rightarrow> f e | Inr x \<Rightarrow> g x) = (case r of Inl e \<Rightarrow> besideP (f e) | Inr x \<Rightarrow> besideP (g x))"
    for r :: "err + gvr" and f and g :: "gvr \<Rightarrow> ('a world, unit) prog"
    by (cases r) simp_all
  have cond: "besideP (if b then m else n) = (if b then besideP m else besideP n)" for b and m n :: "('a world, unit) prog"
    by simp
  show ?thesis
    unfolding delete_world_def besideP_thenP split sum cond besideP_basic
    by (simp add: Delete_def Let_def getVar_def setVar_def thenP_Ok)
qed

definition of_kind :: "'s env \<Rightarrow> comp_def \<Rightarrow> gvk \<Rightarrow> bool" where
  "of_kind E cr k \<longleftrightarrow> (\<forall>w t dir w' k2. ChartInfoFromSpec E (cd_chart cr) w = (Ok (t, dir), w') \<longrightarrow>
     ChartGroupVersionKind E t dir = Ok k2 \<longrightarrow> k2 = k)"

lemma Delete_keeps_shared:
  assumes srv: "storing_server E view" and tidy: "tidy_server E view" and fl: "static_files E" and qc: "quiet_calls E view"
    and shared: "shared_kind E k" and comps: "\<And>r. no_crd_compositions E r" and kind: "of_kind E cr k"
    and K: "fst K = crdKind" and run: "Delete E st (cr, w) = (r, (cr2, w2))"
  shows "view (w_ext w2) K = view (w_ext w) K \<and> cr2 = SetConditions E Deleting cr"
proof -
  let ?cr = "SetConditions E Deleting cr" and ?I = "unchanged {K} (view (w_ext w))"
  have S: "fst ` {K} \<subseteq> {crdKind}" using K by simp
  have chart: "yields (\<lambda>(t, dir). \<forall>k2. ChartGroupVersionKind E t dir = Ok k2 \<longrightarrow> k2 = k)
      (wrapping m (ChartInfoFromSpec E (cd_chart ?cr)))" for m
    using kind by (auto simp: yields_def of_kind_def SetConditions_def ok_iffs)
  have "keeps view ?I (delete_world E st ?cr)"
    unfolding delete_world_def
  proof (rule keeps_thenP_yields [OF keeps_onErr [OF keeps_charts(1) [OF qc srv]] chart], goal_cases)
    case (1 x)
    obtain t dir where x: "x = (t, dir)" by fastforce
    have k: "yields (\<lambda>g. g = k) (wrapping m (liftOutcome (ChartGroupVersionKind E t dir)))" for m
      using 1 x by (auto simp: yields_def ok_iffs)
    show ?case
      unfolding x prod.case
      by (rule keeps_thenP_yields [OF keeps_onErr [OF keeps_basic(5)] k])
        (auto intro!: keeps_intros keeps_getters [OF qc] keeps_delete_existing [OF srv tidy fl qc shared comps S])
  qed
  moreover obtain w3 where "delete_world E st ?cr w = (r, w3)" "w2 = w3" "cr2 = ?cr"
    using run unfolding Delete_parts by (auto simp: besideP_def split: prod.splits)
  ultimately show ?thesis using keepsD [of view ?I "delete_world E st ?cr" w r w3] by (simp add: unchanged_def)
qed

section \<open>Observe while the CRD is stored\<close>

text \<open>Discovery knows the plural name of a kind whose CRD is stored.\<close>

definition discovered :: "'s env \<Rightarrow> 's view \<Rightarrow> gvk \<Rightarrow> string \<Rightarrow> bool" where
  "discovered E view k p \<longleftrightarrow> (\<forall>s. view s (crd_slot E \<lparr>gr_group = gvk_group k, gr_resource = p\<rparr>) \<noteq> None \<longrightarrow>
     fst (env_plural E k s) = Inr p)"

lemma observe_chart_kind:
  assumes fc: "fixed_charts E" and kind: "of_kind E cr k" and run: "observe_chart E cr w = (Ok (pkg, k2, sch), w')"
  shows "k2 = k"
proof -
  obtain t dir v1 v2 where c: "ChartInfoFromSpec E (cd_chart cr) w = (Ok (t, dir), v1)"
    and f: "ForSpec E (cd_chart cr) v1 = (Ok pkg, v2)" and k: "GroupVersionKind E pkg = Ok k2"
    using run by (auto simp: observe_chart_def ok_iffs)
  have "ChartGroupVersionKind E t dir = Ok k2"
    using k chart_determined(2) [OF fc c f] by (simp add: GroupVersionKind_def ChartGroupVersionKind_def)
  with kind c show ?thesis unfolding of_kind_def by blast
qed

lemma observe_gvr_discovered:
  assumes "discovered E view k p" and "view (w_ext w) (crd_slot E \<lparr>gr_group = gvk_group k, gr_resource = p\<rparr>) \<noteq> None"
  shows "\<exists>w'. observe_gvr E st cr k sch w =
    (Ok (Some \<lparr>gvr_group = gvk_group k, gvr_version = gvk_version k, gvr_resource = p\<rparr>), w')"
proof -
  have "fst (env_plural E k (w_ext w)) = Inr p" using assms unfolding discovered_def by blast
  then show ?thesis
    by (simp add: observe_gvr_def GVKtoGVR_def plurals_get_def thenP_def tryP_def call_apply)
qed

lemma yields_exists: "yields ob_exists (observe_bundle E st cr pkg k sch g c1)"
  by (auto simp: yields_def observe_bundle_def Let_def ok_iffs obs_def returnP_Ok_iff split: if_splits simp del: returnP_apply)

lemma Observe_exists:
  assumes srv: "storing_server E view" and qc: "quiet_calls E view" and fc: "fixed_charts E" and kind: "of_kind E cr k"
    and disc: "discovered E view k p"
    and stored: "view (w_ext w) (crd_slot E \<lparr>gr_group = gvk_group k, gr_resource = p\<rparr>) = Some o1"
    and run: "Observe E st (cr, w) = (Ok ob, s)"
  shows "ob_exists ob"
proof -
  let ?g = "\<lparr>gvr_group = gvk_group k, gvr_version = gvk_version k, gvr_resource = p\<rparr>"
  have gr: "GroupResource ?g = \<lparr>gr_group = gvk_group k, gr_resource = p\<rparr>" by (simp add: GroupResource_def)
  obtain pkg k2 sch u1 where oc: "observe_chart E cr w = (Ok (pkg, k2, sch), u1)"
    using run unfolding Observe_def by (auto simp: thenP_Ok_iff getVar_def besideP_Ok_iff)
  have k2: "k2 = k" by (rule observe_chart_kind [OF fc kind oc])
  have u1: "view (w_ext u1) = view (w_ext w)" by (rule same_view [OF keeps_charts(3) [OF qc srv] oc])
  obtain u2 where og: "observe_gvr E st cr k sch u1 = (Ok (Some ?g), u2)"
    using observe_gvr_discovered [OF disc, of u1 st cr sch] stored u1 by auto
  have u2: "view (w_ext u2) = view (w_ext w)" using same_view [OF keeps_lookups(1) [OF qc srv] og] u1 by simp
  obtain u3 where get: "Get_crd E (GroupResource ?g) u2 = (Ok (Some (typed crdKind o1)), u3)"
    using Get_crd_stored [OF srv, of "GroupResource ?g" u2] stored u2 gr by simp
  from run oc og get show ?thesis
    unfolding Observe_def k2
    by (auto simp: ok_iffs getVar_def obs_def returnP_Ok_iff dest: yieldsD [OF yields_exists] split: if_splits
        simp del: returnP_apply)
qed

definition reports_exists :: "observation outcome \<Rightarrow> bool" where
  "reports_exists r = (case r of Ok ob \<Rightarrow> ob_exists ob | _ \<Rightarrow> True)"

text \<open>
  C4: Deleting a definition whose kind another one shares never makes it go away. Whatever \<open>Delete\<close> removed
  and however it ended, the CustomResourceDefinition is still stored, so the next \<open>Observe\<close> either ends in an
  error or reports that the resource exists: while every listing shows another definition of the kind, a
  runtime that waits for the resource to be gone deletes it again and again. Two definitions of one kind that
  are deleted together keep the CustomResourceDefinition for each other.
\<close>

theorem Delete_shared_stays:
  assumes "storing_server E view" and "tidy_server E view" and "static_files E" and "quiet_calls E view" and "fixed_charts E"
    and "of_kind E cr k" and "discovered E view k p" and "shared_kind E k" and "\<And>r. no_crd_compositions E r"
    and "view (w_ext w) (crd_slot E \<lparr>gr_group = gvk_group k, gr_resource = p\<rparr>) = Some c"
    and "Delete E st (cr, w) = (r, (cr2, w2))"
  shows "reports_exists (fst (Observe E st (cr2, w2))) \<and> view (w_ext w2) (crd_slot E \<lparr>gr_group = gvk_group k, gr_resource = p\<rparr>) = Some c"
proof -
  let ?K = "crd_slot E \<lparr>gr_group = gvk_group k, gr_resource = p\<rparr>"
  have "fst ?K = crdKind" by (simp add: crd_slot_def)
  note del = Delete_keeps_shared [OF assms(1-4,8,9,6) this assms(11)]
  have "of_kind E cr2 k" using assms(6) del by (simp add: of_kind_def SetConditions_def)
  note ex = Observe_exists [OF assms(1,4,5) this assms(7)]
  have "view (w_ext w2) ?K = Some c" using del assms(10) by simp
  with ex [OF this] show ?thesis
    by (cases "Observe E st (cr2, w2)") (auto simp: reports_exists_def split: outcome.split)
qed

section \<open>The last definition of a kind\<close>

text \<open>A deletion that succeeds, or finds nothing to delete, leaves nothing stored.\<close>

definition removing_server :: "'s env \<Rightarrow> 's view \<Rightarrow> bool" where
  "removing_server E view \<longleftrightarrow> (\<forall>uo o1 s. uo_dryRun uo = [] \<longrightarrow>
     (case fst (env_delete E uo o1 s) of Inl e \<Rightarrow> IsNotFound E e | Inr _ \<Rightarrow> True) \<longrightarrow>
     view (snd (env_delete E uo o1 s)) (key_of o1) = None)"

definition sole_kind :: "'s env \<Rightarrow> gvk \<Rightarrow> bool" where
  "sole_kind E k \<longleftrightarrow> (\<forall>s cds. fst (env_list_defs E s) = Inr cds \<longrightarrow> length (defs_of_kind E k cds) \<le> 1)"

definition reports_gone :: "observation outcome \<Rightarrow> bool" where
  "reports_gone r = (case r of Ok ob \<Rightarrow> ob = obs False False | _ \<Rightarrow> True)"

lemma Uninstall_crd_removes:
  assumes srv: "storing_server E view" and key: "keyed_view view" and rem: "removing_server E view"
    and run: "Uninstall_crd E gr w = (Ok (), w')"
  shows "view (w_ext w') (crd_slot E gr) = None"
proof -
  obtain v where v: "uninstall_crd_attempt E gr v = (Ok (), w')"
    using Do_Ok_inv [where I = "\<lambda>_. True", OF run [unfolded Uninstall_crd_def]] by auto
  have slot: "key_of (crd_key E gr) = crd_slot E gr" by (simp add: key_of_def crd_slot_def)
  obtain e where e: "IsNotFound E e" and g: "k_get E (crd_key E gr) v =
     (outcome_of (case view (w_ext v) (crd_slot E gr) of Some o2 \<Rightarrow> Inr o2 | None \<Rightarrow> Inl e),
      v\<lparr>w_trace := w_trace v @ [EvGet (ko_kind (crd_key E gr)) (ko_apiVersion (crd_key E gr)) (ko_namespace (crd_key E gr))
        (ko_name (crd_key E gr))]\<rparr>)"
    using server_get [OF srv, of "crd_key E gr" v] unfolding slot by blast
  show ?thesis
  proof (cases "view (w_ext v) (crd_slot E gr)")
    case None
    with v g e show ?thesis by (auto simp: uninstall_crd_attempt_def prog_defs)
  next
    case (Some c)
    let ?r = "env_delete E no_uninstall_options (typed crdKind c) (w_ext v)"
    have "key_of c = crd_slot E gr" using key Some unfolding keyed_view_def by blast
    then have k: "key_of (typed crdKind c) = crd_slot E gr" by (auto simp: key_of_def typed_def crd_slot_def)
    have "w_ext w' = snd ?r \<and> (case fst ?r of Inl e \<Rightarrow> IsNotFound E e | Inr _ \<Rightarrow> True)"
      using v g Some by (cases "fst ?r") (auto simp: uninstall_crd_attempt_def prog_defs k_delete_def call_apply split: if_splits)
    moreover have "uo_dryRun no_uninstall_options = []" by (simp add: no_uninstall_options_def)
    ultimately show ?thesis using rem k unfolding removing_server_def by metis
  qed
qed

lemma Undeploy_last:
  assumes "Undeploy E opts w = (Ok (), w')" and "\<not> ud_skipCRD opts"
  shows "\<exists>v. Uninstall_crd E (GroupResource (ud_gvr opts)) v = (Ok (), w')"
  using assms by (auto simp: Undeploy_def Let_def thenP_Ok_iff whenP_def)

lemma delete_existing_last:
  assumes sole: "sole_kind E k" and run: "delete_existing E st cr k r w = (Ok (), w')"
  shows "\<exists>v. Uninstall_crd E (GroupResource r) v = (Ok (), w')"
proof -
  obtain l v1 v2 where l: "wrapping ''error getting CompositionDefinitions: ''
      (GetCompositionDefinitions E \<lparr>gk_group = gvk_group k, gk_kind = gvk_kind k\<rparr>) v1 = (Ok l, v2)"
    and u: "(let skipCRD = (if length l > 1 then True else False) in
      onErr (\<lambda>e. if errors_is e CompositionStillExist then waiting_for_compositions
                 else Wrap ''error undeploying CompositionDefinition: '' e '''')
        (Undeploy E (controller_undeploy_options st cr (cd_chart cr) r skipCRD))) v2 = (Ok (), w')"
    using run by (auto simp: delete_existing_def thenP_Ok_iff)
  have "\<not> 1 < length l" using yieldsD [OF yields_definitions(2) l] sole by (fastforce simp: sole_kind_def)
  with u have "Undeploy E (controller_undeploy_options st cr (cd_chart cr) r False) v2 = (Ok (), w')"
    by (simp add: onErr_Ok_iff)
  from Undeploy_last [OF this] show ?thesis by (simp add: controller_undeploy_options_def)
qed

text \<open>The name discovery gives the kind, when it gives one.\<close>

definition plural_of :: "'s env \<Rightarrow> gvk \<Rightarrow> string \<Rightarrow> bool" where
  "plural_of E k p \<longleftrightarrow> (\<forall>s q. fst (env_plural E k s) = Inr q \<longrightarrow> q = p)"

lemma GVKtoGVR_plural:
  assumes "plural_of E k p" and "GVKtoGVR E k w = (Ok g, w')"
  shows "g = \<lparr>gvr_group = gvk_group k, gvr_version = gvk_version k, gvr_resource = p\<rparr>"
  using assms by (auto simp: plural_of_def GVKtoGVR_def plurals_get_def thenP_Ok_iff call_apply outcome_of_Ok)

lemma Delete_removes:
  assumes srv: "storing_server E view" and key: "keyed_view view" and rem: "removing_server E view" and qc: "quiet_calls E view"
    and kind: "of_kind E cr k" and disc: "discovered E view k p" and pl: "plural_of E k p" and sole: "sole_kind E k"
    and run: "Delete E st (cr, w) = (Ok (), (cr2, w2))"
  shows "view (w_ext w2) (crd_slot E \<lparr>gr_group = gvk_group k, gr_resource = p\<rparr>) = None \<and> cr2 = SetConditions E Deleting cr"
proof -
  let ?cr = "SetConditions E Deleting cr" and ?K = "crd_slot E \<lparr>gr_group = gvk_group k, gr_resource = p\<rparr>"
  have "delete_world E st ?cr w = (Ok (), w2)" and cr2: "cr2 = ?cr"
    using run unfolding Delete_parts by (auto simp: besideP_def split: prod.splits)
  then obtain t dir v1 k2 got v2 where c: "ChartInfoFromSpec E (cd_chart ?cr) w = (Ok (t, dir), v1)"
    and k2: "ChartGroupVersionKind E t dir = Ok k2" and got: "tryP (GVKtoGVR E k2) v1 = (Ok got, v2)"
    and rest: "(case got of
       Inl e \<Rightarrow>
         if IsNotFound E e then returnP ()
         else failP (Wrap ''error converting GVK to GVR: '' e ('' - GVK: '' @ gvk_String k2))
     | Inr r \<Rightarrow> delete_existing E st ?cr k2 r) v2 = (Ok (), w2)"
    unfolding delete_world_def by (auto simp: thenP_Ok_iff onErr_Ok_iff liftOutcome_Ok_iff)
  have same: "cd_chart ?cr = cd_chart cr" by (simp add: SetConditions_def)
  have k: "k2 = k" using kind c [unfolded same] k2 unfolding of_kind_def by blast
  show ?thesis
  proof (cases got)
    case (Inl e)
    then have w2: "w2 = v2" using rest by (auto split: if_splits)
    have "fst (env_plural E k (w_ext v1)) \<noteq> Inr p"
      using got Inl by (auto simp: k tryP_def GVKtoGVR_def plurals_get_def thenP_def call_apply split: sum.splits)
    then have "view (w_ext v1) ?K = None" using disc unfolding discovered_def by blast
    moreover have "view (w_ext v2) = view (w_ext v1)"
      by (rule same_view [OF keeps_tryP [OF keeps_getters(4) [OF qc]] got])
    ultimately show ?thesis using w2 cr2 by simp
  next
    case (Inr r)
    then have "GVKtoGVR E k v1 = (Ok r, v2)" using got by (auto simp: k tryP_def split: prod.splits outcome.splits)
    from GVKtoGVR_plural [OF pl this] have r: "GroupResource r = \<lparr>gr_group = gvk_group k, gr_resource = p\<rparr>"
      by (simp add: GroupResource_def)
    from rest Inr obtain v where "Uninstall_crd E (GroupResource r) v = (Ok (), w2)"
      using delete_existing_last [OF sole, of st ?cr r v2 w2] k by auto
    from Uninstall_crd_removes [OF srv key rem this] show ?thesis using r cr2 by simp
  qed
qed

lemma Observe_gone:
  assumes srv: "storing_server E view" and qc: "quiet_calls E view" and fc: "fixed_charts E" and kind: "of_kind E cr k"
    and pl: "plural_of E k p" and del: "cd_deleted cr"
    and none: "view (w_ext w) (crd_slot E \<lparr>gr_group = gvk_group k, gr_resource = p\<rparr>) = None"
    and run: "Observe E st (cr, w) = (Ok ob, s)"
  shows "ob = obs False False"
proof -
  obtain pkg k2 sch u1 q u2 where oc: "observe_chart E cr w = (Ok (pkg, k2, sch), u1)"
    and og: "observe_gvr E st cr k2 sch u1 = (Ok q, u2)"
    using run unfolding Observe_def by (auto simp: thenP_Ok_iff getVar_def besideP_Ok_iff)
  have k2: "k2 = k" by (rule observe_chart_kind [OF fc kind oc])
  have q: "q = None \<or> q = Some \<lparr>gvr_group = gvk_group k, gvr_version = gvk_version k, gvr_resource = p\<rparr>"
  proof -
    obtain got v where got: "tryP (GVKtoGVR E k) u1 = (Ok got, v)"
      using og by (auto simp: k2 observe_gvr_def thenP_Ok_iff)
    then show ?thesis
      using og del GVKtoGVR_plural [OF pl, of u1 _ v]
      by (cases got) (auto simp: k2 observe_gvr_def thenP_def tryP_def split: prod.splits outcome.splits)
  qed
  have "view (w_ext u1) = view (w_ext w)" by (rule same_view [OF keeps_charts(3) [OF qc srv] oc])
  then have "view (w_ext u2) = view (w_ext w)"
    using same_view [OF keeps_lookups(1) [OF qc srv] og] by simp
  then have get: "\<exists>u3. Get_crd E \<lparr>gr_group = gvk_group k, gr_resource = p\<rparr> u2 = (Ok None, u3)"
    using Get_crd_stored [OF srv, of "\<lparr>gr_group = gvk_group k, gr_resource = p\<rparr>" u2] none by simp
  show ?thesis
  proof (cases q)
    case None
    with run oc og show ?thesis
      unfolding Observe_def by (auto simp: ok_iffs getVar_def)
  next
    case (Some g)
    with q get have "\<exists>u3. Get_crd E (GroupResource g) u2 = (Ok None, u3)" by (auto simp: GroupResource_def)
    with run oc og Some show ?thesis
      unfolding Observe_def by (auto simp: ok_iffs getVar_def)
  qed
qed


section \<open>Two definitions of one kind\<close>

lemma listing_env_fields:
  "env_get_chart (listing_env ds us) = env_get_chart sample_env" "env_get_secret (listing_env ds us) = env_get_secret sample_env"
  "env_errors (listing_env ds us) = env_errors sample_env" "env_wait (listing_env ds us) = env_wait sample_env"
  "env_untar (listing_env ds us) = env_untar sample_env" "env_yaml_fields (listing_env ds us) = env_yaml_fields sample_env"
  "env_pascalize (listing_env ds us) = env_pascalize sample_env" "env_get (listing_env ds us) = env_get sample_env"
  "env_create (listing_env ds us) = env_create sample_env" "env_update (listing_env ds us) = env_update sample_env"
  "env_patch (listing_env ds us) = env_patch sample_env" "env_watch (listing_env ds us) = env_watch sample_env"
  "env_read_file (listing_env ds us) = env_read_file sample_env" "env_stat (listing_env ds us) = env_stat sample_env"
  "env_delete (listing_env ds us) = env_delete sample_env" "env_dyn_get (listing_env ds us) = env_dyn_get sample_env"
  "env_dyn_update (listing_env ds us) = env_dyn_update sample_env" "env_plural (listing_env ds us) = env_plural sample_env"
  "env_gr_string (listing_env ds us) = env_gr_string sample_env" "env_render (listing_env ds us) = env_render sample_env"
  "env_decode (listing_env ds us) = env_decode sample_env"
  by (simp_all add: listing_env_def)

lemma listing_env_retryable: "isRetryableChartError (listing_env ds us) = isRetryableChartError sample_env"
  by (rule ext) (simp add: isRetryableChartError_def isNonRetryableChartError_def listing_env_fields)

lemma listing_env_calls:
  "ChartInfoFromSpec (listing_env ds us) nfo = ChartInfoFromSpec sample_env nfo"
  "ChartGroupVersionKind (listing_env ds us) t dir = ChartGroupVersionKind sample_env t dir"
  "storing_server (listing_env ds us) view = storing_server sample_env view"
  "tidy_server (listing_env ds us) view = tidy_server sample_env view"
  "removing_server (listing_env ds us) view = removing_server sample_env view"
  "static_files (listing_env ds us) = static_files sample_env" "fixed_charts (listing_env ds us) = fixed_charts sample_env"
  unfolding removing_server_def ChartInfoFromSpec_def chart_options_def GetSecret_def chartBytesFromSpecWithRetry_def chart_retry_def
    fetch_attempt_def get_chart_def get_secret_def Wait_def ChartGroupVersionKind_def storing_server_def tidy_server_def
    static_files_def fixed_charts_def ChartInfoFromBytes_def New_def gvk_of_fields_def listing_env_fields
    listing_env_retryable
  by (rule refl)+

lemma listing_env_quiet: "quiet_calls (listing_env ds us) sample_view"
  using sample_quiet(1) by (simp add: quiet_calls_def listing_env_fields) (simp add: listing_env_def)

lemma listing_env_slot: "crd_slot (listing_env ds us) gr = crd_slot sample_env gr"
  by (simp add: crd_slot_def listing_env_fields)

theorem Delete_shared_stays_witness:
  "\<exists>r cr2 w2. Delete (listing_env [chart_definition, chart_definition] []) sample_statics
       (chart_definition, sample_world [crd_object (example_crd [example_version ''v1-0-0'' True True])] []) = (r, (cr2, w2)) \<and>
     reports_exists (fst (Observe (listing_env [chart_definition, chart_definition] []) sample_statics (cr2, w2))) \<and>
     sample_view (w_ext w2) (crdKind, '''', ''fireworks.composition.krateo.io'') =
       Some (crd_object (example_crd [example_version ''v1-0-0'' True True]))"
proof -
  let ?E = "listing_env [chart_definition, chart_definition] []"
  let ?c = "crd_object (example_crd [example_version ''v1-0-0'' True True])"
  obtain r cr2 w2 where run: "Delete ?E sample_statics (chart_definition, sample_world [?c] []) = (r, (cr2, w2))"
    by (metis prod.exhaust)
  have slot: "crd_slot ?E \<lparr>gr_group = gvk_group fireworks_gvk, gr_resource = ''fireworks''\<rparr> =
      (crdKind, '''', ''fireworks.composition.krateo.io'')"
    by (simp add: crd_slot_def listing_env_fields sample_env_def fireworks_gvk_def)
  have kind: "of_kind ?E chart_definition fireworks_gvk"
    using sample_chart_kind by (auto simp: of_kind_def listing_env_calls chart_definition_def fireworks_gvk_def)
  have disc: "discovered ?E sample_view fireworks_gvk ''fireworks''"
    by (simp add: discovered_def listing_env_fields sample_crd_names)
  have shared: "shared_kind ?E fireworks_gvk"
    by (simp add: shared_kind_def defs_of_kind_def def_gvk_def listing_env_def sample_env_def fireworks_gvk_def
        chart_definition_def example_definition_def example_def_def)
  have comps: "no_crd_compositions ?E g" for g
    by (simp add: no_crd_compositions_def listing_env_def)
  have "sample_view (w_ext (sample_world [?c] [])) (crd_slot ?E \<lparr>gr_group = gvk_group fireworks_gvk, gr_resource = ''fireworks''\<rparr>) = Some ?c"
    unfolding slot by (simp add: sample_view_def sample_world_def find_obj_def crd_object_def crdKind_def)
  from Delete_shared_stays [OF _ _ _ listing_env_quiet _ kind disc shared comps this run] run show ?thesis
    unfolding listing_env_calls slot using sample_storing sample_tidy sample_static sample_fixed by metis
qed

text \<open>A single definition, with nothing left of its compositions.\<close>

lemma listing_env_Undeploy: "Undeploy (listing_env ds us) opts = Undeploy sample_env opts"
  unfolding Undeploy_def createRBACResources_def jsonSchemaConfigmap_def controllerConfigmap_def controllerDeployment_def
    controllerService_def undeploy_service_def undeploy_secret_def secret_role_def secret_rolebinding_def
    uninstallRBACResources_def CreateK8sObject_def Uninstall_def uninstall_attempt_def Uninstall_crd_def
    uninstall_crd_attempt_def crd_key_def Wait_def k_get_def k_delete_def read_file_def stat_file_def listing_env_fields
  by (rule refl)

definition deleted_definition :: comp_def where
  "deleted_definition = chart_definition\<lparr>cd_deleted := True\<rparr>"

lemma deleted_simps:
  "cd_chart deleted_definition = Some no_credentials" "cd_deleted deleted_definition"
  by (simp_all add: deleted_definition_def chart_definition_def)

abbreviation sole_env :: "cluster env" where
  "sole_env \<equiv> listing_env [deleted_definition] []"

lemma sole_env_Delete_runs: "\<exists>cr2 w2. Delete sole_env sample_statics (deleted_definition, w) = (Ok (), (cr2, w2))"
proof -
  let ?cr = "SetConditions sole_env Deleting deleted_definition"
  have chart: "cd_chart ?cr = Some no_credentials" by (simp add: SetConditions_def deleted_simps)
  obtain t w1 where c: "ChartInfoFromSpec sample_env (Some no_credentials) w = (Ok (t, ''chart''), w1)"
    "ChartGroupVersionKind sample_env t ''chart'' = Ok fireworks_gvk"
    using sample_chart unfolding fireworks_gvk_def by metis
  let ?w = "w1\<lparr>w_trace := w_trace w1 @ [EvPlural fireworks_gvk]\<rparr>"
  have g: "tryP (GVKtoGVR sole_env fireworks_gvk) w1 = (Ok (Inr fireworks_gvr), ?w)"
    by (simp add: tryP_def GVKtoGVR_def plurals_get_def thenP_def call_apply listing_env_fields sample_env_def
        fireworks_gvk_def fireworks_gvr_def)
  have "always_ok (delete_existing sole_env sample_statics ?cr fireworks_gvk fireworks_gvr)"
  proof -
    have defs: "always_ok (GetCompositionDefinitionsWithVersion sole_env k)" "always_ok (GetCompositionDefinitions sole_env gk)"
      for k gk
      by (simp_all add: always_ok_def GetCompositionDefinitionsWithVersion_def GetCompositionDefinitions_def list_defs_def
          thenP_def onErr_def call_apply) (simp_all add: listing_env_def)
    have "always_ok (delete_compositions sole_env fireworks_gvr)"
      by (simp add: always_ok_def delete_compositions_def GetCompositions_def dyn_list_def thenP_def onErr_def liftSum_def
          call_apply) (simp add: listing_env_def sample_env_def)
    moreover have "always_ok (Undeploy sole_env (controller_undeploy_options sample_statics ?cr (cd_chart ?cr) r b))" for r b
      unfolding listing_env_Undeploy
      by (rule always_ok_Undeploy [where ci = no_credentials]) (simp_all add: controller_undeploy_options_def chart)
    ultimately show ?thesis
      unfolding delete_existing_def Let_def
      by (intro always_ok_thenP always_ok_onErr always_ok_whenP defs)
  qed
  from always_okD [OF this, of ?w] obtain w2 where
    "delete_existing sole_env sample_statics ?cr fireworks_gvk fireworks_gvr ?w = (Ok (), w2)" by auto
  with c g have "delete_world sole_env sample_statics ?cr w = (Ok (), w2)"
    by (simp add: delete_world_def chart listing_env_calls thenP_def onErr_def liftOutcome_def)
  then show ?thesis unfolding Delete_parts by (simp add: besideP_def)
qed


end
