(* ===== verification/Startup.thy ===== *)
theory Startup
  imports Operator
begin

text \<open>
  \<open>main.go\<close> and \<open>Setup\<close> of \<open>compositiondefinitions.go\<close>: checking the flags, creating the certificate manager
  and its first certificate, cleaning up and propagating the bundle, then handing over to the manager of
  controller-runtime. Telemetry, configuration, client and manager construction are third-party calls and
  stay parameters; an error here ends the process with exit code 1.
\<close>

section \<open>Flags\<close>

record flags =
  fl_pollInterval :: int
  fl_tlsCertificateDuration :: int
  fl_tlsCertificateLeaseExpirationMargin :: int
  fl_certificateSyncInterval :: int
  fl_webhookServiceName :: string
  fl_webhookServiceNamespace :: string

text \<open>The defaults, when no environment variable is set.\<close>

definition default_flags :: flags where
  "default_flags = \<lparr>fl_pollInterval = 3 * minute, fl_tlsCertificateDuration = 24 * hour,
     fl_tlsCertificateLeaseExpirationMargin = 16 * hour, fl_certificateSyncInterval = 5 * minute,
     fl_webhookServiceName = ''core-provider-webhook-service'',
     fl_webhookServiceNamespace = ''krateo-system''\<rparr>"

text \<open>The product of durations wraps.\<close>

definition check_flags :: "flags \<Rightarrow> err + unit" where
  "check_flags fl =
     (if fl_tlsCertificateDuration fl < minute * 10
      then Inl (Plain ''The TLS certificate duration must be at least 10 minutes.'')
      else if fl_tlsCertificateDuration fl < wrap64 (3 * fl_pollInterval fl)
      then Inl (Plain ''The TLS certificate duration must be at least 3 times the poll interval.'')
      else if fl_tlsCertificateLeaseExpirationMargin fl > fl_tlsCertificateDuration fl
      then Inl (Plain ''The TLS certificate lease expiration margin must be less than the TLS certificate duration.'')
      else Inr ())"

section \<open>Setting up\<close>

record 's main_env =
  me_telemetry :: "'s \<Rightarrow> (err + unit) \<times> 's"
  me_webhookMetrics :: "'s \<Rightarrow> (err + unit) \<times> 's"
  me_getConfig :: "'s \<Rightarrow> (err + unit) \<times> 's"
  me_newManager :: "'s \<Rightarrow> (err + unit) \<times> 's"
  me_addToScheme :: "'s \<Rightarrow> (err + unit) \<times> 's"
  me_eventRecorder :: "'s \<Rightarrow> (err + unit) \<times> 's"
  me_newClientset :: "'s \<Rightarrow> (err + unit) \<times> 's"
  me_newDynamic :: "'s \<Rightarrow> (err + unit) \<times> 's"
  me_addRunnable :: "int \<Rightarrow> 's \<Rightarrow> (err + unit) \<times> 's"
  me_register :: "'s \<Rightarrow> (err + unit) \<times> 's"
  me_start :: "'s \<Rightarrow> (err + unit) \<times> 's"
  me_KebabCase :: "string \<Rightarrow> string"
  me_UpperSnakeCase :: "string \<Rightarrow> string"

text \<open>\<open>NewForConfigOrDie\<close>.\<close>

definition or_die :: "('w, unit) prog \<Rightarrow> ('w, unit) prog" where
  "or_die m = thenP (tryP m) (\<lambda>r. case r of Inl e \<Rightarrow> panicP (err_msg e) | Inr _ \<Rightarrow> returnP ())"

text \<open>
  \<open>Setup\<close>: a failed cleanup is logged only; the certificate reconciler is handed to the manager with its
  interval, the controller and the two webhooks are registered.
\<close>

definition Setup :: "'s main_env \<Rightarrow> 's env \<Rightarrow> 's cert_iface \<Rightarrow> int \<Rightarrow> ('s world, unit) prog" where
  "Setup ME E C certificateSyncInterval =
     thenP (wrapping ''error creating event recorder: '' (silently (me_eventRecorder ME))) (\<lambda>_.
     thenP (wrapping ''error creating event recorder: '' (silently (me_eventRecorder ME))) (\<lambda>_.
     thenP (tryP (cleanupObsoleteFinalizerLabels E)) (\<lambda>_.
     thenP (or_die (silently (me_newClientset ME))) (\<lambda>_.
     thenP (or_die (silently (me_newDynamic ME))) (\<lambda>_.
     thenP (wrapping ''error updating existing resources with CA bundle during setup: ''
       (ci_UpdateExistingResources C)) (\<lambda>_.
     thenP (wrapping ''error adding certificate reconciler to manager: ''
       (silently (me_addRunnable ME (NewCertificateReconciler certificateSyncInterval)))) (\<lambda>_.
     silently (me_register ME))))))))"

definition MutatingWebhookPath :: "statics \<Rightarrow> string" where
  "MutatingWebhookPath st = Join [st_tempDir st, ''assets/mutating-webhook-configuration/mutating-webhook.yaml'']"

definition CertsPath :: "statics \<Rightarrow> string" where
  "CertsPath st = Join [st_tempDir st, ''k8s-webhook-server'', ''serving-certs'']"

text \<open>
  \<open>options.go\<close>: the optional settings of the certificate manager. The pluralizer and the log function are values
  of the types \<open>'p\<close> and \<open>'l\<close> that are only handed on; \<open>defaultOptions\<close> gets those it would construct.
\<close>

record ('p, 'l) manager_options =
  op_path :: string
  op_pluralizer :: 'p
  op_log :: 'l

type_synonym ('p, 'l) func_option = "('p, 'l) manager_options \<Rightarrow> ('p, 'l) manager_options"

definition defaultOptions :: "statics \<Rightarrow> 'p \<Rightarrow> 'l \<Rightarrow> ('p, 'l) manager_options" where
  "defaultOptions st plural nolog = \<lparr>op_path = Join [st_tempDir st, ''k8s-webhook-server'', ''serving-certs''],
     op_pluralizer = plural, op_log = nolog\<rparr>"

definition WithCertPath :: "string \<Rightarrow> ('p, 'l) func_option" where
  "WithCertPath path o1 = o1\<lparr>op_path := path\<rparr>"

definition WithPluralizer :: "'p \<Rightarrow> ('p, 'l) func_option" where
  "WithPluralizer p o1 = o1\<lparr>op_pluralizer := p\<rparr>"

definition WithLogger :: "'l \<Rightarrow> ('p, 'l) func_option" where
  "WithLogger l o1 = o1\<lparr>op_log := l\<rparr>"

definition apply_func_options :: "('p, 'l) func_option list \<Rightarrow> ('p, 'l) manager_options \<Rightarrow> ('p, 'l) manager_options" where
  "apply_func_options fns o1 = foldl (\<lambda>o2 fn. fn o2) o1 fns"

text \<open>The last path given counts; the other options do not touch it.\<close>

lemma apply_func_options_path:
  "op_path (apply_func_options (fns @ [WithCertPath p]) o1) = p"
  "op_path (apply_func_options (fns @ [WithPluralizer q]) o1) = op_path (apply_func_options fns o1)"
  "op_path (apply_func_options (fns @ [WithLogger l]) o1) = op_path (apply_func_options fns o1)"
  by (simp_all add: apply_func_options_def WithCertPath_def WithPluralizer_def WithLogger_def)

text \<open>\<open>main\<close> gives no options.\<close>

definition main_options :: "statics \<Rightarrow> (unit, unit) manager_options" where
  "main_options st = apply_func_options [] (defaultOptions st () ())"

definition main_certOpts :: "'s main_env \<Rightarrow> flags \<Rightarrow> cert_opts" where
  "main_certOpts ME fl = \<lparr>go_duration = fl_tlsCertificateDuration fl,
     go_leaseExpirationMargin = fl_tlsCertificateLeaseExpirationMargin fl,
     go_username = fl_webhookServiceName fl @ ''.'' @ fl_webhookServiceNamespace fl @ ''.svc'',
     go_approver = me_KebabCase ME (me_UpperSnakeCase ME ''Core'' @ ''_PROVIDER'')\<rparr>"

definition main_managerOpts :: "'s main_env \<Rightarrow> statics \<Rightarrow> flags \<Rightarrow> manager_opts" where
  "main_managerOpts ME st fl = \<lparr>mo_webhookServiceName = fl_webhookServiceName fl,
     mo_webhookServiceNamespace = fl_webhookServiceNamespace fl,
     mo_mutatingWebhookTemplatePath = MutatingWebhookPath st, mo_certOpts = main_certOpts ME fl,
     mo_hasRestConfig = True\<rparr>"

definition main_run ::
  "'s main_env \<Rightarrow> 's env \<Rightarrow> 's cert_env \<Rightarrow> statics \<Rightarrow> flags \<Rightarrow> ('s world, unit) prog" where
  "main_run ME E CE st fl =
     thenP (liftSum (check_flags fl)) (\<lambda>_.
     thenP (silently (me_telemetry ME)) (\<lambda>_.
     thenP (silently (me_webhookMetrics ME)) (\<lambda>_.
     thenP (silently (me_getConfig ME)) (\<lambda>_.
     thenP (NewCertManager E CE (main_managerOpts ME st fl) (op_path (main_options st))) (\<lambda>m.
     thenP (RefreshCertificates E CE m) (\<lambda>_.
     thenP (silently (me_newManager ME)) (\<lambda>_.
     thenP (silently (me_addToScheme ME)) (\<lambda>_.
     thenP (Setup ME E (certManager E CE m) (fl_certificateSyncInterval fl)) (\<lambda>_.
     silently (me_start ME))))))))))"

section \<open>What is accepted\<close>

lemma check_flags_iff:
  "check_flags fl = Inr () \<longleftrightarrow>
     10 * minute \<le> fl_tlsCertificateDuration fl \<and>
     wrap64 (3 * fl_pollInterval fl) \<le> fl_tlsCertificateDuration fl \<and>
     fl_tlsCertificateLeaseExpirationMargin fl \<le> fl_tlsCertificateDuration fl"
  by (auto simp: check_flags_def)

text \<open>
  C38: When margin and sync interval together fit into the lifetime of the certificate, a request that one
  sync of the reconciler takes to be good is still within that lifetime at the next sync, so the
  certificate is renewed before it ends. The flags' own check does not ask for this.
\<close>

theorem good_until_next_sync:
  assumes "fl_tlsCertificateLeaseExpirationMargin fl + NewCertificateReconciler (fl_certificateSyncInterval fl)
      \<le> fl_tlsCertificateDuration fl"
    and "0 \<le> fl_tlsCertificateLeaseExpirationMargin fl" and "fl_tlsCertificateLeaseExpirationMargin fl < 2 ^ 63"
    and "csr_created c \<le> t1" and "t1 - csr_created c < 2 ^ 63"
    and "\<not> Expired c (fl_tlsCertificateLeaseExpirationMargin fl) t1"
    and "t2 - t1 \<le> NewCertificateReconciler (fl_certificateSyncInterval fl)"
  shows "t2 - csr_created c \<le> fl_tlsCertificateDuration fl"
  using assms Expired_iff [OF assms(4,5,2,3)] by linarith

theorem good_until_next_sync_witness:
  "check_flags default_flags = Inr () \<and>
   (16 * hour + 5 * minute) - csr_created \<lparr>csr_name = ''n'', csr_created = 0, csr_request = ''''\<rparr>
     \<le> fl_tlsCertificateDuration default_flags"
proof
  show "check_flags default_flags = Inr ()"
    by (simp add: check_flags_def default_flags_def wrap64_def duration_defs)
  show "(16 * hour + 5 * minute) - csr_created \<lparr>csr_name = ''n'', csr_created = 0, csr_request = ''''\<rparr>
     \<le> fl_tlsCertificateDuration default_flags"
    by (rule good_until_next_sync [of default_flags _ "16 * hour"])
      (simp_all add: default_flags_def NewCertificateReconciler_def default_syncInterval_def Expired_def
        since_def wrap64_def duration_defs)
qed

text \<open>
  With a margin equal to the lifetime the request is still taken to be good at the moment the certificate
  ends; with the defaults it is renewed at sixteen hours of age, eight hours before the end.
\<close>

lemma margin_examples:
  "check_flags (default_flags\<lparr>fl_tlsCertificateLeaseExpirationMargin := 24 * hour\<rparr>) = Inr ()"
  "check_flags default_flags = Inr ()"
  "\<not> Expired (c\<lparr>csr_created := 0\<rparr>) (24 * hour) (24 * hour)"
  "Expired (c\<lparr>csr_created := 0\<rparr>) (16 * hour) (16 * hour + 1)"
  "\<not> Expired (c\<lparr>csr_created := 0\<rparr>) (16 * hour) (16 * hour)"
  by (simp_all add: check_flags_def default_flags_def Expired_def since_def wrap64_def duration_defs)

section \<open>What starting does\<close>

lemma emits_or_die: "emits w_trace A m \<Longrightarrow> emits w_trace A (or_die m)"
  unfolding or_die_def by (intro emits_intros)

lemma emits_RefreshCertificates: "emits w_trace certificate_events (RefreshCertificates E CE m)"
  unfolding RefreshCertificates_def getCABundle_def
  by (intro emits_intros cert_events_sub)

lemma emits_NewCertManager: "emits w_trace certificate_events (NewCertManager E CE o1 path)"
  unfolding NewCertManager_def Let_def
  by (intro emits_intros emits_RefreshCertificates cert_events_sub)

text \<open>
  Up to the start of the manager, the process writes nothing to the cluster but signing requests,
  CustomResourceDefinitions and the webhook configuration (for the bundle), and definitions that lose the
  obsolete label; the manager and the webhook server agree on the directory of the certificate.
\<close>

theorem main_run_writes:
  "emits w_trace (cleanup_events \<union> certificate_events) (main_run ME E CE st fl) \<and>
   op_path (main_options st) = CertsPath st"
proof
  have "emits w_trace (cleanup_events \<union> certificate_events) (Setup ME E (certManager E CE m) i)" for m i
    unfolding Setup_def
    by (intro emits_thenP emits_onErr emits_tryP emits_silently emits_or_die emits_mono [OF emits_cleanup]
        cert_mgr.client_emits) auto
  then show "emits w_trace (cleanup_events \<union> certificate_events) (main_run ME E CE st fl)"
    unfolding main_run_def
    by (intro emits_thenP emits_liftSum emits_silently emits_mono [OF emits_NewCertManager]
        emits_mono [OF emits_RefreshCertificates]) auto
qed (simp add: main_options_def apply_func_options_def defaultOptions_def CertsPath_def)

end
