(* ===== verification/Defaults.thy ===== *)
theory Defaults
  imports Generation Paths
begin

text \<open>
  \<open>webhooks/utils/defaults/defaults.go\<close>: filling in the defaults of a version's schema. A Go map is
  walked in an arbitrary order; the association list of properties stands for that order, and the
  theorems say on what it has an influence.
\<close>

section \<open>Values from JSON\<close>

text \<open>
  What is outside the repository: decoding JSON text into a value, the conversion to int64 of a float64
  that does not fit (left open by the language), and the accessors of unstructured objects.
\<close>

record json_env =
  je_unmarshal :: "string \<Rightarrow> err + gval"
  je_int64_overflow :: "int \<Rightarrow> int \<Rightarrow> int"
  je_GetAPIVersion :: "gmap \<Rightarrow> string"
  je_NestedFieldCopy :: "gmap \<Rightarrow> string \<Rightarrow> err + gval option"
  je_SetNestedField :: "gmap \<Rightarrow> gval \<Rightarrow> string \<Rightarrow> err + gmap"

text \<open>\<open>int64(f)\<close> drops the fraction.\<close>

definition float_trunc :: "int \<Rightarrow> int \<Rightarrow> int" where
  "float_trunc m e = (if 0 \<le> e then m * 2 ^ nat e
     else if m < 0 then - ((- m) div 2 ^ nat (- e)) else m div 2 ^ nat (- e))"

definition int64_of_float :: "json_env \<Rightarrow> int \<Rightarrow> int \<Rightarrow> int" where
  "int64_of_float J m e = (let t = float_trunc m e
     in if - (2 ^ 63) \<le> t \<and> t < 2 ^ 63 then t else je_int64_overflow J m e)"

definition integer_default :: "json_env \<Rightarrow> string \<Rightarrow> gval \<Rightarrow> gval" where
  "integer_default J typ v =
     (if typ = ''integer'' then (case v of GFloat m e \<Rightarrow> GInt (int64_of_float J m e) | _ \<Rightarrow> v) else v)"

definition unmarshal_default :: "json_env \<Rightarrow> string \<Rightarrow> string \<Rightarrow> string \<Rightarrow> string \<Rightarrow> err + gval" where
  "unmarshal_default J what fieldName typ raw =
     (case je_unmarshal J raw of
        Inl e \<Rightarrow> Inl (Wrap (what @ fieldName @ '': '') e '''')
      | Inr v \<Rightarrow> Inr (integer_default J typ v))"

section \<open>Filling a map\<close>

definition has_nested :: "schema \<Rightarrow> bool" where
  "has_nested s \<longleftrightarrow> sc_type s = ''object'' \<and> length (props_of s) > 0"

text \<open>The value of a missing array field: as many copies of the item default as \<open>MinItems\<close> asks for.\<close>

definition array_default :: "json_env \<Rightarrow> string \<Rightarrow> schema \<Rightarrow> err + gval option" where
  "array_default J fieldName s =
     (if sc_type s = ''array'' then
        (case sc_items s of
           Some (Some item) \<Rightarrow>
             (case sc_minItems s of
                Some n \<Rightarrow>
                  if n > 0 then
                    (case sc_default item of
                       Some raw \<Rightarrow>
                         (case unmarshal_default J ''failed to unmarshal default array item for field ''
                                 fieldName (sc_type item) raw of
                            Inl e \<Rightarrow> Inl e
                          | Inr v \<Rightarrow> Inr (Some (GArr (replicate (nat n) v))))
                     | None \<Rightarrow> Inr None)
                  else Inr None
              | None \<Rightarrow> Inr None)
         | _ \<Rightarrow> Inr None)
      else Inr None)"

definition props_size :: "(string \<times> schema) list \<Rightarrow> nat" where
  "props_size ps = size_list (\<lambda>(k, s). size s) ps"

lemma props_size_simps [simp]: "props_size [] = 0" "props_size ((k, s) # ps) = Suc (size s + props_size ps)"
  by (simp_all add: props_size_def)

lemma props_size_smaller: "props_size (props_of s) < size s"
proof (cases s)
  case (Schema t d ps df it mi pr r)
  have "props_size qs \<le> size_list (size_prod (\<lambda>_. 0) size) qs" for qs :: "(string \<times> schema) list"
    by (induction qs) auto
  with Schema show ?thesis
    by (auto simp: props_of_def less_Suc_eq_le split: option.split intro!: le_SucI trans_le_add1)
qed

function applyDefaultsToMap ::
  "json_env \<Rightarrow> (string \<times> schema) list \<Rightarrow> gmap \<Rightarrow> err + gmap" where
  "applyDefaultsToMap J [] targetMap = Inr targetMap"
| "applyDefaultsToMap J ((fieldName, s) # ps) targetMap =
     (case fmlookup targetMap fieldName of
        Some v \<Rightarrow>
          if has_nested s then
            (case v of
               GObj fieldValue \<Rightarrow>
                 (case applyDefaultsToMap J (props_of s) fieldValue of
                    Inl e \<Rightarrow> Inl e
                  | Inr fieldValue2 \<Rightarrow>
                      applyDefaultsToMap J ps (fmupd fieldName (GObj fieldValue2) targetMap))
             | _ \<Rightarrow> applyDefaultsToMap J ps targetMap)
          else applyDefaultsToMap J ps targetMap
      | None \<Rightarrow>
          (case sc_default s of
             Some raw \<Rightarrow>
               (case unmarshal_default J ''failed to unmarshal default value for field '' fieldName (sc_type s) raw of
                  Inl e \<Rightarrow> Inl e
                | Inr v \<Rightarrow> applyDefaultsToMap J ps (fmupd fieldName v targetMap))
           | None \<Rightarrow>
               if has_nested s then
                 (case applyDefaultsToMap J (props_of s) fmempty of
                    Inl e \<Rightarrow> Inl e
                  | Inr nestedMap \<Rightarrow>
                      applyDefaultsToMap J ps
                        (if nestedMap \<noteq> fmempty then fmupd fieldName (GObj nestedMap) targetMap else targetMap))
               else
                 (case array_default J fieldName s of
                    Inl e \<Rightarrow> Inl e
                  | Inr None \<Rightarrow> applyDefaultsToMap J ps targetMap
                  | Inr (Some v) \<Rightarrow> applyDefaultsToMap J ps (fmupd fieldName v targetMap))))"
  by pat_completeness auto

termination
  by (relation "measure (\<lambda>(J, ps, m). props_size ps)")
    (simp_all add: less_Suc_eq_le trans_le_add1 [OF less_imp_le [OF props_size_smaller]])

section \<open>The custom resource\<close>

text \<open>What \<open>UnstructuredJSONScheme\<close> decodes to: an object, or a list when there is an \<open>items\<close> field.\<close>

datatype runtime_object = Unstructured gmap | UnstructuredList "gmap list"

fun schema_of_version :: "string \<Rightarrow> crd_version list \<Rightarrow> schema option" where
  "schema_of_version v [] = None"
| "schema_of_version v (x # xs) =
     (if cv_name x = v \<and> open_api x \<noteq> None then open_api x else schema_of_version v xs)"

text \<open>The object is changed in place; here its new content is the result.\<close>

definition PopulateDefaultsFromCRD ::
  "json_env \<Rightarrow> kobj option \<Rightarrow> runtime_object option \<Rightarrow> err + runtime_object" where
  "PopulateDefaultsFromCRD J crd1 cr =
     (case crd1 of None \<Rightarrow> Inl (Plain ''CustomResourceDefinition is nil'') | Some c \<Rightarrow>
     (case cr of
        None \<Rightarrow> Inl (Plain ''custom resource is nil'')
      | Some (UnstructuredList os) \<Rightarrow> Inl (Plain ''custom resource must be an *unstructured.Unstructured'')
      | Some (Unstructured obj) \<Rightarrow>
     (let crAPIVersion = je_GetAPIVersion J obj; parts = split_on CHR ''/'' crAPIVersion
      in if length parts \<noteq> 2
         then Inl (Plain (''invalid apiVersion format in custom resource: '' @ crAPIVersion))
         else
     (let crVersion = parts ! 1
      in case schema_of_version crVersion (crd_versions (crd_of c)) of
           None \<Rightarrow> Inl (Plain (''no schema found for version '' @ crVersion @ '' in CRD '' @ ko_name c))
         | Some s \<Rightarrow>
     (case lookup_prop ''spec'' s of
        None \<Rightarrow> Inr (Unstructured obj)
      | Some specSchema \<Rightarrow>
     (case je_NestedFieldCopy J obj ''spec'' of
        Inl e \<Rightarrow> Inl (Wrap ''error accessing spec field: '' e '''')
      | Inr found \<Rightarrow>
     (let spec = (if found = None \<or> found = Some GNull then GObj fmempty else the found)
      in case spec of
           GObj specMap \<Rightarrow>
             (case applyDefaultsToMap J (props_of specSchema) specMap of
                Inl e \<Rightarrow> Inl e
              | Inr specMap2 \<Rightarrow>
                  (case je_SetNestedField J obj (GObj specMap2) ''spec'' of
                     Inl e \<Rightarrow> Inl (Wrap ''error setting updated spec: '' e '''')
                   | Inr obj2 \<Rightarrow> Inr (Unstructured obj2)))
         | _ \<Rightarrow> Inl (Plain ''spec field is not a map''))))))))"

section \<open>One field at a time\<close>

text \<open>
  The reference: what becomes of one field, from its schema and its old value alone. No other field and
  no order of the fields enters.
\<close>

definition field_default :: "json_env \<Rightarrow> string \<Rightarrow> schema \<Rightarrow> gval option \<Rightarrow> err + gval option" where
  "field_default J k s old =
     (case old of
        Some (GObj sub) \<Rightarrow>
          if has_nested s then map_sum id (\<lambda>m. Some (GObj m)) (applyDefaultsToMap J (props_of s) sub)
          else Inr old
      | Some v \<Rightarrow> Inr old
      | None \<Rightarrow>
          (case sc_default s of
             Some raw \<Rightarrow> map_sum id Some
               (unmarshal_default J ''failed to unmarshal default value for field '' k (sc_type s) raw)
           | None \<Rightarrow>
               if has_nested s then
                 map_sum id (\<lambda>m. if m = fmempty then None else Some (GObj m))
                   (applyDefaultsToMap J (props_of s) fmempty)
               else array_default J k s))"

definition put_field :: "string \<Rightarrow> gval option \<Rightarrow> gmap \<Rightarrow> gmap" where
  "put_field k r m = (case r of None \<Rightarrow> m | Some v \<Rightarrow> fmupd k v m)"

lemma applyDefaults_Cons:
  "applyDefaultsToMap J ((k, s) # ps) m =
     (case field_default J k s (fmlookup m k) of
        Inl e \<Rightarrow> Inl e | Inr r \<Rightarrow> applyDefaultsToMap J ps (put_field k r m))"
  by (auto simp: field_default_def put_field_def fmupd_same
      split: option.split gval.split sum.split)

declare applyDefaultsToMap.simps(2) [simp del]

lemma put_field_lookup:
  "(r = None \<Longrightarrow> fmlookup m k = None) \<Longrightarrow>
   fmlookup (put_field k r m) k2 = (if k2 = k then r else fmlookup m k2)"
  by (auto simp: put_field_def split: option.split)

lemma field_default_keeps: "field_default J k s (Some v) = Inr r \<Longrightarrow> r \<noteq> None"
  by (auto simp: field_default_def map_sum_Inr split: gval.splits if_splits)

text \<open>\<open>defaulted\<close>: every field of the schema has become what the reference says, the others are as before.\<close>

definition defaulted :: "json_env \<Rightarrow> (string \<times> schema) list \<Rightarrow> gmap \<Rightarrow> gmap \<Rightarrow> bool" where
  "defaulted J ps m m2 \<longleftrightarrow> (\<forall>k. case map_of ps k of
       None \<Rightarrow> fmlookup m2 k = fmlookup m k
     | Some s \<Rightarrow> field_default J k s (fmlookup m k) = Inr (fmlookup m2 k))"

lemma applyDefaults_iff:
  assumes "distinct (map fst ps)"
  shows "applyDefaultsToMap J ps m = Inr m2 \<longleftrightarrow> defaulted J ps m m2"
  using assms
proof (induction ps arbitrary: m)
  case Nil
  then show ?case by (auto simp: defaulted_def intro: fmap_ext)
next
  case (Cons p ps)
  obtain k s where p: "p = (k, s)" by fastforce
  from Cons.prems p have d: "distinct (map fst ps)" and new: "map_of ps k = None"
    by (auto simp: map_of_eq_None_iff)
  show ?case
  proof (cases "field_default J k s (fmlookup m k)")
    case (Inl e)
    then show ?thesis by (auto simp: p applyDefaults_Cons defaulted_def intro: exI [of _ k])
  next
    case (Inr r)
    then have none: "r = None \<Longrightarrow> fmlookup m k = None"
      using field_default_keeps [of J k s] by (cases "fmlookup m k") auto
    have lk: "fmlookup (put_field k r m) k2 = (if k2 = k then r else fmlookup m k2)" for k2
      using none by (rule put_field_lookup)
    have "defaulted J ps (put_field k r m) m2 \<longleftrightarrow> defaulted J (p # ps) m m2"
      unfolding defaulted_def by (rule all_cong1) (use Inr new in \<open>auto simp: p lk split: option.splits\<close>)
    with Cons.IH [OF d] Inr show ?thesis by (simp add: p applyDefaults_Cons)
  qed
qed

section \<open>A schema to try them on\<close>

definition sample_json :: json_env where
  "sample_json = \<lparr>
     je_unmarshal = (\<lambda>raw. if raw = ''3'' then Inr (GFloat 3 0) else if raw = ''{}'' then Inr (GObj fmempty)
        else Inl (Plain ''invalid character'')),
     je_int64_overflow = (\<lambda>m e. - (2 ^ 63)),
     je_GetAPIVersion = (\<lambda>obj. case fmlookup obj ''apiVersion'' of Some (GStr s) \<Rightarrow> s | _ \<Rightarrow> ''''),
     je_NestedFieldCopy = (\<lambda>obj f. Inr (fmlookup obj f)),
     je_SetNestedField = (\<lambda>obj v f. Inr (fmupd f v obj))\<rparr>"

definition leaf :: "string \<Rightarrow> string option \<Rightarrow> schema" where
  "leaf typ def = Schema typ '''' None def None None None GNull"

definition object_with :: "(string \<times> schema) list \<Rightarrow> string option \<Rightarrow> schema" where
  "object_with ps def = Schema ''object'' '''' (Some ps) def None None None GNull"

definition replica_props :: "(string \<times> schema) list" where
  "replica_props = [(''replicas'', leaf ''integer'' (Some ''3'')), (''name'', leaf ''string'' None)]"

lemmas sample_json_defs = sample_json_def leaf_def object_with_def replica_props_def
  has_nested_def props_of_def unmarshal_default_def integer_default_def int64_of_float_def float_trunc_def

text \<open>
  The default of an object field is taken as it is: the defaults of its own properties are filled in only
  when the object is there already. A second pass therefore adds what the first one left out.
\<close>

lemma nested_defaults_need_a_second_pass:
  "applyDefaultsToMap sample_json [(''cfg'', object_with replica_props (Some ''{}''))] fmempty =
     Inr (fmupd ''cfg'' (GObj fmempty) fmempty)"
  "applyDefaultsToMap sample_json [(''cfg'', object_with replica_props (Some ''{}''))]
       (fmupd ''cfg'' (GObj fmempty) fmempty) =
     Inr (fmupd ''cfg'' (GObj (fmupd ''replicas'' (GInt 3) fmempty)) fmempty)"
  by (simp_all add: applyDefaultsToMap.simps(2) sample_json_defs array_default_def fmupd_idem)

text \<open>
  C24: Filling a map is filling each field by itself: with distinct property names (a Go map has no others)
  the code succeeds with a map exactly when every field is what the reference gives for it and every other
  key is untouched. Neither the order of iteration nor the other fields matter.
\<close>

theorem applyDefaults_fieldwise:
  assumes "distinct (map fst ps)"
  shows "applyDefaultsToMap J ps m = Inr m2 \<longleftrightarrow> defaulted J ps m m2"
  using assms by (rule applyDefaults_iff)

theorem applyDefaults_fieldwise_witness:
  "defaulted sample_json replica_props (fmupd ''name'' (GStr ''a'') fmempty)
     (fmupd ''replicas'' (GInt 3) (fmupd ''name'' (GStr ''a'') fmempty))"
proof -
  have "distinct (map fst replica_props)" by (simp add: replica_props_def)
  moreover have "applyDefaultsToMap sample_json replica_props (fmupd ''name'' (GStr ''a'') fmempty) =
      Inr (fmupd ''replicas'' (GInt 3) (fmupd ''name'' (GStr ''a'') fmempty))"
    by (simp add: applyDefaultsToMap.simps(2) sample_json_defs)
  ultimately show ?thesis by (rule applyDefaults_fieldwise [THEN iffD1])
qed

text \<open>
  The order in which Go walks the properties does not matter: any two walks over the same properties
  give the same map, or both fail.
\<close>

theorem applyDefaults_order:
  assumes "distinct (map fst ps)" and "distinct (map fst qs)" and "set ps = set qs"
  shows "applyDefaultsToMap J ps m = Inr m2 \<longleftrightarrow> applyDefaultsToMap J qs m = Inr m2"
proof -
  have "map_of ps = map_of qs" using assms by (simp add: map_of_inject_set)
  then show ?thesis using assms by (simp add: applyDefaults_iff defaulted_def)
qed

theorem applyDefaults_order_witness:
  "applyDefaultsToMap sample_json (rev replica_props) fmempty = Inr (fmupd ''replicas'' (GInt 3) fmempty)"
proof -
  have "applyDefaultsToMap sample_json replica_props fmempty = Inr (fmupd ''replicas'' (GInt 3) fmempty)"
    by (simp add: applyDefaultsToMap.simps(2) sample_json_defs array_default_def)
  moreover have "distinct (map fst replica_props)" "distinct (map fst (rev replica_props))"
    "set replica_props = set (rev replica_props)"
    by (auto simp: replica_props_def)
  ultimately show ?thesis using applyDefaults_order by blast
qed

section \<open>Nothing is overwritten\<close>

text \<open>\<open>json_extends v v2\<close>: \<open>v2\<close> has everything \<open>v\<close> has, objects may have grown, at any depth.\<close>

inductive json_extends :: "gval \<Rightarrow> gval \<Rightarrow> bool" where
  same: "json_extends v v"
| grown: "(\<And>k v. fmlookup m k = Some v \<Longrightarrow> \<exists>v2. fmlookup m2 k = Some v2 \<and> json_extends v v2) \<Longrightarrow>
    json_extends (GObj m) (GObj m2)"

inductive_cases json_extends_GObjE: "json_extends (GObj m) v"
inductive_simps json_extends_GObj: "json_extends (GObj m) (GObj m2)"

lemma json_extends_trans: "json_extends a b \<Longrightarrow> json_extends b c \<Longrightarrow> json_extends a c"
proof (induction arbitrary: c rule: json_extends.induct)
  case (grown m m2)
  from grown.prems consider (eq) "c = GObj m2" | (obj) m3 where "c = GObj m3"
      "\<And>k v. fmlookup m2 k = Some v \<Longrightarrow> \<exists>v2. fmlookup m3 k = Some v2 \<and> json_extends v v2"
    by (elim json_extends_GObjE) blast+
  then show ?case
  proof cases
    case eq
    show ?thesis unfolding eq by (rule json_extends.grown) (use grown.IH in blast)
  next
    case obj
    show ?thesis unfolding obj(1)
    proof (rule json_extends.grown)
      fix k v
      assume "fmlookup m k = Some v"
      with grown.IH obtain v2 where v2: "fmlookup m2 k = Some v2" "\<And>c. json_extends v2 c \<Longrightarrow> json_extends v c"
        by blast
      from obj(2) [OF v2(1)] v2(2) show "\<exists>v3. fmlookup m3 k = Some v3 \<and> json_extends v v3" by blast
    qed
  qed
qed simp

lemma json_extends_put:
  assumes "\<And>v. fmlookup m k = Some v \<Longrightarrow> \<exists>v2. r = Some v2 \<and> json_extends v v2"
  shows "json_extends (GObj m) (GObj (put_field k r m))"
proof (rule json_extends.grown)
  fix k2 v
  assume k2: "fmlookup m k2 = Some v"
  show "\<exists>v2. fmlookup (put_field k r m) k2 = Some v2 \<and> json_extends v v2"
  proof (cases "k2 = k")
    case True
    with assms k2 show ?thesis by (auto simp: put_field_def)
  next
    case False
    with k2 show ?thesis by (auto simp: put_field_def json_extends.same split: option.split)
  qed
qed

lemma field_default_extends:
  assumes "\<And>sub sub2. applyDefaultsToMap J (props_of s) sub = Inr sub2 \<Longrightarrow> json_extends (GObj sub) (GObj sub2)"
    and "field_default J k s (Some v) = Inr r"
  shows "\<exists>v2. r = Some v2 \<and> json_extends v v2"
  using assms(2)
  by (auto simp: field_default_def map_sum_Inr intro: json_extends.same assms(1) split: gval.splits if_splits)

lemma applyDefaults_extends:
  "applyDefaultsToMap J ps m = Inr m2 \<Longrightarrow> json_extends (GObj m) (GObj m2)"
proof (induction "props_size ps" arbitrary: ps m m2 rule: less_induct)
  case less
  show ?case
  proof (cases ps)
    case Nil
    with less.prems show ?thesis by (auto intro: json_extends.same)
  next
    case (Cons p qs)
    obtain k s where p: "p = (k, s)" by fastforce
    from less.prems obtain r where r: "field_default J k s (fmlookup m k) = Inr r"
      and rest: "applyDefaultsToMap J qs (put_field k r m) = Inr m2"
      by (auto simp: Cons p applyDefaults_Cons split: sum.splits)
    have sub: "json_extends (GObj a) (GObj b)" if "applyDefaultsToMap J (props_of s) a = Inr b" for a b
      using less.hyps [OF _ that] props_size_smaller [of s] by (simp add: Cons p)
    have "json_extends (GObj m) (GObj (put_field k r m))"
      using field_default_extends [OF sub] r by (intro json_extends_put) auto
    moreover have "json_extends (GObj (put_field k r m)) (GObj m2)"
      using less.hyps [OF _ rest] by (simp add: Cons p)
    ultimately show ?thesis by (rule json_extends_trans)
  qed
qed

text \<open>The documented behaviour of the accessors of unstructured objects, for a top-level field.\<close>

definition field_access :: "json_env \<Rightarrow> bool" where
  "field_access J \<longleftrightarrow> (\<forall>obj f. je_NestedFieldCopy J obj f = Inr (fmlookup obj f)) \<and>
     (\<forall>obj v f. je_SetNestedField J obj v f = Inr (fmupd f v obj))"

text \<open>What \<open>spec\<close> may become: an object that extends the old one, or a new one.\<close>

definition spec_extended :: "gmap \<Rightarrow> gmap \<Rightarrow> bool" where
  "spec_extended obj obj2 \<longleftrightarrow>
     (case fmlookup obj ''spec'' of
        Some (GObj m) \<Rightarrow> (\<exists>m2. fmlookup obj2 ''spec'' = Some (GObj m2) \<and> json_extends (GObj m) (GObj m2))
      | Some GNull \<Rightarrow> (\<exists>m2. fmlookup obj2 ''spec'' = Some (GObj m2) \<or> obj2 = obj)
      | None \<Rightarrow> (\<exists>m2. fmlookup obj2 ''spec'' = Some (GObj m2) \<or> obj2 = obj)
      | Some v \<Rightarrow> obj2 = obj)"

text \<open>
  C23: Populating the defaults never overwrites or drops anything: every field outside \<open>spec\<close> stays as it
  is, and every value inside \<open>spec\<close> is still there, objects possibly grown, at any depth.
\<close>

theorem PopulateDefaults_extends:
  assumes "field_access J" and "PopulateDefaultsFromCRD J c (Some (Unstructured obj)) = Inr (Unstructured obj2)"
  shows "fmdrop ''spec'' obj2 = fmdrop ''spec'' obj \<and> spec_extended obj obj2"
proof -
  have drop: "fmdrop ''spec'' (fmupd ''spec'' v obj) = fmdrop ''spec'' obj" for v
    by (rule fmap_ext) simp
  have acc: "je_NestedFieldCopy J obj ''spec'' = Inr (fmlookup obj ''spec'')"
    "\<And>v. je_SetNestedField J obj v ''spec'' = Inr (fmupd ''spec'' v obj)"
    using assms(1) by (auto simp: field_access_def)
  have "obj2 = obj \<or> (\<exists>m m2. obj2 = fmupd ''spec'' (GObj m2) obj \<and> json_extends (GObj m) (GObj m2) \<and>
      (fmlookup obj ''spec'' = Some (GObj m) \<or> m = fmempty \<and> fmlookup obj ''spec'' \<in> {None, Some GNull}))"
    using assms(2) by (auto simp: PopulateDefaultsFromCRD_def Let_def acc dest: applyDefaults_extends
        split: option.splits sum.splits gval.splits if_splits)
  then show ?thesis
    by (auto simp: drop spec_extended_def intro: json_extends.same split: option.split gval.split)
qed

definition sample_resource :: gmap where
  "sample_resource = fmap_of_list [(''apiVersion'', GStr ''composition.krateo.io/v1''),
     (''spec'', GObj (fmap_of_list [(''name'', GStr ''a'')]))]"

definition defaulting_crd :: kobj where
  "defaulting_crd = with_crd \<lparr>crd_group = ''composition.krateo.io'', crd_kind = ''Fireworks'',
     crd_plural = ''fireworks'', crd_versions = [\<lparr>cv_name = ''v1'', cv_served = True, cv_storage = True,
       cv_schema = Some (Some (object_with [(''spec'', object_with replica_props None)] None))\<rparr>],
     crd_conversion_of = None, crd_conditions = []\<rparr> zero_obj"

theorem PopulateDefaults_extends_witness:
  "\<exists>obj2. PopulateDefaultsFromCRD sample_json (Some defaulting_crd) (Some (Unstructured sample_resource)) =
       Inr (Unstructured obj2) \<and> spec_extended sample_resource obj2 \<and>
     fmlookup obj2 ''spec'' = Some (GObj (fmupd ''replicas'' (GInt 3) (fmap_of_list [(''name'', GStr ''a'')])))"
proof -
  let ?obj2 = "fmupd ''spec'' (GObj (fmupd ''replicas'' (GInt 3) (fmap_of_list [(''name'', GStr ''a'')])))
     sample_resource"
  have ver: "split_on CHR ''/'' ''composition.krateo.io/v1'' = [''composition.krateo.io'', ''v1'']"
    by simp
  have run: "PopulateDefaultsFromCRD sample_json (Some defaulting_crd) (Some (Unstructured sample_resource)) =
      Inr (Unstructured ?obj2)"
    by (simp add: PopulateDefaultsFromCRD_def defaulting_crd_def sample_resource_def ver sample_json_defs
        applyDefaultsToMap.simps(2) open_api_def lookup_prop_def Let_def)
  moreover have "field_access sample_json" by (simp add: field_access_def sample_json_def)
  ultimately have "spec_extended sample_resource ?obj2" using PopulateDefaults_extends by blast
  with run show ?thesis by (intro exI [of _ ?obj2]) simp
qed

end
