(* ===== verification/Webhooks.thy ===== *)
theory Webhooks
  imports Defaults Crd
begin

text \<open>
  \<open>webhooks/mutation\<close> and \<open>webhooks/conversion\<close>: the admission webhook, which fills in defaults and
  stamps new compositions with their version, and the conversion webhook, which hands an object over to
  another version as it is. JSON encoding, decoding and the computation of JSON patches are third-party
  code and stay parameters, as does the HTTP transport.
\<close>

section \<open>Admission\<close>

record patch_op =
  po_operation :: string
  po_path :: string
  po_value :: gval

record admission_request =
  aq_operation :: string
  aq_group :: string
  aq_version :: string
  aq_resource :: string
  aq_raw :: string

datatype admission_response = Errored int err | Patched string "patch_op list"

text \<open>
  \<open>we_UnmarshalObject\<close> is \<open>json.Unmarshal\<close> into an unstructured object, \<open>we_Decode\<close> the decoder of
  \<open>UnstructuredJSONScheme\<close>; \<open>we_GetLabels\<close> is nil when there are none.
\<close>

record webhook_env =
  we_json :: json_env
  we_UnmarshalObject :: "string \<Rightarrow> err + gmap"
  we_Decode :: "string \<Rightarrow> err + runtime_object"
  we_Marshal :: "runtime_object \<Rightarrow> err + string"
  we_CreatePatch :: "string \<Rightarrow> string \<Rightarrow> err + patch_op list"
  we_GetLabels :: "gmap \<Rightarrow> (string, string) fmap option"

definition labels_op :: patch_op where
  "labels_op = \<lparr>po_operation = ''add'', po_path = ''/metadata/labels'', po_value = GObj fmempty\<rparr>"

definition version_op :: "string \<Rightarrow> patch_op" where
  "version_op v = \<lparr>po_operation = ''add'',
     po_path = ''/metadata/labels/krateo.io~1composition-version'', po_value = GStr v\<rparr>"

text \<open>The patch that fills in the defaults, or the error to report.\<close>

definition defaults_patch :: "webhook_env \<Rightarrow> kobj \<Rightarrow> string \<Rightarrow> err + patch_op list" where
  "defaults_patch W crd1 raw =
     (case we_Decode W raw of Inl e \<Rightarrow> Inl e | Inr modObj \<Rightarrow>
     (case PopulateDefaultsFromCRD (we_json W) (Some crd1) (Some modObj) of Inl e \<Rightarrow> Inl e | Inr modObj2 \<Rightarrow>
     (case we_Marshal W modObj2 of Inl e \<Rightarrow> Inl e | Inr bMod \<Rightarrow>
     we_CreatePatch W raw bMod)))"

text \<open>What is added to the patch of a request: the label of the version, with its parent if need be.\<close>

definition label_ops :: "webhook_env \<Rightarrow> admission_request \<Rightarrow> gmap \<Rightarrow> patch_op list" where
  "label_ops W req obj =
     (if aq_operation req = ''CREATE'' then
        (let labels = we_GetLabels W obj in
         if labels = None \<or> labels = Some fmempty then [labels_op, version_op (aq_version req)]
         else [version_op (aq_version req)])
      else [])"

text \<open>The handler; its errors are responses.\<close>

definition Handle :: "'s env \<Rightarrow> webhook_env \<Rightarrow> admission_request \<Rightarrow> ('s world, admission_response) prog" where
  "Handle E W req =
     (case we_UnmarshalObject W (aq_raw req) of
        Inl e \<Rightarrow> returnP (Errored 400 e)
      | Inr unstructuredObj \<Rightarrow>
          thenP (tryP (Get_crd E \<lparr>gr_group = aq_group req, gr_resource = aq_resource req\<rparr>)) (\<lambda>got.
          case got of
            Inl e \<Rightarrow> returnP (Errored 400 e)
          | Inr None \<Rightarrow> returnP (Errored 400 (Plain ''CRD not found''))
          | Inr (Some crd1) \<Rightarrow>
              (case defaults_patch W crd1 (aq_raw req) of
                 Inl e \<Rightarrow> returnP (Errored 400 e)
               | Inr patch \<Rightarrow>
                   returnP (Patched ''mutating webhook called'' (patch @ label_ops W req unstructuredObj)))))"

section \<open>Conversion\<close>

text \<open>
  \<open>ConversionReview\<close>: the request is set on the way in, the response on the way out. An object arrives as
  raw JSON and leaves as a map.
\<close>

record conversion_request =
  vq_uid :: string
  vq_desiredAPIVersion :: string
  vq_objects :: "string list"

record conversion_response =
  vr_uid :: string
  vr_objects :: "gmap list"
  vr_status :: string
  vr_message :: string

record conversion_review =
  cv_request :: "conversion_request option"
  cv_response :: "conversion_response option"

text \<open>
  \<open>vc_Decode\<close> also gives the kind that was read; \<open>vc_SetAPIVersion\<close> and \<open>vc_SetKind\<close> set fields of an
  object, which may be nil (here empty).
\<close>

record conversion_env =
  vc_DecodeReview :: "string \<Rightarrow> err + conversion_review"
  vc_EncodeReview :: "conversion_review \<Rightarrow> err + string"
  vc_Decode :: "string \<Rightarrow> err + runtime_object \<times> gvk"
  vc_SetAPIVersion :: "string \<Rightarrow> gmap \<Rightarrow> gmap"
  vc_SetKind :: "string \<Rightarrow> gmap \<Rightarrow> gmap"

definition CreateEmptyConvertible :: "conversion_env \<Rightarrow> string \<Rightarrow> string \<Rightarrow> gmap" where
  "CreateEmptyConvertible V apiVersion kind = vc_SetKind V kind (vc_SetAPIVersion V apiVersion fmempty)"

text \<open>Reading a missing key of a Go map gives nil, and storing nil stores an entry.\<close>

definition field_or_nil :: "gmap \<Rightarrow> string \<Rightarrow> gval" where
  "field_or_nil obj k = (case fmlookup obj k of None \<Rightarrow> GNull | Some v \<Rightarrow> v)"

definition copy_fields :: "gmap \<Rightarrow> gmap \<Rightarrow> gmap" where
  "copy_fields src dst =
     fmupd ''status'' (field_or_nil src ''status'')
       (fmupd ''spec'' (field_or_nil src ''spec'')
         (fmupd ''metadata'' (field_or_nil src ''metadata'') dst))"

text \<open>\<open>ConvertTo\<close> and \<open>ConvertFrom\<close> of \<open>convertible.go\<close>: the same copy, in both directions.\<close>

definition ConvertTo :: "gmap \<Rightarrow> gmap \<Rightarrow> gmap" where "ConvertTo src dst = copy_fields src dst"
definition ConvertFrom :: "gmap \<Rightarrow> gmap \<Rightarrow> gmap" where "ConvertFrom dst src = copy_fields src dst"

text \<open>A list does not convert: the failed assertion leaves a nil object, whose fields are read.\<close>

definition convert_one :: "conversion_env \<Rightarrow> string \<Rightarrow> string \<Rightarrow> gmap outcome" where
  "convert_one V desired raw =
     (case vc_Decode V raw of
        Inl e \<Rightarrow> Err (Wrap ''error decoding object: '' e '''')
      | Inr (usrc, g) \<Rightarrow>
          (case usrc of
             UnstructuredList os \<Rightarrow> Panic ''invalid memory address or nil pointer dereference''
           | Unstructured src \<Rightarrow>
               Ok (copy_fields src (CreateEmptyConvertible V desired (gvk_kind g)))))"

fun convert_all :: "conversion_env \<Rightarrow> string \<Rightarrow> string list \<Rightarrow> gmap list outcome" where
  "convert_all V desired [] = Ok []"
| "convert_all V desired (raw # raws) =
     (case convert_one V desired raw of
        Ok d \<Rightarrow>
          (case convert_all V desired raws of Ok ds \<Rightarrow> Ok (d # ds) | Err e \<Rightarrow> Err e | Panic s \<Rightarrow> Panic s)
      | Err e \<Rightarrow> Err e
      | Panic s \<Rightarrow> Panic s)"

definition handleConvertRequest ::
  "conversion_env \<Rightarrow> conversion_request option \<Rightarrow> conversion_response outcome" where
  "handleConvertRequest V req =
     (case req of
        None \<Rightarrow> Err (Plain ''conversion request is nil'')
      | Some q \<Rightarrow>
          (case convert_all V (vq_desiredAPIVersion q) (vq_objects q) of
             Ok ds \<Rightarrow> Ok \<lparr>vr_uid = vq_uid q, vr_objects = ds, vr_status = ''Success'', vr_message = ''''\<rparr>
           | Err e \<Rightarrow> Err e
           | Panic s \<Rightarrow> Panic s))"

definition errored :: "err \<Rightarrow> conversion_response" where
  "errored e = \<lparr>vr_uid = '''', vr_objects = [], vr_status = ''Failure'', vr_message = err_msg e\<rparr>"

text \<open>
  What the server does for one request: the HTTP status with the body written, and whether the request is
  counted as a success. (Without a header written before, an encoded body goes out with status 200; when
  encoding fails, nothing is written.)
\<close>

record http_reply =
  hr_status :: int
  hr_body :: "string option"

definition ServeHTTP :: "conversion_env \<Rightarrow> string \<Rightarrow> (http_reply \<times> bool) outcome" where
  "ServeHTTP V body =
     (case vc_DecodeReview V body of
        Inl e \<Rightarrow> Ok (\<lparr>hr_status = 400, hr_body = None\<rparr>, False)
      | Inr review \<Rightarrow>
          (case cv_request review of
             None \<Rightarrow> Ok (\<lparr>hr_status = 400, hr_body = None\<rparr>, False)
           | Some q \<Rightarrow>
               (let reply = (\<lambda>resp.
                  (let review2 = review\<lparr>cv_response := Some (resp\<lparr>vr_uid := vq_uid q\<rparr>), cv_request := None\<rparr>
                   in case vc_EncodeReview V review2 of
                        Inl e \<Rightarrow> (\<lparr>hr_status = 200, hr_body = None\<rparr>, False)
                      | Inr txt \<Rightarrow> (\<lparr>hr_status = 200, hr_body = Some txt\<rparr>, vr_status resp = ''Success'')))
                in case handleConvertRequest V (Some q) of
                     Ok resp \<Rightarrow> Ok (reply resp)
                   | Err e \<Rightarrow> Ok (reply (errored e))
                   | Panic s \<Rightarrow> Panic s)))"

section \<open>What is admitted\<close>

definition admitted :: "webhook_env \<Rightarrow> admission_request \<Rightarrow> admission_response \<Rightarrow> bool" where
  "admitted W req resp =
     (case resp of
        Errored c e \<Rightarrow> c = 400
      | Patched m ops \<Rightarrow> (\<exists>crd1 patch. defaults_patch W crd1 (aq_raw req) = Inr patch \<and>
          (if aq_operation req = ''CREATE''
           then \<exists>parent \<in> {[], [labels_op]}. ops = patch @ parent @ [version_op (aq_version req)]
           else ops = patch)))"

lemma admitted_intros:
  "admitted W req (Errored 400 e)"
  "defaults_patch W crd1 (aq_raw req) = Inr patch \<Longrightarrow> admitted W req (Patched m (patch @ label_ops W req obj))"
  by (auto simp: admitted_def label_ops_def Let_def)


section \<open>What is converted\<close>

definition decodes_to :: "conversion_env \<Rightarrow> string \<Rightarrow> gmap \<times> string \<Rightarrow> bool" where
  "decodes_to V raw = (\<lambda>(src, k). \<exists>g. vc_Decode V raw = Inr (Unstructured src, g) \<and> k = gvk_kind g)"

definition converted :: "conversion_env \<Rightarrow> string \<Rightarrow> gmap \<times> string \<Rightarrow> gmap" where
  "converted V desired = (\<lambda>(src, k). copy_fields src (CreateEmptyConvertible V desired k))"

lemma convert_one_Ok:
  "convert_one V desired raw = Ok d \<longleftrightarrow> (\<exists>p. decodes_to V raw p \<and> d = converted V desired p)"
  by (auto simp: convert_one_def decodes_to_def converted_def split: sum.split runtime_object.split)

lemma convert_all_Ok:
  "convert_all V desired raws = Ok ds \<longleftrightarrow>
     (\<exists>ps. list_all2 (decodes_to V) raws ps \<and> ds = map (converted V desired) ps)"
proof (induction raws arbitrary: ds)
  case (Cons raw raws)
  have "convert_all V desired (raw # raws) = Ok ds \<longleftrightarrow>
      (\<exists>d ds2. convert_one V desired raw = Ok d \<and> convert_all V desired raws = Ok ds2 \<and> ds = d # ds2)"
    by (auto split: outcome.split)
  then show ?case by (fastforce simp: Cons.IH convert_one_Ok list_all2_Cons1)
qed auto

text \<open>
  C27: A conversion request is answered with one object per object of the request, in their order: the
  decoded object's metadata, spec and status under the requested version and its own kind. It succeeds
  exactly when every object decodes to a single object.
\<close>

theorem handleConvertRequest_copies:
  "handleConvertRequest V (Some q) = Ok resp \<longleftrightarrow>
     (\<exists>ps. list_all2 (decodes_to V) (vq_objects q) ps \<and>
        resp = \<lparr>vr_uid = vq_uid q, vr_objects = map (converted V (vq_desiredAPIVersion q)) ps,
          vr_status = ''Success'', vr_message = ''''\<rparr>)"
proof -
  have "handleConvertRequest V (Some q) = Ok resp \<longleftrightarrow>
      (\<exists>ds. convert_all V (vq_desiredAPIVersion q) (vq_objects q) = Ok ds \<and>
        resp = \<lparr>vr_uid = vq_uid q, vr_objects = ds, vr_status = ''Success'', vr_message = ''''\<rparr>)"
    by (auto simp: handleConvertRequest_def split: outcome.split)
  then show ?thesis by (auto simp: convert_all_Ok)
qed

text \<open>The documented effect of \<open>SetAPIVersion\<close> and \<open>SetKind\<close>; an object with exactly the fields converted.\<close>

definition sets_fields :: "conversion_env \<Rightarrow> bool" where
  "sets_fields V \<longleftrightarrow> (\<forall>a m. vc_SetAPIVersion V a m = fmupd ''apiVersion'' (GStr a) m) \<and>
     (\<forall>k m. vc_SetKind V k m = fmupd ''kind'' (GStr k) m)"

definition plain_object :: "string \<Rightarrow> string \<Rightarrow> gmap \<Rightarrow> bool" where
  "plain_object a k src \<longleftrightarrow> fmlookup src ''apiVersion'' = Some (GStr a) \<and> fmlookup src ''kind'' = Some (GStr k) \<and>
     fmdom src = {|''apiVersion'', ''kind'', ''metadata'', ''spec'', ''status''|}"

lemma copy_fields_twice: "copy_fields (copy_fields src d) d2 = copy_fields src d2"
  by (simp add: copy_fields_def field_or_nil_def)

text \<open>
  C26: Converting an object to another version and back gives the object, when it has the five fields of a
  stored composition; and converting in two steps is converting at once.
\<close>

theorem conversion_roundtrip:
  assumes "sets_fields V" and "plain_object a k src"
  shows "converted V a (converted V b (src, k), k) = src \<and>
    converted V c (converted V b (src, k), k) = converted V c (src, k)"
proof
  show "converted V a (converted V b (src, k), k) = src"
  proof (rule fmap_ext)
    fix f
    have dom: "fmlookup src g = None \<longleftrightarrow> g \<notin> {''apiVersion'', ''kind'', ''metadata'', ''spec'', ''status''}" for g
      using assms(2) fmlookup_dom_iff [of g src] by (simp add: plain_object_def)
    obtain md sp st where "fmlookup src ''metadata'' = Some md" "fmlookup src ''spec'' = Some sp"
        "fmlookup src ''status'' = Some st"
      using dom [of "''metadata''"] dom [of "''spec''"] dom [of "''status''"] by auto
    note parts = this assms
    have fields: "converted V a (converted V b (src, k), k) = copy_fields src (CreateEmptyConvertible V a k)"
      by (simp add: converted_def copy_fields_twice)
    consider "f = ''apiVersion''" | "f = ''kind''" | "f = ''metadata''" | "f = ''spec''" | "f = ''status''" |
        "f \<notin> {''apiVersion'', ''kind'', ''metadata'', ''spec'', ''status''}" by blast
    then show "fmlookup (converted V a (converted V b (src, k), k)) f = fmlookup src f"
      unfolding fields
      by cases (use parts dom [of f] in \<open>simp_all add: copy_fields_def field_or_nil_def
        CreateEmptyConvertible_def sets_fields_def plain_object_def eq_commute [of _ f]\<close>)
  qed
  show "converted V c (converted V b (src, k), k) = converted V c (src, k)"
    by (simp add: converted_def copy_fields_twice)
qed

text \<open>
  The server takes a conversion for a success exactly when it read a review with a request, converted it
  and could write the answer: the review without its request, with a response under the request's UID.
\<close>

lemma ServeHTTP_success:
  "ServeHTTP V body = Ok (r, True) \<longleftrightarrow>
     (\<exists>review q resp txt. vc_DecodeReview V body = Inr review \<and> cv_request review = Some q \<and>
        handleConvertRequest V (Some q) = Ok resp \<and> vr_uid resp = vq_uid q \<and>
        vc_EncodeReview V (review\<lparr>cv_response := Some resp, cv_request := None\<rparr>) = Inr txt \<and>
        r = \<lparr>hr_status = 200, hr_body = Some txt\<rparr>)"
  (is "?l = ?r")
proof -
  have uid: "resp\<lparr>vr_uid := vq_uid q\<rparr> = resp" "vr_uid resp = vq_uid q" "vr_status resp = ''Success''"
    if "handleConvertRequest V (Some q) = Ok resp" for q resp
    using that by (auto simp: handleConvertRequest_def split: outcome.splits)
  have "?r" if l: "?l"
  proof -
    from l obtain review q where rq: "vc_DecodeReview V body = Inr review" "cv_request review = Some q"
      by (auto simp: ServeHTTP_def split: sum.splits option.splits)
    show ?r
    proof (cases "handleConvertRequest V (Some q)")
      case (Ok resp)
      note upd = uid [OF Ok]
      from l rq Ok show ?thesis by (auto simp: ServeHTTP_def Let_def upd split: sum.splits)
    qed (use l rq in \<open>auto simp: ServeHTTP_def Let_def errored_def split: sum.splits\<close>)
  qed
  moreover have "?l" if "?r"
  proof -
    from that obtain review q resp out where rq: "vc_DecodeReview V body = Inr review" "cv_request review = Some q"
        "handleConvertRequest V (Some q) = Ok resp"
        "vc_EncodeReview V (review\<lparr>cv_response := Some resp, cv_request := None\<rparr>) = Inr out"
        "r = \<lparr>hr_status = 200, hr_body = Some out\<rparr>" by blast
    show ?l using rq(1,2,4,5) by (simp add: ServeHTTP_def Let_def rq(3) uid [OF rq(3)])
  qed
  ultimately show ?thesis by blast
qed

definition sample_conversion :: conversion_env where
  "sample_conversion = \<lparr>vc_DecodeReview = (\<lambda>b. Inl (Plain b)), vc_EncodeReview = (\<lambda>r. Inr ''{}''),
     vc_Decode = (\<lambda>raw. Inl (Plain raw)),
     vc_SetAPIVersion = (\<lambda>a m. fmupd ''apiVersion'' (GStr a) m),
     vc_SetKind = (\<lambda>k m. fmupd ''kind'' (GStr k) m)\<rparr>"

definition stored_composition :: gmap where
  "stored_composition = fmap_of_list [(''apiVersion'', GStr ''composition.krateo.io/v1''),
     (''kind'', GStr ''Fireworks''), (''metadata'', GObj fmempty), (''spec'', GObj fmempty), (''status'', GNull)]"

theorem conversion_roundtrip_witness:
  "converted sample_conversion ''composition.krateo.io/v1''
     (converted sample_conversion ''composition.krateo.io/v2'' (stored_composition, ''Fireworks''), ''Fireworks'') =
   stored_composition"
proof (rule conversion_roundtrip [THEN conjunct1])
  show "sets_fields sample_conversion" by (simp add: sets_fields_def sample_conversion_def)
  show "plain_object ''composition.krateo.io/v1'' ''Fireworks'' stored_composition"
    by (auto simp: plain_object_def stored_composition_def)
qed

text \<open>
  Any field but these is lost, a missing one comes back as an explicit null; a list is not converted but
  ends the request with a nil dereference.
\<close>

lemma conversion_normalises:
  "fmlookup (copy_fields src d) f =
     (if f \<in> {''metadata'', ''spec'', ''status''} then Some (field_or_nil src f) else fmlookup d f)"
  by (auto simp: copy_fields_def)

lemma conversion_of_list_panics:
  "vc_Decode V raw = Inr (UnstructuredList os, g) \<Longrightarrow> \<exists>s. convert_one V desired raw = Panic s"
  by (simp add: convert_one_def)

end
