(* ===== verification/Telemetry.thy ===== *)
theory Telemetry
  imports Webhooks "HOL-Library.Multiset"
begin

text \<open>
  What is observed of the webhooks and of the program: the request metrics of \<open>telemetry/webhooks\<close>, the log
  lines of \<open>loghandler\<close> and the logger in a context.
\<close>

section \<open>Request metrics\<close>

text \<open>The two instruments: the recorded durations and the counter, each with the labels of its entries.\<close>

record metrics =
  mt_requestDuration :: "(string \<times> string \<times> int) multiset"
  mt_requestTotal :: "(string \<times> string \<times> string) multiset"

definition no_metrics :: metrics where
  "no_metrics = \<lparr>mt_requestDuration = {#}, mt_requestTotal = {#}\<rparr>"

text \<open>Creating the instruments can fail; \<open>Inr ()\<close> stands for an instrument without entries.\<close>

definition newMetrics :: "err + unit \<Rightarrow> err + unit \<Rightarrow> err + metrics" where
  "newMetrics histogram counter =
     (case histogram of Inl e \<Rightarrow> Inl e | Inr _ \<Rightarrow> (case counter of Inl e \<Rightarrow> Inl e | Inr _ \<Rightarrow> Inr no_metrics))"

definition RecordRequest :: "metrics option \<Rightarrow> string \<Rightarrow> string \<Rightarrow> int \<Rightarrow> bool \<Rightarrow> metrics option" where
  "RecordRequest m webhook operation d success =
     (case m of None \<Rightarrow> None
      | Some mt \<Rightarrow>
          (let outcome1 = (if \<not> success then ''error'' else ''success'') in
           Some (mt\<lparr>mt_requestDuration := add_mset (webhook, operation, d) (mt_requestDuration mt),
                    mt_requestTotal := add_mset (webhook, operation, outcome1) (mt_requestTotal mt)\<rparr>)))"

section \<open>The webhooks with their metrics\<close>

text \<open>
  The deferred function of \<open>ServeHTTP\<close> records the request however it ends, a panic included; \<open>d\<close> is the
  duration the clock gives.
\<close>

definition conversion_success :: "(http_reply \<times> bool) outcome \<Rightarrow> bool" where
  "conversion_success r = (case r of Ok (reply, success) \<Rightarrow> success | _ \<Rightarrow> False)"

definition serve_conversion ::
  "conversion_env \<Rightarrow> string \<Rightarrow> int \<Rightarrow> metrics option \<Rightarrow> (http_reply \<times> bool) outcome \<times> metrics option" where
  "serve_conversion V body d m =
     (let r = ServeHTTP V body in (r, RecordRequest m ''conversion'' ''convert'' d (conversion_success r)))"

text \<open>The handler succeeds when it patches.\<close>

definition admission_success :: "admission_response outcome \<Rightarrow> bool" where
  "admission_success r = (case r of Ok (Patched msg ops) \<Rightarrow> True | _ \<Rightarrow> False)"

definition serve_admission ::
  "'s env \<Rightarrow> webhook_env \<Rightarrow> admission_request \<Rightarrow> int \<Rightarrow> metrics option \<Rightarrow> 's world \<Rightarrow>
   (admission_response outcome \<times> 's world) \<times> metrics option" where
  "serve_admission E W req d m w =
     (let operation = (if aq_operation req = '''' then ''unknown'' else aq_operation req); r = Handle E W req w
      in (r, RecordRequest m ''mutating'' operation d (admission_success (fst r))))"

text \<open>A series of conversion requests, each with its duration.\<close>

fun serve_conversions :: "conversion_env \<Rightarrow> (string \<times> int) list \<Rightarrow> metrics option \<Rightarrow> metrics option" where
  "serve_conversions V [] m = m"
| "serve_conversions V ((body, d) # reqs) m = serve_conversions V reqs (snd (serve_conversion V body d m))"

fun serve_admissions ::
  "'s env \<Rightarrow> webhook_env \<Rightarrow> (admission_request \<times> int) list \<Rightarrow> 's world \<Rightarrow> metrics option \<Rightarrow> 's world \<times> metrics option" where
  "serve_admissions E W [] w m = (w, m)"
| "serve_admissions E W ((req, d) # reqs) w m =
     (case serve_admission E W req d m w of ((r, w1), m1) \<Rightarrow> serve_admissions E W reqs w1 m1)"

section \<open>Every request is counted once\<close>

lemma serve_conversions_off: "serve_conversions V reqs None = None"
  by (induction V reqs "None :: metrics option" rule: serve_conversions.induct)
    (auto simp: serve_conversion_def RecordRequest_def)

lemma serve_conversions_counts:
  "\<exists>mt2. serve_conversions V reqs (Some mt) = Some mt2 \<and>
     mt_requestTotal mt2 = mt_requestTotal mt +
       {#(''conversion'', ''convert'', if conversion_success (ServeHTTP V (fst q)) then ''success'' else ''error''). q \<in># mset reqs#} \<and>
     mt_requestDuration mt2 = mt_requestDuration mt + {#(''conversion'', ''convert'', snd q). q \<in># mset reqs#}"
proof (induction reqs arbitrary: mt)
  case (Cons q reqs)
  let ?mt = "mt\<lparr>mt_requestDuration := add_mset (''conversion'', ''convert'', snd q) (mt_requestDuration mt),
    mt_requestTotal := add_mset (''conversion'', ''convert'',
      if conversion_success (ServeHTTP V (fst q)) then ''success'' else ''error'') (mt_requestTotal mt)\<rparr>"
  have "serve_conversions V (q # reqs) (Some mt) = serve_conversions V reqs (Some ?mt)"
    by (cases q) (simp add: serve_conversion_def RecordRequest_def Let_def)
  with Cons.IH [of ?mt] show ?case by simp
qed simp

text \<open>What the admissions came to: the operation and whether they ended in a patch.\<close>

fun admission_log :: "'s env \<Rightarrow> webhook_env \<Rightarrow> (admission_request \<times> int) list \<Rightarrow> 's world \<Rightarrow> (string \<times> bool) list" where
  "admission_log E W [] w = []"
| "admission_log E W ((req, d) # reqs) w =
     (case Handle E W req w of (r, w1) \<Rightarrow>
        (if aq_operation req = '''' then ''unknown'' else aq_operation req, admission_success r) #
        admission_log E W reqs w1)"

lemma admission_log_length [simp]: "length (admission_log E W reqs w) = length reqs"
  by (induction E W reqs w rule: admission_log.induct) (auto split: prod.split)

lemma serve_admissions_counts:
  "\<exists>mt2. snd (serve_admissions E W reqs w (Some mt)) = Some mt2 \<and>
     mt_requestTotal mt2 = mt_requestTotal mt +
       {#(''mutating'', fst q, if snd q then ''success'' else ''error''). q \<in># mset (admission_log E W reqs w)#} \<and>
     size (mt_requestDuration mt2) = size (mt_requestDuration mt) + length reqs"
proof (induction reqs arbitrary: mt w)
  case (Cons q reqs)
  obtain req d where q: "q = (req, d)" by (cases q)
  obtain r w1 where h: "Handle E W req w = (r, w1)" by fastforce
  let ?oper = "if aq_operation req = '''' then ''unknown'' else aq_operation req"
  let ?mt = "mt\<lparr>mt_requestDuration := add_mset (''mutating'', ?oper, d) (mt_requestDuration mt),
    mt_requestTotal := add_mset (''mutating'', ?oper, if admission_success r then ''success'' else ''error'') (mt_requestTotal mt)\<rparr>"
  have "serve_admissions E W (q # reqs) w (Some mt) = serve_admissions E W reqs w1 (Some ?mt)"
    by (simp add: q h serve_admission_def RecordRequest_def Let_def)
  with Cons.IH [of w1 ?mt] show ?case by (simp add: q h)
qed simp

text \<open>A conversion that was read, converted and written, under the request's UID.\<close>

definition conversion_written :: "conversion_env \<Rightarrow> string \<Rightarrow> bool" where
  "conversion_written V body \<longleftrightarrow> (\<exists>review q resp txt. vc_DecodeReview V body = Inr review \<and> cv_request review = Some q \<and>
     handleConvertRequest V (Some q) = Ok resp \<and> vr_uid resp = vq_uid q \<and>
     vc_EncodeReview V (review\<lparr>cv_response := Some resp, cv_request := None\<rparr>) = Inr txt)"

lemma conversion_success_iff: "conversion_success (ServeHTTP V body) \<longleftrightarrow> conversion_written V body"
proof -
  have "conversion_success (ServeHTTP V body) \<longleftrightarrow> (\<exists>r. ServeHTTP V body = Ok (r, True))"
    by (auto simp: conversion_success_def split: outcome.splits)
  then show ?thesis unfolding ServeHTTP_success conversion_written_def by blast
qed

lemma count_labelled:
  "count {#(a, b, if P q then ''success'' else ''error''). q \<in># mset qs#} (a, b, ''success'') = length (filter P qs)"
  by (induction qs) auto

lemma size_labelled:
  "size {#x \<in># {#(a, f q, if P q then ''success'' else ''error''). q \<in># mset qs#}. snd (snd x) = ''success''#} = length (filter P qs)"
  by (induction qs) auto


section \<open>Log lines\<close>

text \<open>
  An attribute of a log record; \<open>LTime\<close> holds a time. Groups are the names of the enclosing attributes.
\<close>

datatype log_value = LTime int | LString string | LOther gval

type_synonym log_attr = "string \<times> log_value"

text \<open>
  \<open>ReplaceAttr\<close>: the top-level \<open>time\<close> becomes \<open>timestamp\<close>, in text. \<open>Value.Time\<close> panics on anything but a time.
\<close>

definition replaceAttr :: "(int \<Rightarrow> string) \<Rightarrow> string list \<Rightarrow> log_attr \<Rightarrow> log_attr outcome" where
  "replaceAttr fmt groups a =
     (if length groups = 0 \<and> fst a = ''time''
      then (case snd a of LTime t \<Rightarrow> Ok (''timestamp'', LString (fmt t)) | _ \<Rightarrow> Panic ''Value kind is not Time'')
      else Ok a)"

fun replace_all :: "(int \<Rightarrow> string) \<Rightarrow> log_attr list \<Rightarrow> log_attr list outcome" where
  "replace_all fmt [] = Ok []"
| "replace_all fmt (a # as) =
     (case replaceAttr fmt [] a of
        Ok b \<Rightarrow> (case replace_all fmt as of Ok bs \<Rightarrow> Ok (b # bs) | Err e \<Rightarrow> Err e | Panic s \<Rightarrow> Panic s)
      | Err e \<Rightarrow> Err e | Panic s \<Rightarrow> Panic s)"

definition ServiceName :: string where "ServiceName = ''core-provider''"

text \<open>
  One line of the handler: what the JSON handler emits for a record, the built-in attributes first, then those
  of the handler, then those of the call.
\<close>

definition json_line :: "(int \<Rightarrow> string) \<Rightarrow> int \<Rightarrow> string \<Rightarrow> string \<Rightarrow> log_attr list \<Rightarrow> log_attr list outcome" where
  "json_line fmt t level msg attrs =
     replace_all fmt ([(''time'', LTime t), (''level'', LString level), (''msg'', LString msg)] @
       [(''service'', LString ServiceName)] @ attrs)"

lemma replace_all_Ok:
  "(\<forall>a \<in> set as. fst a \<noteq> ''time'') \<Longrightarrow> replace_all fmt as = Ok as"
  by (induction as) (auto simp: replaceAttr_def)

lemma json_line_fields:
  "\<forall>a \<in> set attrs. fst a \<noteq> ''time'' \<Longrightarrow> json_line fmt t level msg attrs =
     Ok ([(''timestamp'', LString (fmt t)), (''level'', LString level), (''msg'', LString msg),
          (''service'', LString ServiceName)] @ attrs)"
  by (simp add: json_line_def replaceAttr_def replace_all_Ok)

text \<open>An attribute of the call that is itself named \<open>time\<close> is taken for the time of the record.\<close>

lemma json_line_time_attr:
  "\<exists>s. json_line fmt t level msg [(''time'', LString v)] = Panic s"
  "json_line fmt t level msg [(''time'', LTime u)] =
     Ok [(''timestamp'', LString (fmt t)), (''level'', LString level), (''msg'', LString msg),
       (''service'', LString ServiceName), (''timestamp'', LString (fmt u))]"
  by (simp_all add: json_line_def replaceAttr_def)

section \<open>The logger of a context\<close>

text \<open>A context is a chain of keyed values; \<open>LoggerKey\<close> is the key of this package.\<close>

datatype ctx_key = LoggerKey | OtherKey string
datatype 'l ctx_value = LoggerValue 'l | OtherValue gval

type_synonym 'l ctx = "(ctx_key \<times> 'l ctx_value) list"

definition CtxWithLogger :: "'l ctx \<Rightarrow> 'l \<Rightarrow> 'l ctx" where
  "CtxWithLogger c l = (LoggerKey, LoggerValue l) # c"

definition LoggerFromCtx :: "'l ctx \<Rightarrow> 'l \<Rightarrow> 'l" where
  "LoggerFromCtx c fallback =
     (case map_of c LoggerKey of Some (LoggerValue l) \<Rightarrow> l | _ \<Rightarrow> fallback)"

lemma LoggerFromCtx_set: "LoggerFromCtx ((OtherKey k, v) # CtxWithLogger c l) fallback = l"
  by (simp add: LoggerFromCtx_def CtxWithLogger_def)

end
