(* ===== verification/Archive.thy ===== *)
theory Archive
  imports Chart
begin

text \<open>
  Chart archives as the file system view holds them: references always resolve, whatever the archive and
  however it is viewed; and which archives count as a chart, that is, have exactly one root directory.
\<close>

section \<open>Every reference resolves\<close>

text \<open>Nodes are addressed by position; a view is well formed when all addresses are positions of the store.\<close>

definition wf_node :: "nat \<Rightarrow> dir_entry \<Rightarrow> bool" where
  "wf_node n e \<longleftrightarrow> list_all (\<lambda>c. c < n) (de_children e)"

definition wf_tarfs :: "tarfs \<Rightarrow> bool" where
  "wf_tarfs t \<longleftrightarrow>
     list_all (wf_node (length (tf_nodes t))) (tf_nodes t) \<and>
     (\<forall>i. i \<in> ran (tf_entries t) \<longrightarrow> i < length (tf_nodes t)) \<and>
     list_all (\<lambda>i. i < length (tf_nodes t)) (tf_rootEntries t) \<and>
     pred_option (\<lambda>i. i < length (tf_nodes t)) (tf_rootEntry t)"

lemma wf_node_mono: "wf_node n e \<Longrightarrow> n \<le> m \<Longrightarrow> wf_node m e"
  by (auto simp: wf_node_def list_all_iff)

lemma wf_nodeD: "wf_tarfs t \<Longrightarrow> i < length (tf_nodes t) \<Longrightarrow> wf_node (length (tf_nodes t)) (tf_nodes t ! i)"
  by (simp add: wf_tarfs_def list_all_length)

lemma wf_entryD: "wf_tarfs t \<Longrightarrow> tf_entries t name = Some i \<Longrightarrow> i < length (tf_nodes t)"
  by (auto simp: wf_tarfs_def intro: ranI)

lemma wf_empty: "wf_tarfs empty_tarfs"
  by (simp add: wf_tarfs_def empty_tarfs_def)

lemma wf_new_node:
  assumes "wf_tarfs t" "new_node e t = (i, t1)" "de_children e = []"
  shows "wf_tarfs t1 \<and> i < length (tf_nodes t1) \<and> length (tf_nodes t1) = Suc (length (tf_nodes t))"
  using assms wf_node_mono
  by (cases "tf_rootEntry t") (fastforce simp: wf_tarfs_def new_node_def list_all_iff wf_node_def)+

lemma wf_register: "wf_tarfs t \<Longrightarrow> i < length (tf_nodes t) \<Longrightarrow> wf_tarfs (t\<lparr>tf_entries := (tf_entries t)(name \<mapsto> i)\<rparr>)"
  by (auto simp: wf_tarfs_def ran_def)

lemma wf_add_child:
  assumes "wf_tarfs t" "p < length (tf_nodes t)" "c < length (tf_nodes t)"
  shows "wf_tarfs (add_child p c t)"
proof -
  have "wf_node (length (tf_nodes t)) (de_append c (tf_nodes t ! p))"
    using wf_nodeD [OF assms(1,2)] assms(3) by (cases "tf_nodes t ! p") (auto simp: wf_node_def)
  with assms show ?thesis
    by (auto simp: wf_tarfs_def add_child_def list_all_length nth_list_update)
qed

lemma nodes_add_child [simp]: "length (tf_nodes (add_child p c t)) = length (tf_nodes t)"
  "tf_rootEntries (add_child p c t) = tf_rootEntries t"
  by (simp_all add: add_child_def)

lemma wf_tar_append:
  "wf_tarfs t \<Longrightarrow> e < length (tf_nodes t) \<Longrightarrow>
   wf_tarfs (tar_append t name e) \<and> length (tf_nodes t) \<le> length (tf_nodes (tar_append t name e))"
proof (induction t name e rule: tar_append.induct)
  case (1 t name e)
  let ?t1 = "t\<lparr>tf_entries := (tf_entries t)(name \<mapsto> e)\<rparr>"
  have t1: "wf_tarfs ?t1" using wf_register 1(2,3) .
  consider "Dir name = ''.''" | p where "Dir name \<noteq> ''.''" "tf_entries ?t1 (Dir name) = Some p"
    | "Dir name \<noteq> ''.''" "tf_entries ?t1 (Dir name) = None" by fastforce
  then show ?case
  proof cases
    case 1
    with t1 \<open>e < length (tf_nodes t)\<close> show ?thesis
      by (simp add: tar_append.simps [of t name] Let_def wf_tarfs_def)
  next
    case (2 p)
    with t1 wf_entryD [OF t1 2(2)] \<open>e < length (tf_nodes t)\<close> show ?thesis
      by (simp add: tar_append.simps [of t name] Let_def wf_add_child)
  next
    case 3
    obtain q t2 where n: "new_node (FakeDir (Base (Dir name)) []) ?t1 = (q, t2)" by fastforce
    from wf_new_node [OF t1 n] have t2: "wf_tarfs t2" "q < length (tf_nodes t2)"
      "length (tf_nodes t2) = Suc (length (tf_nodes t))" by simp_all
    from 1(1) [OF refl refl 3 n [symmetric] t2(1,2)] t2(2,3) 1(3) 3 n show ?thesis
      by (simp add: tar_append.simps [of t name] Let_def wf_add_child)
  qed
qed

lemma wf_tar_load: "wf_tarfs t \<Longrightarrow> wf_tarfs (tar_load t hs)"
proof (induction t hs rule: tar_load.induct)
  case (2 t hname isdir content hs)
  show ?case
  proof (cases "Clean hname = ''.''")
    case False
    obtain e t1 where n: "new_node (Entry hname isdir content []) t = (e, t1)" by fastforce
    from wf_new_node [OF 2(3) n] wf_tar_append [of t1 e "Clean hname"] have "wf_tarfs (tar_append t1 (Clean hname) e)" by simp
    from 2(2) [OF refl False n [symmetric] this] False n show ?thesis by (simp add: Let_def)
  qed (use 2 in simp)
qed simp

lemma set_insert_by_name: "set (insert_by_name t x ys) = insert x (set ys)"
  by (induction ys) auto

lemma set_sort_by_name [simp]: "set (sort_by_name t xs) = set xs"
  by (induction xs) (auto simp: sort_by_name_def set_insert_by_name)

lemma wf_ReadDir:
  assumes "wf_tarfs t"
  shows "wf_tarfs (snd (ReadDir t name)) \<and> length (tf_nodes (snd (ReadDir t name))) = length (tf_nodes t) \<and>
    (\<forall>es. fst (ReadDir t name) = Inr es \<longrightarrow> list_all (\<lambda>i. i < length (tf_nodes t)) es)"
proof (cases "name = ''.''")
  case True
  then show ?thesis using assms by (simp add: ReadDir_def wf_tarfs_def)
next
  case False
  show ?thesis
  proof (cases "tar_get t name ''readdir''")
    case (Inr e)
    then have e: "e < length (tf_nodes t)"
      using wf_entryD [OF assms] by (auto simp: tar_get_def split: option.splits if_splits)
    let ?es = "sort_by_name t (de_children (tf_nodes t ! e))"
    have ch: "list_all (\<lambda>i. i < length (tf_nodes t)) ?es"
      using wf_nodeD [OF assms e] by (simp add: wf_node_def list_all_iff)
    then have "wf_node (length (tf_nodes t)) (de_with_children ?es (tf_nodes t ! e))"
      by (cases "tf_nodes t ! e") (simp_all add: wf_node_def)
    with assms ch e False Inr show ?thesis
      by (auto simp: ReadDir_def Let_def wf_tarfs_def list_all_length nth_list_update)
  qed (use assms False in \<open>simp add: ReadDir_def\<close>)
qed

lemma wf_Sub:
  assumes wf: "wf_tarfs t" and sub: "Sub t dir = Inr t2"
  shows "wf_tarfs t2"
proof (cases "dir = ''.''")
  case False
  with sub obtain e where e: "tf_entries t dir = Some e"
    and t2: "t2 = t\<lparr>tf_entries := (\<lambda>name. tf_entries t (dir @ ''/'' @ name)),
        tf_rootEntries := de_children (tf_nodes t ! e), tf_rootEntry := Some e\<rparr>"
    by (auto simp: Sub_def tar_get_def split: if_splits option.splits)
  note lt = wf_entryD [OF wf e]
  from wf_nodeD [OF wf lt] lt wf_entryD [OF wf] wf show ?thesis
    unfolding t2 by (simp add: wf_tarfs_def wf_node_def ran_def) blast
qed (use assms in \<open>simp add: Sub_def\<close>)

text \<open>The views a program can hold of an archive: as read, after listing a directory, below a directory.\<close>

inductive archive_view :: "'s env \<Rightarrow> string \<Rightarrow> tarfs \<Rightarrow> bool" for E r where
  view_read: "New E r = Inr t \<Longrightarrow> archive_view E r t"
| view_listed: "archive_view E r t \<Longrightarrow> archive_view E r (snd (ReadDir t name))"
| view_below: "archive_view E r t \<Longrightarrow> Sub t dir = Inr t2 \<Longrightarrow> archive_view E r t2"

lemma archive_view_wf: "archive_view E r t \<Longrightarrow> wf_tarfs t"
proof (induction rule: archive_view.induct)
  case (view_read t)
  then show ?case by (auto simp: New_def wf_tar_load wf_empty split: sum.splits)
qed (use wf_ReadDir wf_Sub in blast)+



section \<open>Archives with one root directory\<close>

text \<open>A cleaned name inside the directory \<open>d\<close>: its elements are plain names and the first one is \<open>d\<close>.\<close>

definition inside :: "string \<Rightarrow> string \<Rightarrow> bool" where
  "inside d name \<longleftrightarrow> hd (split_on slash name) = d \<and> list_all plain_name (split_on slash name)"

lemma join_last: "ps \<noteq> [] \<Longrightarrow> join_with c (ps @ [n]) = join_with c ps @ c # n"
  by (induction c ps rule: join_with.induct) auto

lemma clean_parts_plain:
  "list_all plain_name ps \<Longrightarrow> clean_parts rooted stack (ps @ qs) = clean_parts rooted (rev ps @ stack) qs"
  by (induction ps arbitrary: stack) (auto simp: plain_name_def)

lemma not_rooted_plain: "ps \<noteq> [] \<Longrightarrow> list_all plain_name ps \<Longrightarrow> \<not> is_rooted (join_with slash ps @ s)"
  by (cases ps; cases "hd ps"; cases "tl ps") (auto simp: is_rooted_def plain_name_def)

lemma plain_no_slash: "list_all plain_name ps \<Longrightarrow> p \<in> set ps \<Longrightarrow> slash \<notin> set p"
  by (auto simp: list_all_iff plain_name_def)

lemma split_plain: "ps \<noteq> [] \<Longrightarrow> list_all plain_name ps \<Longrightarrow> split_on slash (join_with slash ps) = ps"
  by (rule split_join) (auto dest: plain_no_slash)

lemma Clean_plain_dir: "ps \<noteq> [] \<Longrightarrow> list_all plain_name ps \<Longrightarrow> Clean (join_with slash ps @ [slash]) = join_with slash ps"
  by (simp add: Clean_def Let_def split_on_snoc split_plain clean_parts_plain not_rooted_plain)

lemma dir_prefix_slash: "slash \<notin> set n \<Longrightarrow> dir_prefix (s @ slash # n) = s @ [slash]"
proof -
  assume "slash \<notin> set n"
  then have "dropWhile (\<lambda>c. c \<noteq> slash) (rev n @ slash # rev s) = slash # rev s"
    by (subst dropWhile_append2) auto
  then show ?thesis by (simp add: dir_prefix_def)
qed

lemma Dir_inside:
  assumes "inside d name"
  shows "(name = d \<and> Dir name = ''.'') \<or> 
    (name \<noteq> d \<and> Dir name \<noteq> ''.'' \<and> inside d (Dir name) \<and> length (Dir name) < length name)"
proof -
  obtain ps where ps: "split_on slash name = d # ps" "list_all plain_name (d # ps)"
    using assms unfolding inside_def by (cases "split_on slash name") auto
  have name: "name = join_with slash (d # ps)" using join_split [of slash name] ps(1) by simp
  show ?thesis
  proof (cases ps rule: rev_cases)
    case Nil
    have "slash \<notin> set d" using ps(2) by (simp add: plain_name_def)
    then have "dir_prefix d = ''''" by (auto simp: dir_prefix_def)
    with Nil name show ?thesis by (simp add: Dir_def)
  next
    case (snoc qs n)
    let ?dir = "join_with slash (d # qs)"
    have plain: "list_all plain_name (d # qs)" "slash \<notin> set n" using ps(2) snoc by (auto simp: plain_name_def)
    have "name = ?dir @ slash # n"
      using join_last [of "d # qs" slash n] name snoc by simp
    then have dir: "Dir name = ?dir" and lt: "length ?dir < length name"
      using plain Clean_plain_dir [of "d # qs"] by (simp_all add: Dir_def dir_prefix_slash)
    have split: "split_on slash ?dir = d # qs" by (rule split_plain) (use plain in simp_all)
    have "?dir \<noteq> ''.''"
    proof
      assume "?dir = ''.''"
      with split have "d # qs = [''.'']" by (simp add: slash_def)
      with plain(1) show False by (simp add: plain_name_def)
    qed
    moreover have "name \<noteq> d" using ps snoc by (auto simp: plain_name_def split_on_no_sep)
    ultimately show ?thesis using dir lt split plain(1) by (simp add: inside_def)
  qed
qed

lemma Base_plain: "plain_name d \<Longrightarrow> Base d = d"
proof -
  assume d: "plain_name d"
  then have "rev d \<noteq> []" "hd (rev d) \<noteq> slash" "slash \<notin> set d"
    by (auto simp: plain_name_def hd_rev) (metis last_in_set)
  then have cut: "dropWhile (\<lambda>c. c = slash) (rev d) = rev d" "takeWhile (\<lambda>c. c \<noteq> slash) (rev d) = rev d"
    by (auto simp: dropWhile_eq_self_iff takeWhile_eq_all_conv)
  show ?thesis using d by (simp add: Base_def last_element_def plain_name_def cut)
qed

text \<open>The view has the directory \<open>d\<close> as its only root.\<close>

definition rooted_at :: "string \<Rightarrow> tarfs \<Rightarrow> bool" where
  "rooted_at d t \<longleftrightarrow> (\<exists>i < length (tf_nodes t). tf_rootEntries t = [i] \<and> tf_entries t d = Some i \<and>
     de_name (tf_nodes t ! i) = d)"

lemma de_name_append [simp]: "de_name (de_append c e) = de_name e"
  by (cases e) simp_all

lemma rooted_add_child [simp]: "rooted_at d (add_child p c t) = rooted_at d t"
proof -
  have "de_name (tf_nodes (add_child p c t) ! i) = de_name (tf_nodes t ! i)" if "i < length (tf_nodes t)" for i
    using that by (cases "i = p") (simp_all add: add_child_def)
  then show ?thesis by (auto simp: rooted_at_def)
qed

lemma rooted_register: "rooted_at d t \<Longrightarrow> name \<noteq> d \<Longrightarrow> rooted_at d (t\<lparr>tf_entries := (tf_entries t)(name \<mapsto> e)\<rparr>)"
  by (simp add: rooted_at_def)

lemma rooted_new_node: "new_node e t = (i, t1) \<Longrightarrow> rooted_at d t \<Longrightarrow> rooted_at d t1"
  by (auto simp: rooted_at_def new_node_def nth_append)

lemma tar_append_rooted:
  "inside d name \<Longrightarrow> name \<noteq> d \<Longrightarrow> rooted_at d t \<Longrightarrow> rooted_at d (tar_append t name e)"
proof (induction t name e rule: tar_append.induct)
  case (1 t name e)
  let ?t1 = "t\<lparr>tf_entries := (tf_entries t)(name \<mapsto> e)\<rparr>"
  have t1: "rooted_at d ?t1" using rooted_register 1(4,3) .
  have dir: "Dir name \<noteq> ''.''" "inside d (Dir name)" using Dir_inside [OF 1(2)] 1(3) by simp_all
  show ?case
  proof (cases "tf_entries ?t1 (Dir name)")
    case (Some p)
    with t1 dir show ?thesis by (simp add: tar_append.simps [of t name] Let_def)
  next
    case None
    obtain q t2 where n: "new_node (FakeDir (Base (Dir name)) []) ?t1 = (q, t2)" by fastforce
    have "Dir name \<noteq> d"
    proof
      assume "Dir name = d"
      with None t1 show False unfolding rooted_at_def by (metis option.distinct(1))
    qed
    from 1(1) [OF refl refl dir(1) None n [symmetric] dir(2) this rooted_new_node [OF n t1]] None dir n show ?thesis
      by (simp add: tar_append.simps [of t name] Let_def)
  qed
qed

text \<open>The first entry makes its root: itself, or a directory that the archive did not name.\<close>

lemma tar_append_first:
  "inside d name \<Longrightarrow> plain_name d \<Longrightarrow> tf_rootEntries t = [] \<Longrightarrow>
   (\<And>n. length n \<le> length name \<Longrightarrow> tf_entries t n = None) \<Longrightarrow> e < length (tf_nodes t) \<Longrightarrow>
   (name = d \<Longrightarrow> de_name (tf_nodes t ! e) = d) \<Longrightarrow> rooted_at d (tar_append t name e)"
proof (induction t name e rule: tar_append.induct)
  case (1 t name e)
  let ?t1 = "t\<lparr>tf_entries := (tf_entries t)(name \<mapsto> e)\<rparr>"
  show ?case
  proof (cases "name = d")
    case True
    then have "Dir name = ''.''" using Dir_inside [OF 1(2)] by simp
    then have "tar_append t name e = ?t1\<lparr>tf_rootEntries := [e]\<rparr>"
      using 1(4) by (simp add: tar_append.simps [of t name] Let_def)
    with True 1(6,7) show ?thesis by (simp add: rooted_at_def)
  next
    case False
    have dir: "Dir name \<noteq> ''.''" "inside d (Dir name)" and shorter: "length (Dir name) < length name"
      using Dir_inside [OF 1(2)] False by simp_all
    have none: "tf_entries ?t1 (Dir name) = None" using 1(5) shorter by auto
    obtain q t2 where n: "new_node (FakeDir (Base (Dir name)) []) ?t1 = (q, t2)" by fastforce
    have t2: "tf_rootEntries t2 = []" "tf_entries t2 = tf_entries ?t1" "q < length (tf_nodes t2)"
      "tf_nodes t2 ! q = FakeDir (Base (Dir name)) []"
      using n 1(4) by (auto simp: new_node_def)
    have "rooted_at d (tar_append t2 (Dir name) q)"
      by (rule 1(1) [OF refl refl dir(1) none n [symmetric] dir(2) 1(3) t2(1) _ t2(3)])
        (use shorter 1(3,5) t2 Base_plain in auto)
    with none dir n show ?thesis by (simp add: tar_append.simps [of t name] Let_def)
  qed
qed

text \<open>
  The headers lie in one directory: every name cleans to a path inside \<open>d\<close>, and \<open>d\<close> itself, if it has a
  header, is a directory and comes before everything inside it. \<open>started\<close>: something came already.
\<close>

fun one_dir :: "string \<Rightarrow> bool \<Rightarrow> tar_header list \<Rightarrow> bool" where
  "one_dir d started [] = started"
| "one_dir d started ((hname, isdir, content) # hs) =
     (if Clean hname = ''.'' then one_dir d started hs
      else if Clean hname = d then isdir \<and> \<not> started \<and> one_dir d True hs
      else inside d (Clean hname) \<and> one_dir d True hs)"

lemma inside_self: "plain_name d \<Longrightarrow> inside d d"
  by (simp add: inside_def split_on_no_sep plain_name_def)

lemma tar_load_rooted:
  "plain_name d \<Longrightarrow> one_dir d started hs \<Longrightarrow>
   (if started then rooted_at d t else t = empty_tarfs) \<Longrightarrow> rooted_at d (tar_load t hs)"
proof (induction d started hs arbitrary: t rule: one_dir.induct)
  case (2 d started hname isdir content hs)
  show ?case
  proof (cases "Clean hname = ''.''")
    case False
    obtain e t1 where n: "new_node (Entry hname isdir content []) t = (e, t1)" by fastforce
    have nd: "inside d (Clean hname)" using 2(4,5) False inside_self by (auto split: if_splits)
    have one: "one_dir d True hs" using 2(5) False by (auto split: if_splits)
    have "rooted_at d (tar_append t1 (Clean hname) e)"
    proof (cases started)
      case True
      with 2(5) False have "Clean hname \<noteq> d" by auto
      with tar_append_rooted [OF nd] rooted_new_node [OF n] 2(6) True show ?thesis by simp
    next
      case started: False
      with 2(6) n have t1: "tf_rootEntries t1 = []" "tf_entries t1 = (\<lambda>_. None)" "e < length (tf_nodes t1)"
          "tf_nodes t1 ! e = Entry hname isdir content []"
        by (auto simp: new_node_def empty_tarfs_def)
      have "de_name (tf_nodes t1 ! e) = d" if "Clean hname = d"
        using that 2(5) False t1(4) Base_plain [OF 2(4)] by simp
      with t1 show ?thesis by (intro tar_append_first [OF nd 2(4)]) auto
    qed
    then have "rooted_at d (tar_load (tar_append t1 (Clean hname) e) hs)"
      using 2(2) [OF False] 2(3) [OF False] 2(4) one by auto
    with False n show ?thesis by (simp add: Let_def)
  qed (use 2 in simp)
qed simp

text \<open>Roots are only added.\<close>

lemma roots_append: "\<exists>xs. tf_rootEntries (tar_append t name e) = tf_rootEntries t @ xs"
proof (induction t name e rule: tar_append.induct)
  case (1 t name e)
  then show ?case
    by (subst tar_append.simps) (fastforce simp: Let_def new_node_def split: option.split)
qed

lemma roots_load: "\<exists>xs. tf_rootEntries (tar_load t hs) = tf_rootEntries t @ xs"
proof (induction t hs rule: tar_load.induct)
  case (2 t hname isdir content hs)
  show ?case
  proof (cases "Clean hname = ''.''")
    case False
    obtain e t1 where n: "new_node (Entry hname isdir content []) t = (e, t1)" by fastforce
    obtain xs ys where "tf_rootEntries (tar_append t1 (Clean hname) e) = tf_rootEntries t1 @ xs"
      and "tf_rootEntries (tar_load (tar_append t1 (Clean hname) e) hs) =
        tf_rootEntries (tar_append t1 (Clean hname) e) @ ys"
      using roots_append 2(2) [OF refl False n [symmetric]] by blast
    moreover have "tf_rootEntries t1 = tf_rootEntries t" using n by (auto simp: new_node_def)
    ultimately show ?thesis using False n by (simp add: Let_def)
  qed (use 2 in simp)
qed simp

lemma Dir_plain: "plain_name d \<Longrightarrow> Dir d = ''.''"
  using Dir_inside [OF inside_self] by blast

lemma tar_load_second_root:
  assumes "plain_name d" "rooted_at d t" "Clean hname = d"
  shows "length (tf_rootEntries (tar_load t ((hname, isdir, content) # post))) \<ge> 2"
proof -
  obtain e t1 where n: "new_node (Entry hname isdir content []) t = (e, t1)" by fastforce
  have "d \<noteq> ''.''" using assms(1) by (simp add: plain_name_def)
  moreover have "tf_rootEntries (tar_append t1 d e) = tf_rootEntries t @ [e]"
    using n Dir_plain [OF assms(1)] by (auto simp: tar_append.simps [of t1] Let_def new_node_def)
  ultimately show ?thesis
    using n assms(2,3) roots_load [of "tar_append t1 d e" post] by (auto simp: Let_def rooted_at_def)
qed

lemma one_dir_accepted:
  assumes "env_untar E r = Inr hs" and "plain_name d" and "one_dir d False hs"
  shows "\<exists>t. New E r = Inr t \<and> ChartInfoFromBytes E r = Inr (t, d)"
  using tar_load_rooted [OF assms(2,3), of empty_tarfs] assms(1)
  by (auto simp: New_def ChartInfoFromBytes_def ReadDir_def rooted_at_def)

lemma late_dir_refused:
  assumes "env_untar E r = Inr (pre @ (hname, isdir, content) # post)" and "plain_name d"
    and "one_dir d False pre" and "Clean hname = d"
  shows "ChartInfoFromBytes E r = Inl one_root"
proof -
  have "length (tf_rootEntries (tar_load empty_tarfs (pre @ (hname, isdir, content) # post))) \<ge> 2"
    using tar_load_second_root [OF assms(2) tar_load_rooted [OF assms(2,3), of empty_tarfs] assms(4)]
    by (simp only: tar_load_append) simp
  then show ?thesis using assms(1) by (auto simp: New_def ChartInfoFromBytes_def ReadDir_def)
qed

text \<open>
  C35: What counts as the archive of a chart. An archive of files below one directory \<open>d\<close>, whether it names
  \<open>d\<close> and the directories below or not, is accepted with \<open>d\<close> as its directory, as long as a header of \<open>d\<close>
  itself is a directory and the first. A header of \<open>d\<close> that comes after something inside it makes a second
  root beside the implied one, and the whole archive is refused, whatever follows.
\<close>

theorem chart_archive_root:
  assumes "env_untar E r = Inr hs" and "plain_name d"
  shows "(one_dir d False hs \<longrightarrow> (\<exists>t. New E r = Inr t \<and> ChartInfoFromBytes E r = Inr (t, d))) \<and>
    (\<forall>pre hname isdir content post. hs = pre @ (hname, isdir, content) # post \<longrightarrow> one_dir d False pre \<longrightarrow>
       Clean hname = d \<longrightarrow> ChartInfoFromBytes E r = Inl one_root)"
  using one_dir_accepted [OF assms] late_dir_refused [OF _ assms(2)] assms(1) by blast

theorem chart_archive_root_witness:
  "\<exists>t. New sample_env ''1.0.0'' = Inr t \<and> ChartInfoFromBytes sample_env ''1.0.0'' = Inr (t, ''chart'')"
proof -
  have "env_untar sample_env ''1.0.0'' = Inr [(''chart'', True, ''''), (''chart/Chart.yaml'', False, ''1.0.0''),
      (''chart/values.schema.json'', False, ''{}'')]" by (simp add: sample_env_def)
  moreover have "plain_name ''chart''" by code_simp
  moreover have "one_dir ''chart'' False [(''chart'', True, ''''), (''chart/Chart.yaml'', False, ''1.0.0''),
      (''chart/values.schema.json'', False, ''{}'')]" by code_simp
  ultimately show ?thesis using chart_archive_root by blast
qed

text \<open>The same files, the header of the directory last.\<close>

lemma late_directory_example:
  "ChartInfoFromBytes (sample_env\<lparr>env_untar := (\<lambda>b. Inr ([(''chart/Chart.yaml'', False, b)] @ (''chart/'', True, '''') # []))\<rparr>)
     ''1.0.0'' = Inl one_root"
proof -
  have "plain_name ''chart''" "one_dir ''chart'' False [(''chart/Chart.yaml'', False, ''1.0.0'')]"
    "Clean ''chart/'' = ''chart''" by code_simp+
  show ?thesis by (rule late_dir_refused [OF _ \<open>plain_name _\<close> \<open>one_dir _ _ _\<close> \<open>Clean _ = _\<close>]) simp
qed

end
