(* ===== verification/Copies.thy ===== *)
theory Copies
  imports Api_Types
begin

text \<open>
  \<open>zz_generated.deepcopy.go\<close>: copies of the API types in a store with pointers and shared arrays. Everywhere
  else the development treats a CompositionDefinition as a value; here is why that is right: a copy has the
  value of its original and shares nothing with it.
\<close>

section \<open>A store of structs and arrays\<close>

type_synonym addr = nat

text \<open>
  The structs as Go lays them out: a pointer or a slice is an address or nil, everything else is inline.
  (\<open>ObjectMeta\<close> with the labels as its only reference, \<open>ConditionedStatus\<close> with its array of conditions.)
\<close>

record chart_struct =
  hc_url :: string
  hc_version :: string
  hc_repo :: string
  hc_insecureSkipVerifyTLS :: bool
  hc_credentials :: "addr option"

record detail_struct =
  sd_version :: string
  sd_served :: bool
  sd_stored :: bool
  sd_chart :: "addr option"

record managed_struct =
  sm_versionInfo :: "addr option"
  sm_group :: string
  sm_kind :: string

record status_struct =
  ss_conditions :: "addr option"
  ss_kind :: string
  ss_resource :: string
  ss_apiVersion :: string
  ss_managed :: managed_struct
  ss_packageURL :: string
  ss_digest :: string

record spec_struct =
  sp_chart :: "addr option"

record meta_struct =
  me_name :: string
  me_namespace :: string
  me_deleted :: bool
  me_labels :: "addr option"

record def_struct =
  df_meta :: meta_struct
  df_spec :: spec_struct
  df_status :: status_struct

record listmeta_struct =
  lm_resourceVersion :: string
  lm_continue :: string
  lm_remainingItemCount :: "addr option"

record list_struct =
  ls_meta :: listmeta_struct
  ls_items :: "addr option"

datatype cell =
    CredentialsCell credentials
  | ChartCell chart_struct
  | DetailsCell "detail_struct list"
  | ConditionsCell gval
  | LabelsCell "(string, string) fmap"
  | DetailCell detail_struct
  | ManagedCell managed_struct
  | StatusCell status_struct
  | SpecCell spec_struct
  | DefCell def_struct
  | DefsCell "def_struct list"
  | CountCell int
  | ListCell list_struct

type_synonym store = "cell list"

section \<open>What a copy promises\<close>

text \<open>
  \<open>val s x\<close> is the value that \<open>x\<close> stands for in the store \<open>s\<close>, \<open>None\<close> if a reference in it does not resolve.
  A copy only adds cells, and its value lies in the added cells: whatever is written to the others later,
  it stays what the original was.
\<close>

definition lives_in :: "nat \<Rightarrow> store \<Rightarrow> (store \<Rightarrow> 'a \<Rightarrow> 'v option) \<Rightarrow> 'a \<Rightarrow> 'v \<Rightarrow> bool" where
  "lives_in n s val x v \<longleftrightarrow> (\<forall>s2. length s \<le> length s2 \<longrightarrow>
     (\<forall>i. n \<le> i \<longrightarrow> i < length s \<longrightarrow> s2 ! i = s ! i) \<longrightarrow> val s2 x = Some v)"

lemma lives_inD:
  "lives_in n s val x v \<Longrightarrow> length s \<le> length s2 \<Longrightarrow> (\<And>i. n \<le> i \<Longrightarrow> i < length s \<Longrightarrow> s2 ! i = s ! i) \<Longrightarrow>
   val s2 x = Some v"
  unfolding lives_in_def by blast

lemma lives_in_now: "lives_in n s val x v \<Longrightarrow> val s x = Some v"
  unfolding lives_in_def by blast

text \<open>Living in fewer cells, in a longer store.\<close>

lemma lives_in_mono:
  assumes "lives_in m s val x v" "n \<le> m" "length s \<le> length s2" "\<And>i. m \<le> i \<Longrightarrow> i < length s \<Longrightarrow> s2 ! i = s ! i"
  shows "lives_in n s2 val x v"
  unfolding lives_in_def
proof (intro allI impI)
  fix s3
  assume "length s2 \<le> length s3" "\<forall>i. n \<le> i \<longrightarrow> i < length s2 \<longrightarrow> s3 ! i = s2 ! i"
  with assms(2-4) show "val s3 x = Some v" by (intro lives_inD [OF assms(1)]) auto
qed

locale deep_copier =
  fixes val :: "store \<Rightarrow> 'a \<Rightarrow> 'v option" and copy :: "'a \<Rightarrow> store \<Rightarrow> 'a \<times> store"
  assumes val_extends: "val s x = Some v \<Longrightarrow> val (s @ t) x = Some v"
    and copies: "val s x = Some v \<Longrightarrow> \<exists>y t. copy x s = (y, s @ t) \<and> lives_in (length s) (s @ t) val y v"
begin

text \<open>Both sides are safe from writes to the other.\<close>

lemma original_safe: "val s x = Some v \<Longrightarrow> take (length s) s2 = s \<Longrightarrow> val s2 x = Some v"
  using val_extends [of s x v "drop (length s) s2"] by (metis append_take_drop_id)

lemma copy_safe:
  assumes "val s x = Some v" "copy x s = (y, s1)" "length s1 \<le> length s2"
    and "\<And>i. length s \<le> i \<Longrightarrow> i < length s1 \<Longrightarrow> s2 ! i = s1 ! i"
  shows "val s2 y = Some v"
  using copies [OF assms(1)] assms(2-4) by (auto dest: lives_inD)

end

section \<open>New structs and arrays\<close>

text \<open>
  \<open>*out = new(T); (*in).DeepCopyInto(*out)\<close>, and the same with \<open>make\<close> and a loop for a slice: allocate, copy, write.
  A nil reference stays nil. (Go's types exclude a cell of another type.)
\<close>

definition new_copy ::
  "(cell \<Rightarrow> 'a option) \<Rightarrow> ('a \<Rightarrow> cell) \<Rightarrow> ('a \<Rightarrow> 'a) \<Rightarrow> ('a \<Rightarrow> store \<Rightarrow> 'a \<times> store) \<Rightarrow>
   addr option \<Rightarrow> store \<Rightarrow> addr option \<times> store" where
  "new_copy prj mk zero copy p s =
     (case p of None \<Rightarrow> (None, s)
      | Some a \<Rightarrow> (case prj (s ! a) of None \<Rightarrow> (None, s)
         | Some x \<Rightarrow> (case copy x (s @ [mk (zero x)]) of
             (y, s2) \<Rightarrow> (Some (length s), s2[length s := mk y]))))"

fun copy_each :: "('a \<Rightarrow> store \<Rightarrow> 'a \<times> store) \<Rightarrow> 'a list \<Rightarrow> store \<Rightarrow> 'a list \<times> store" where
  "copy_each copy [] s = ([], s)"
| "copy_each copy (x # xs) s =
     (case copy x s of (y, s1) \<Rightarrow> (case copy_each copy xs s1 of (ys, s2) \<Rightarrow> (y # ys, s2)))"

definition ref_val ::
  "(cell \<Rightarrow> 'a option) \<Rightarrow> (store \<Rightarrow> 'a \<Rightarrow> 'v option) \<Rightarrow> store \<Rightarrow> addr option \<Rightarrow> 'v option option" where
  "ref_val prj val s p =
     (case p of None \<Rightarrow> Some None
      | Some a \<Rightarrow> if a < length s
          then (case prj (s ! a) of None \<Rightarrow> None | Some x \<Rightarrow> map_option Some (val s x)) else None)"

fun each_val :: "(store \<Rightarrow> 'a \<Rightarrow> 'v option) \<Rightarrow> store \<Rightarrow> 'a list \<Rightarrow> 'v list option" where
  "each_val val s [] = Some []"
| "each_val val s (x # xs) =
     (case val s x of None \<Rightarrow> None | Some v \<Rightarrow> map_option ((#) v) (each_val val s xs))"

lemma ref_val_Some: "ref_val prj val s (Some a) = Some v \<longleftrightarrow>
  a < length s \<and> (\<exists>x w. prj (s ! a) = Some x \<and> val s x = Some w \<and> v = Some w)"
  by (auto simp: ref_val_def split: option.splits)

context deep_copier
begin

lemma ref_copier:
  assumes "\<And>x. prj (mk x) = Some x"
  shows "deep_copier (ref_val prj val) (new_copy prj mk zero copy)"
proof
  fix s p v t
  assume "ref_val prj val s p = Some v"
  then show "ref_val prj val (s @ t) p = Some v"
    by (cases p) (auto simp: ref_val_Some nth_append val_extends, simp add: ref_val_def)
next
  fix s p v
  assume v: "ref_val prj val s p = Some v"
  show "\<exists>q t. new_copy prj mk zero copy p s = (q, s @ t) \<and> lives_in (length s) (s @ t) (ref_val prj val) q v"
  proof (cases p)
    case None
    with v show ?thesis
      by (intro exI [of _ "None"] exI [of _ "[]"]) (simp add: new_copy_def ref_val_def lives_in_def)
  next
    case (Some a)
    with v obtain x w where a: "a < length s" "prj (s ! a) = Some x" "val s x = Some w" "v = Some w"
      by (auto simp: ref_val_Some)
    let ?s1 = "s @ [mk (zero x)]"
    obtain y t where y: "copy x ?s1 = (y, ?s1 @ t)" "lives_in (length ?s1) (?s1 @ t) val y w"
      using copies [OF val_extends [OF a(3)]] by blast
    let ?s2 = "s @ mk y # t"
    have new: "new_copy prj mk zero copy p s = (Some (length s), ?s2)"
      using Some a y(1) by (simp add: new_copy_def list_update_append)
    have "lives_in (length s) ?s2 (ref_val prj val) (Some (length s)) v"
      unfolding lives_in_def
    proof (intro allI impI)
      fix s3
      assume s3: "length ?s2 \<le> length s3" "\<forall>i. length s \<le> i \<longrightarrow> i < length ?s2 \<longrightarrow> s3 ! i = ?s2 ! i"
      have "s3 ! length s = mk y" using s3(2) by (simp add: nth_append)
      moreover have "val s3 y = Some w"
      proof (rule lives_inD [OF y(2)])
        show "length (?s1 @ t) \<le> length s3" using s3(1) by simp
        show "s3 ! i = (?s1 @ t) ! i" if "length ?s1 \<le> i" "i < length (?s1 @ t)" for i
          using that s3(2) by (auto simp: nth_append nth_Cons split: nat.split)
      qed
      ultimately show "ref_val prj val s3 (Some (length s)) = Some v"
        using s3(1) a(4) assms by (auto simp: ref_val_Some)
    qed
    with new show ?thesis by blast
  qed
qed

lemma each_copier: "deep_copier (each_val val) (copy_each copy)"
proof
  fix s xs v t
  show "each_val val s xs = Some v \<Longrightarrow> each_val val (s @ t) xs = Some v"
    by (induction xs arbitrary: v) (auto split: option.splits simp: val_extends)
next
  fix s xs v
  show "each_val val s xs = Some v \<Longrightarrow>
    \<exists>ys t. copy_each copy xs s = (ys, s @ t) \<and> lives_in (length s) (s @ t) (each_val val) ys v"
  proof (induction xs arbitrary: s v)
    case Nil
    then show ?case by (auto simp: lives_in_def)
  next
    case (Cons x xs)
    then obtain w ws where w: "val s x = Some w" "each_val val s xs = Some ws" "v = w # ws"
      by (auto split: option.splits)
    obtain y t where y: "copy x s = (y, s @ t)" "lives_in (length s) (s @ t) val y w"
      using copies [OF w(1)] by blast
    have "each_val val (s @ t) xs = Some ws" 
      using w(2) by (induction xs arbitrary: ws) (auto split: option.splits simp: val_extends)
    from Cons.IH [OF this] obtain ys u where ys: "copy_each copy xs (s @ t) = (ys, s @ t @ u)"
      "lives_in (length (s @ t)) (s @ t @ u) (each_val val) ys ws" by auto
    have "lives_in (length s) (s @ t @ u) val y w"
      by (rule lives_in_mono [OF y(2)]) (auto simp: nth_append)
    moreover have "lives_in (length s) (s @ t @ u) (each_val val) ys ws"
      by (rule lives_in_mono [OF ys(2)]) auto
    ultimately have "lives_in (length s) (s @ t @ u) (each_val val) (y # ys) v"
      using w(3) unfolding lives_in_def by simp
    with y(1) ys(1) show ?case by auto
  qed
qed

end

text \<open>A struct whose references are in two parts that are copied one after the other.\<close>

locale two_copiers = a: deep_copier va ca + b: deep_copier vb cb
  for va :: "store \<Rightarrow> 'a \<Rightarrow> 'v option" and ca and vb :: "store \<Rightarrow> 'b \<Rightarrow> 'u option" and cb
begin

lemma struct_copier:
  assumes "\<And>x y z. ga (put y z x) = y" "\<And>x y z. gb (put y z x) = z" "\<And>x y z. mk (put y z x) = mk x"
  shows "deep_copier (\<lambda>s x. case va s (ga x) of None \<Rightarrow> None | Some v \<Rightarrow> map_option (mk x v) (vb s (gb x)))
    (\<lambda>x s. case ca (ga x) s of (y, s1) \<Rightarrow> (case cb (gb x) s1 of (z, s2) \<Rightarrow> (put y z x, s2)))"
proof
  fix s x v t
  show "(case va s (ga x) of None \<Rightarrow> None | Some v \<Rightarrow> map_option (mk x v) (vb s (gb x))) = Some v \<Longrightarrow>
    (case va (s @ t) (ga x) of None \<Rightarrow> None | Some v \<Rightarrow> map_option (mk x v) (vb (s @ t) (gb x))) = Some v"
    by (auto split: option.splits) (metis a.val_extends b.val_extends option.distinct(1) option.inject)+
next
  fix s x v
  assume "(case va s (ga x) of None \<Rightarrow> None | Some v \<Rightarrow> map_option (mk x v) (vb s (gb x))) = Some v"
  then obtain p q where p: "va s (ga x) = Some p" and q: "vb s (gb x) = Some q" and v: "v = mk x p q"
    by (auto split: option.splits)
  obtain y t where y: "ca (ga x) s = (y, s @ t)" "lives_in (length s) (s @ t) va y p"
    using a.copies [OF p] by blast
  obtain z u where z: "cb (gb x) (s @ t) = (z, s @ t @ u)" "lives_in (length (s @ t)) (s @ t @ u) vb z q"
    using b.copies [OF b.val_extends [OF q], of t] by auto
  have "lives_in (length s) (s @ t @ u) va y p"
    by (rule lives_in_mono [OF y(2)]) (auto simp: nth_append)
  moreover have "lives_in (length s) (s @ t @ u) vb z q"
    by (rule lives_in_mono [OF z(2)]) auto
  ultimately have "lives_in (length s) (s @ t @ u)
      (\<lambda>s x. case va s (ga x) of None \<Rightarrow> None | Some v \<Rightarrow> map_option (mk x v) (vb s (gb x))) (put y z x) v"
    using v assms unfolding lives_in_def by simp
  with y(1) z(1) show "\<exists>y t. (case ca (ga x) s of (y, s1) \<Rightarrow> (case cb (gb x) s1 of (z, s2) \<Rightarrow> (put y z x, s2))) = (y, s @ t) \<and>
      lives_in (length s) (s @ t) (\<lambda>s x. case va s (ga x) of None \<Rightarrow> None | Some v \<Rightarrow> map_option (mk x v) (vb s (gb x))) y v"
    by auto
qed

end

text \<open>Assignment copies a struct without references.\<close>

definition assign :: "'a \<Rightarrow> store \<Rightarrow> 'a \<times> store" where
  "assign x s = (x, s)"

interpretation plain: deep_copier "\<lambda>_ x. Some x" assign
  by unfold_locales (auto simp: assign_def lives_in_def)

context deep_copier
begin

lemma field_copier:
  assumes "\<And>x y. get (put y x) = y" "\<And>x y. mk (put y x) = mk x"
  shows "deep_copier (\<lambda>s x. map_option (mk x) (val s (get x))) (\<lambda>x s. case copy (get x) s of (y, s1) \<Rightarrow> (put y x, s1))"
proof
  fix s x v t
  show "map_option (mk x) (val s (get x)) = Some v \<Longrightarrow> map_option (mk x) (val (s @ t) (get x)) = Some v"
    using val_extends by auto
  assume "map_option (mk x) (val s (get x)) = Some v"
  then obtain p where p: "val s (get x) = Some p" and v: "v = mk x p" by auto
  obtain y t where y: "copy (get x) s = (y, s @ t)" "lives_in (length s) (s @ t) val y p"
    using copies [OF p] by blast
  have "lives_in (length s) (s @ t) (\<lambda>s x. map_option (mk x) (val s (get x))) (put y x) v"
    using y(2) v assms unfolding lives_in_def by simp
  with y(1) show "\<exists>y t. (case copy (get x) s of (y, s1) \<Rightarrow> (put y x, s1)) = (y, s @ t) \<and>
      lives_in (length s) (s @ t) (\<lambda>s x. map_option (mk x) (val s (get x))) y v" by auto
qed

end

section \<open>The generated methods\<close>

fun credentials_cell :: "cell \<Rightarrow> credentials option" where
  "credentials_cell (CredentialsCell c) = Some c" | "credentials_cell _ = None"
fun chart_cell :: "cell \<Rightarrow> chart_struct option" where
  "chart_cell (ChartCell c) = Some c" | "chart_cell _ = None"
fun details_cell :: "cell \<Rightarrow> detail_struct list option" where
  "details_cell (DetailsCell c) = Some c" | "details_cell _ = None"
fun conditions_cell :: "cell \<Rightarrow> gval option" where
  "conditions_cell (ConditionsCell c) = Some c" | "conditions_cell _ = None"
fun labels_cell :: "cell \<Rightarrow> (string, string) fmap option" where
  "labels_cell (LabelsCell c) = Some c" | "labels_cell _ = None"
fun detail_cell :: "cell \<Rightarrow> detail_struct option" where
  "detail_cell (DetailCell c) = Some c" | "detail_cell _ = None"
fun managed_cell :: "cell \<Rightarrow> managed_struct option" where
  "managed_cell (ManagedCell c) = Some c" | "managed_cell _ = None"
fun status_cell :: "cell \<Rightarrow> status_struct option" where
  "status_cell (StatusCell c) = Some c" | "status_cell (DefCell d) = Some (df_status d)" | "status_cell _ = None"
fun spec_cell :: "cell \<Rightarrow> spec_struct option" where
  "spec_cell (SpecCell c) = Some c" | "spec_cell _ = None"
fun def_cell :: "cell \<Rightarrow> def_struct option" where
  "def_cell (DefCell c) = Some c" | "def_cell _ = None"
fun defs_cell :: "cell \<Rightarrow> def_struct list option" where
  "defs_cell (DefsCell c) = Some c" | "defs_cell _ = None"
fun count_cell :: "cell \<Rightarrow> int option" where
  "count_cell (CountCell c) = Some c" | "count_cell _ = None"
fun list_cell :: "cell \<Rightarrow> list_struct option" where
  "list_cell (ListCell c) = Some c" | "list_cell _ = None"

text \<open>
  \<open>status_cell\<close> also reads the status inside a definition: \<open>current.Status.DeepCopy()\<close> takes its address.
\<close>

text \<open>Zero values, as \<open>new\<close> and \<open>make\<close> leave them.\<close>

definition zero_secret :: secret_ref where
  "zero_secret = \<lparr>sk_name = '''', sk_namespace = '''', sk_key = ''''\<rparr>"

definition zero_credentials :: credentials where
  "zero_credentials = \<lparr>cr_username = '''', cr_passwordRef = zero_secret\<rparr>"

definition zero_chart :: chart_struct where
  "zero_chart = \<lparr>hc_url = '''', hc_version = '''', hc_repo = '''', hc_insecureSkipVerifyTLS = False, hc_credentials = None\<rparr>"

definition zero_detail :: detail_struct where
  "zero_detail = \<lparr>sd_version = '''', sd_served = False, sd_stored = False, sd_chart = None\<rparr>"

definition zero_managed :: managed_struct where
  "zero_managed = \<lparr>sm_versionInfo = None, sm_group = '''', sm_kind = ''''\<rparr>"

definition zero_status :: status_struct where
  "zero_status = \<lparr>ss_conditions = None, ss_kind = '''', ss_resource = '''', ss_apiVersion = '''',
     ss_managed = zero_managed, ss_packageURL = '''', ss_digest = ''''\<rparr>"

definition zero_def :: def_struct where
  "zero_def = \<lparr>df_meta = \<lparr>me_name = '''', me_namespace = '''', me_deleted = False, me_labels = None\<rparr>,
     df_spec = \<lparr>sp_chart = None\<rparr>, df_status = zero_status\<rparr>"

definition Credentials_DeepCopyInto :: "credentials \<Rightarrow> store \<Rightarrow> credentials \<times> store" where
  "Credentials_DeepCopyInto c s = (c\<lparr>cr_passwordRef := cr_passwordRef c\<rparr>, s)"

definition Credentials_DeepCopy :: "addr option \<Rightarrow> store \<Rightarrow> addr option \<times> store" where
  "Credentials_DeepCopy = new_copy credentials_cell CredentialsCell (\<lambda>_. zero_credentials) Credentials_DeepCopyInto"

definition ChartInfo_DeepCopyInto :: "chart_struct \<Rightarrow> store \<Rightarrow> chart_struct \<times> store" where
  "ChartInfo_DeepCopyInto c s =
     (case new_copy credentials_cell CredentialsCell (\<lambda>_. zero_credentials) assign (hc_credentials c) s of
        (p, s1) \<Rightarrow> (c\<lparr>hc_credentials := p\<rparr>, s1))"

definition ChartInfo_DeepCopy :: "addr option \<Rightarrow> store \<Rightarrow> addr option \<times> store" where
  "ChartInfo_DeepCopy = new_copy chart_cell ChartCell (\<lambda>_. zero_chart) ChartInfo_DeepCopyInto"

definition ChartInfoProps_DeepCopyInto :: "chart_struct \<Rightarrow> store \<Rightarrow> chart_struct \<times> store" where
  "ChartInfoProps_DeepCopyInto c s =
     (case new_copy credentials_cell CredentialsCell (\<lambda>_. zero_credentials) assign (hc_credentials c) s of
        (p, s1) \<Rightarrow> (c\<lparr>hc_credentials := p\<rparr>, s1))"

definition ChartInfoProps_DeepCopy :: "addr option \<Rightarrow> store \<Rightarrow> addr option \<times> store" where
  "ChartInfoProps_DeepCopy = new_copy chart_cell ChartCell (\<lambda>_. zero_chart) ChartInfoProps_DeepCopyInto"

definition VersionDetail_DeepCopyInto :: "detail_struct \<Rightarrow> store \<Rightarrow> detail_struct \<times> store" where
  "VersionDetail_DeepCopyInto d s =
     (case new_copy chart_cell ChartCell (\<lambda>_. zero_chart) ChartInfoProps_DeepCopyInto (sd_chart d) s of
        (p, s1) \<Rightarrow> (d\<lparr>sd_chart := p\<rparr>, s1))"

definition VersionDetail_DeepCopy :: "addr option \<Rightarrow> store \<Rightarrow> addr option \<times> store" where
  "VersionDetail_DeepCopy = new_copy detail_cell DetailCell (\<lambda>_. zero_detail) VersionDetail_DeepCopyInto"

definition Managed_DeepCopyInto :: "managed_struct \<Rightarrow> store \<Rightarrow> managed_struct \<times> store" where
  "Managed_DeepCopyInto m s =
     (case new_copy details_cell DetailsCell (\<lambda>ds. replicate (length ds) zero_detail)
        (copy_each VersionDetail_DeepCopyInto) (sm_versionInfo m) s of
        (p, s1) \<Rightarrow> (m\<lparr>sm_versionInfo := p\<rparr>, s1))"

definition Managed_DeepCopy :: "addr option \<Rightarrow> store \<Rightarrow> addr option \<times> store" where
  "Managed_DeepCopy = new_copy managed_cell ManagedCell (\<lambda>_. zero_managed) Managed_DeepCopyInto"

definition Spec_DeepCopyInto :: "spec_struct \<Rightarrow> store \<Rightarrow> spec_struct \<times> store" where
  "Spec_DeepCopyInto c s =
     (case new_copy chart_cell ChartCell (\<lambda>_. zero_chart) ChartInfo_DeepCopyInto (sp_chart c) s of
        (p, s1) \<Rightarrow> (c\<lparr>sp_chart := p\<rparr>, s1))"

definition Spec_DeepCopy :: "addr option \<Rightarrow> store \<Rightarrow> addr option \<times> store" where
  "Spec_DeepCopy = new_copy spec_cell SpecCell (\<lambda>_. \<lparr>sp_chart = None\<rparr>) Spec_DeepCopyInto"

text \<open>The library's methods of \<open>ConditionedStatus\<close>, \<open>ObjectMeta\<close> and \<open>ListMeta\<close>.\<close>

record copy_lib =
  cl_conditions :: "addr option \<Rightarrow> store \<Rightarrow> addr option \<times> store"
  cl_meta :: "meta_struct \<Rightarrow> store \<Rightarrow> meta_struct \<times> store"
  cl_listMeta :: "listmeta_struct \<Rightarrow> store \<Rightarrow> listmeta_struct \<times> store"

definition Status_DeepCopyInto :: "copy_lib \<Rightarrow> status_struct \<Rightarrow> store \<Rightarrow> status_struct \<times> store" where
  "Status_DeepCopyInto L st s =
     (case cl_conditions L (ss_conditions st) s of (c, s1) \<Rightarrow>
      (case Managed_DeepCopyInto (ss_managed st) s1 of (m, s2) \<Rightarrow>
        (st\<lparr>ss_conditions := c, ss_managed := m\<rparr>, s2)))"

definition Status_DeepCopy :: "copy_lib \<Rightarrow> addr option \<Rightarrow> store \<Rightarrow> addr option \<times> store" where
  "Status_DeepCopy L = new_copy status_cell StatusCell (\<lambda>_. zero_status) (Status_DeepCopyInto L)"

definition CompositionDefinition_DeepCopyInto :: "copy_lib \<Rightarrow> def_struct \<Rightarrow> store \<Rightarrow> def_struct \<times> store" where
  "CompositionDefinition_DeepCopyInto L d s =
     (case cl_meta L (df_meta d) s of (m, s1) \<Rightarrow>
      (case Spec_DeepCopyInto (df_spec d) s1 of (c, s2) \<Rightarrow>
      (case Status_DeepCopyInto L (df_status d) s2 of (st, s3) \<Rightarrow>
        (d\<lparr>df_meta := m, df_spec := c, df_status := st\<rparr>, s3))))"

definition CompositionDefinition_DeepCopy :: "copy_lib \<Rightarrow> addr option \<Rightarrow> store \<Rightarrow> addr option \<times> store" where
  "CompositionDefinition_DeepCopy L = new_copy def_cell DefCell (\<lambda>_. zero_def) (CompositionDefinition_DeepCopyInto L)"

definition CompositionDefinition_DeepCopyObject :: "copy_lib \<Rightarrow> addr option \<Rightarrow> store \<Rightarrow> addr option \<times> store" where
  "CompositionDefinition_DeepCopyObject L p s =
     (case CompositionDefinition_DeepCopy L p s of (Some c, s1) \<Rightarrow> (Some c, s1) | (None, s1) \<Rightarrow> (None, s1))"

definition zero_list :: list_struct where
  "zero_list = \<lparr>ls_meta = \<lparr>lm_resourceVersion = '''', lm_continue = '''', lm_remainingItemCount = None\<rparr>, ls_items = None\<rparr>"

definition List_DeepCopyInto :: "copy_lib \<Rightarrow> list_struct \<Rightarrow> store \<Rightarrow> list_struct \<times> store" where
  "List_DeepCopyInto L l s =
     (case cl_listMeta L (ls_meta l) s of (m, s1) \<Rightarrow>
      (case new_copy defs_cell DefsCell (\<lambda>ds. replicate (length ds) zero_def)
        (copy_each (CompositionDefinition_DeepCopyInto L)) (ls_items l) s1 of (p, s2) \<Rightarrow>
        (l\<lparr>ls_meta := m, ls_items := p\<rparr>, s2)))"

definition List_DeepCopy :: "copy_lib \<Rightarrow> addr option \<Rightarrow> store \<Rightarrow> addr option \<times> store" where
  "List_DeepCopy L = new_copy list_cell ListCell (\<lambda>_. zero_list) (List_DeepCopyInto L)"

definition List_DeepCopyObject :: "copy_lib \<Rightarrow> addr option \<Rightarrow> store \<Rightarrow> addr option \<times> store" where
  "List_DeepCopyObject L p s =
     (case List_DeepCopy L p s of (Some c, s1) \<Rightarrow> (Some c, s1) | (None, s1) \<Rightarrow> (None, s1))"

section \<open>The values they copy\<close>

definition chart_val :: "store \<Rightarrow> chart_struct \<Rightarrow> chart_info option" where
  "chart_val s c = map_option (\<lambda>cr. \<lparr>ci_url = hc_url c, ci_version = hc_version c, ci_repo = hc_repo c,
     ci_insecureSkipVerifyTLS = hc_insecureSkipVerifyTLS c, ci_credentials = cr\<rparr>)
     (ref_val credentials_cell (\<lambda>_. Some) s (hc_credentials c))"

definition detail_val :: "store \<Rightarrow> detail_struct \<Rightarrow> version_detail option" where
  "detail_val s d = map_option (\<lambda>c. \<lparr>vd_version = sd_version d, vd_served = sd_served d, vd_stored = sd_stored d,
     vd_chart = c\<rparr>) (ref_val chart_cell chart_val s (sd_chart d))"

text \<open>A nil slice has no elements.\<close>

definition managed_val :: "store \<Rightarrow> managed_struct \<Rightarrow> managed option" where
  "managed_val s m = map_option (\<lambda>ds. \<lparr>mg_versionInfo = (case ds of None \<Rightarrow> [] | Some l \<Rightarrow> l),
     mg_group = sm_group m, mg_kind = sm_kind m\<rparr>)
     (ref_val details_cell (each_val detail_val) s (sm_versionInfo m))"

definition spec_val :: "store \<Rightarrow> spec_struct \<Rightarrow> chart_info option option" where
  "spec_val s c = map_option (\<lambda>v. v) (ref_val chart_cell chart_val s (sp_chart c))"

definition conditions_val :: "store \<Rightarrow> addr option \<Rightarrow> gval option option" where
  "conditions_val = ref_val conditions_cell (\<lambda>_. Some)"

definition meta_val :: "store \<Rightarrow> meta_struct \<Rightarrow> (string \<times> string \<times> bool \<times> (string, string) fmap option) option" where
  "meta_val s m = map_option (\<lambda>l. (me_name m, me_namespace m, me_deleted m, l))
     (ref_val labels_cell (\<lambda>_. Some) s (me_labels m))"

definition status_val :: "store \<Rightarrow> status_struct \<Rightarrow> cd_status option" where
  "status_val s st = (case conditions_val s (ss_conditions st) of None \<Rightarrow> None
     | Some c \<Rightarrow> map_option (\<lambda>m. \<lparr>cs_conditions = (case c of None \<Rightarrow> GNull | Some g \<Rightarrow> g), cs_kind = ss_kind st,
         cs_resource = ss_resource st, cs_apiVersion = ss_apiVersion st, cs_managed = m,
         cs_packageURL = ss_packageURL st, cs_digest = ss_digest st\<rparr>) (managed_val s (ss_managed st)))"

definition def_val :: "store \<Rightarrow> def_struct \<Rightarrow> comp_def option" where
  "def_val s d = (case meta_val s (df_meta d) of None \<Rightarrow> None
     | Some (n, ns, del, l) \<Rightarrow> (case spec_val s (df_spec d) of None \<Rightarrow> None
     | Some c \<Rightarrow> map_option (\<lambda>st. \<lparr>cd_name = n, cd_namespace = ns, cd_labels = l, cd_deleted = del,
         cd_chart = c, cd_status = st\<rparr>) (status_val s (df_status d))))"

definition listmeta_val :: "store \<Rightarrow> listmeta_struct \<Rightarrow> (string \<times> string \<times> int option) option" where
  "listmeta_val s m = map_option (\<lambda>c. (lm_resourceVersion m, lm_continue m, c))
     (ref_val count_cell (\<lambda>_. Some) s (lm_remainingItemCount m))"

definition list_val :: "store \<Rightarrow> list_struct \<Rightarrow> ((string \<times> string \<times> int option) \<times> comp_def list option) option" where
  "list_val s l = (case listmeta_val s (ls_meta l) of None \<Rightarrow> None
     | Some m \<Rightarrow> map_option (\<lambda>ds. (m, ds)) (ref_val defs_cell (each_val def_val) s (ls_items l)))"

text \<open>What the library documents of its own methods.\<close>

definition library_copies :: "copy_lib \<Rightarrow> bool" where
  "library_copies L \<longleftrightarrow> deep_copier conditions_val (cl_conditions L) \<and> deep_copier meta_val (cl_meta L) \<and>
     deep_copier listmeta_val (cl_listMeta L)"

section \<open>They are copies\<close>

interpretation credentials: deep_copier "\<lambda>_. Some" Credentials_DeepCopyInto
  by unfold_locales (auto simp: Credentials_DeepCopyInto_def lives_in_def)

lemma chart_copier: "deep_copier chart_val ChartInfo_DeepCopyInto" "deep_copier chart_val ChartInfoProps_DeepCopyInto"
proof -
  have "deep_copier (ref_val credentials_cell (\<lambda>_. Some)) (new_copy credentials_cell CredentialsCell (\<lambda>_. zero_credentials) assign)"
    by (rule plain.ref_copier) simp
  note c = deep_copier.field_copier [OF this, of hc_credentials "\<lambda>p c. c\<lparr>hc_credentials := p\<rparr>"
    "\<lambda>c cr. \<lparr>ci_url = hc_url c, ci_version = hc_version c, ci_repo = hc_repo c,
     ci_insecureSkipVerifyTLS = hc_insecureSkipVerifyTLS c, ci_credentials = cr\<rparr>"]
  show "deep_copier chart_val ChartInfo_DeepCopyInto" "deep_copier chart_val ChartInfoProps_DeepCopyInto"
    unfolding chart_val_def [abs_def] ChartInfo_DeepCopyInto_def [abs_def] ChartInfoProps_DeepCopyInto_def [abs_def]
    by (rule c; simp)+
qed

interpretation chart: deep_copier chart_val ChartInfo_DeepCopyInto by (rule chart_copier)
interpretation chart_props: deep_copier chart_val ChartInfoProps_DeepCopyInto by (rule chart_copier)

interpretation detail: deep_copier detail_val VersionDetail_DeepCopyInto
  unfolding detail_val_def [abs_def] VersionDetail_DeepCopyInto_def [abs_def]
  by (rule deep_copier.field_copier [OF chart_props.ref_copier]; simp)

interpretation managed: deep_copier managed_val Managed_DeepCopyInto
  unfolding managed_val_def [abs_def] Managed_DeepCopyInto_def [abs_def]
  by (rule deep_copier.field_copier [OF deep_copier.ref_copier [OF detail.each_copier]]; simp)

interpretation spec: deep_copier spec_val Spec_DeepCopyInto
  unfolding spec_val_def [abs_def] Spec_DeepCopyInto_def [abs_def]
  by (rule deep_copier.field_copier [OF chart.ref_copier]; simp)

lemma status_copier:
  assumes "library_copies L"
  shows "deep_copier status_val (Status_DeepCopyInto L)"
proof -
  have "two_copiers conditions_val (cl_conditions L) managed_val Managed_DeepCopyInto"
    using assms managed.deep_copier_axioms by (simp add: two_copiers_def library_copies_def)
  from two_copiers.struct_copier [OF this, of ss_conditions "\<lambda>c m st. st\<lparr>ss_conditions := c, ss_managed := m\<rparr>" ss_managed
      "\<lambda>st c m. \<lparr>cs_conditions = (case c of None \<Rightarrow> GNull | Some g \<Rightarrow> g), cs_kind = ss_kind st,
         cs_resource = ss_resource st, cs_apiVersion = ss_apiVersion st, cs_managed = m,
         cs_packageURL = ss_packageURL st, cs_digest = ss_digest st\<rparr>"]
  show ?thesis unfolding status_val_def [abs_def] Status_DeepCopyInto_def [abs_def] by simp
qed

lemma def_copier:
  assumes "library_copies L"
  shows "deep_copier def_val (CompositionDefinition_DeepCopyInto L)"
proof -
  let ?v = "\<lambda>s x. case spec_val s (fst x) of None \<Rightarrow> None | Some v \<Rightarrow> map_option (Pair v) (status_val s (snd x))"
  let ?c = "\<lambda>x s. case Spec_DeepCopyInto (fst x) s of (y, s1) \<Rightarrow>
      (case Status_DeepCopyInto L (snd x) s1 of (z, s2) \<Rightarrow> ((y, z), s2))"
  have "two_copiers spec_val Spec_DeepCopyInto status_val (Status_DeepCopyInto L)"
    using status_copier [OF assms] spec.deep_copier_axioms by (simp add: two_copiers_def)
  from two_copiers.struct_copier [OF this, of fst "\<lambda>y z x. (y, z)" snd "\<lambda>_. Pair"]
  have "two_copiers meta_val (cl_meta L) ?v ?c"
    using assms by (simp add: two_copiers_def library_copies_def)
  from two_copiers.struct_copier [OF this, of df_meta "\<lambda>m p d. d\<lparr>df_meta := m, df_spec := fst p, df_status := snd p\<rparr>"
      "\<lambda>d. (df_spec d, df_status d)" "\<lambda>_ m p. \<lparr>cd_name = fst m, cd_namespace = fst (snd m), cd_labels = snd (snd (snd m)),
        cd_deleted = fst (snd (snd m)), cd_chart = fst p, cd_status = snd p\<rparr>"]
  have k: "deep_copier (\<lambda>s d. case meta_val s (df_meta d) of None \<Rightarrow> None | Some m \<Rightarrow> map_option (\<lambda>p.
      \<lparr>cd_name = fst m, cd_namespace = fst (snd m), cd_labels = snd (snd (snd m)),
        cd_deleted = fst (snd (snd m)), cd_chart = fst p, cd_status = snd p\<rparr>) (?v s (df_spec d, df_status d)))
    (\<lambda>d s. case cl_meta L (df_meta d) s of (m, s1) \<Rightarrow> (case ?c (df_spec d, df_status d) s1 of (p, s2) \<Rightarrow>
      (d\<lparr>df_meta := m, df_spec := fst p, df_status := snd p\<rparr>, s2)))" by simp
  have v: "(\<lambda>s d. case meta_val s (df_meta d) of None \<Rightarrow> None | Some m \<Rightarrow> map_option (\<lambda>p.
      \<lparr>cd_name = fst m, cd_namespace = fst (snd m), cd_labels = snd (snd (snd m)),
        cd_deleted = fst (snd (snd m)), cd_chart = fst p, cd_status = snd p\<rparr>) (?v s (df_spec d, df_status d))) = def_val"
    by (auto simp: fun_eq_iff def_val_def option.map_comp comp_def split: option.splits)
  have f: "(\<lambda>d s. case cl_meta L (df_meta d) s of (m, s1) \<Rightarrow> (case ?c (df_spec d, df_status d) s1 of (p, s2) \<Rightarrow>
      (d\<lparr>df_meta := m, df_spec := fst p, df_status := snd p\<rparr>, s2))) = CompositionDefinition_DeepCopyInto L"
    by (auto simp: fun_eq_iff CompositionDefinition_DeepCopyInto_def split: prod.splits)
  show ?thesis by (rule iffD1 [OF arg_cong2 [where f = deep_copier, OF v f] k])
qed

lemma list_copier:
  assumes "library_copies L"
  shows "deep_copier list_val (List_DeepCopyInto L)"
proof -
  have "deep_copier (ref_val defs_cell (each_val def_val)) (new_copy defs_cell DefsCell (\<lambda>ds. replicate (length ds) zero_def)
     (copy_each (CompositionDefinition_DeepCopyInto L)))"
    by (rule deep_copier.ref_copier [OF deep_copier.each_copier [OF def_copier [OF assms]]]) simp
  then have "two_copiers listmeta_val (cl_listMeta L) (ref_val defs_cell (each_val def_val))
      (new_copy defs_cell DefsCell (\<lambda>ds. replicate (length ds) zero_def) (copy_each (CompositionDefinition_DeepCopyInto L)))"
    using assms by (simp add: two_copiers_def library_copies_def)
  from two_copiers.struct_copier [OF this, of ls_meta "\<lambda>m p l. l\<lparr>ls_meta := m, ls_items := p\<rparr>" ls_items "\<lambda>_. Pair"]
  show ?thesis unfolding list_val_def [abs_def] List_DeepCopyInto_def [abs_def] by simp
qed

text \<open>
  C9: Copies of the API types are separate. For a definition anywhere in the store, the copy of its status (which
  the status update compares with what the mutation left), of the whole definition and of its chart (which
  the deployment options carry), and of a list of definitions, stand for the same value; they change no cell; and that value lives in the new
  cells, so nothing written later to the definition or to anything it refers to, arrays of versions and
  charts in them included, shows in the copy, and nothing written to a copy shows in the definition.
\<close>

theorem DeepCopy_separate:
  assumes "library_copies L" and "a < length s" and "s ! a = DefCell d" and "def_val s d = Some c"
  shows "(\<exists>q t. Status_DeepCopy L (Some a) s = (q, s @ t) \<and>
      lives_in (length s) (s @ t) (ref_val status_cell status_val) q (Some (cd_status c))) \<and>
    (\<exists>q t. CompositionDefinition_DeepCopy L (Some a) s = (q, s @ t) \<and>
      lives_in (length s) (s @ t) (ref_val def_cell def_val) q (Some c)) \<and>
    (\<exists>q t. ChartInfo_DeepCopy (sp_chart (df_spec d)) s = (q, s @ t) \<and>
      lives_in (length s) (s @ t) (ref_val chart_cell chart_val) q (cd_chart c)) \<and>
    (\<forall>l v. ref_val list_cell list_val s l = Some v \<longrightarrow> (\<exists>q t. List_DeepCopy L l s = (q, s @ t) \<and>
      lives_in (length s) (s @ t) (ref_val list_cell list_val) q v)) \<and>
    (\<forall>s2. take (length s) s2 = s \<longrightarrow> ref_val def_cell def_val s2 (Some a) = Some (Some c))"
proof -
  obtain st where st: "status_val s (df_status d) = Some st" "cd_status c = st"
    and chart: "ref_val chart_cell chart_val s (sp_chart (df_spec d)) = Some (cd_chart c)"
    using assms(4) by (auto simp: def_val_def spec_val_def option.map_ident split: option.splits)
  have stv: "ref_val status_cell status_val s (Some a) = Some (Some st)"
    and dv: "ref_val def_cell def_val s (Some a) = Some (Some c)"
    using assms(2-4) st by (auto simp: ref_val_Some)
  have copiers: "deep_copier (ref_val status_cell status_val) (Status_DeepCopy L)"
    "deep_copier (ref_val def_cell def_val) (CompositionDefinition_DeepCopy L)"
    "deep_copier (ref_val chart_cell chart_val) ChartInfo_DeepCopy"
    "deep_copier (ref_val list_cell list_val) (List_DeepCopy L)"
    unfolding Status_DeepCopy_def CompositionDefinition_DeepCopy_def ChartInfo_DeepCopy_def List_DeepCopy_def
    using deep_copier.ref_copier [OF status_copier [OF assms(1)]] deep_copier.ref_copier [OF def_copier [OF assms(1)]]
      chart.ref_copier deep_copier.ref_copier [OF list_copier [OF assms(1)]] by simp_all
  show ?thesis
    using deep_copier.copies [OF copiers(1) stv] deep_copier.copies [OF copiers(2) dv] deep_copier.copies [OF copiers(3) chart]
      deep_copier.copies [OF copiers(4)] deep_copier.original_safe [OF copiers(2) dv] st(2) by blast
qed

text \<open>A definition with one recorded version, and the update of that version in place.\<close>

definition sample_copies :: copy_lib where
  "sample_copies = \<lparr>cl_conditions = new_copy conditions_cell ConditionsCell (\<lambda>g. g) assign,
     cl_meta = (\<lambda>m s. case new_copy labels_cell LabelsCell (\<lambda>l. l) assign (me_labels m) s of (p, s1) \<Rightarrow>
       (m\<lparr>me_labels := p\<rparr>, s1)),
     cl_listMeta = (\<lambda>m s. case new_copy count_cell CountCell (\<lambda>_. 0) assign (lm_remainingItemCount m) s of (p, s1) \<Rightarrow>
       (m\<lparr>lm_remainingItemCount := p\<rparr>, s1))\<rparr>"

lemma sample_copies: "library_copies sample_copies"
proof -
  have "deep_copier meta_val (cl_meta sample_copies)"
    unfolding meta_val_def [abs_def] sample_copies_def copy_lib.simps
    by (rule deep_copier.field_copier [OF plain.ref_copier]; simp)
  moreover have "deep_copier listmeta_val (cl_listMeta sample_copies)"
    unfolding listmeta_val_def [abs_def] sample_copies_def copy_lib.simps
    by (rule deep_copier.field_copier [OF plain.ref_copier]; simp)
  ultimately show ?thesis
    by (simp add: library_copies_def sample_copies_def conditions_val_def plain.ref_copier)
qed

definition sample_detail :: "bool \<Rightarrow> detail_struct" where
  "sample_detail stored = \<lparr>sd_version = ''v1-0-0'', sd_served = True, sd_stored = stored, sd_chart = None\<rparr>"

definition sample_struct :: def_struct where
  "sample_struct = zero_def\<lparr>df_status := zero_status\<lparr>ss_managed := zero_managed\<lparr>sm_versionInfo := Some 0\<rparr>\<rparr>\<rparr>"

definition sample_store :: "bool \<Rightarrow> store" where
  "sample_store stored = [DetailsCell [sample_detail stored], DefCell sample_struct]"

definition sample_detail_value :: "bool \<Rightarrow> version_detail" where
  "sample_detail_value stored = \<lparr>vd_version = ''v1-0-0'', vd_served = True, vd_stored = stored, vd_chart = None\<rparr>"

theorem DeepCopy_separate_witness:
  "\<exists>q t. Status_DeepCopy sample_copies (Some 1) (sample_store False) = (q, sample_store False @ t) \<and>
     map_option (map_option (mg_versionInfo \<circ> cs_managed)) (ref_val status_cell status_val (sample_store True @ t) q) =
       Some (Some [sample_detail_value False]) \<and>
     map_option (map_option (mg_versionInfo \<circ> cs_managed)) (ref_val status_cell status_val (sample_store True @ t) (Some 1)) =
       Some (Some [sample_detail_value True])"
proof -
  note defs = sample_store_def sample_struct_def def_val_def meta_val_def ref_val_def spec_val_def status_val_def
    conditions_val_def managed_val_def detail_val_def sample_detail_def zero_def_def zero_status_def zero_managed_def
  obtain c where c: "def_val (sample_store False) sample_struct = Some c"
    and vi: "mg_versionInfo (cs_managed (cd_status c)) = [sample_detail_value False]"
    by (simp add: defs sample_detail_value_def)
  have "1 < length (sample_store False)" "sample_store False ! 1 = DefCell sample_struct"
    by (simp_all add: sample_store_def)
  from DeepCopy_separate [OF sample_copies this c, THEN conjunct1] obtain q t where
    q: "Status_DeepCopy sample_copies (Some 1) (sample_store False) = (q, sample_store False @ t)"
    and live: "lives_in (length (sample_store False)) (sample_store False @ t) (ref_val status_cell status_val) q (Some (cd_status c))"
    by blast
  have "ref_val status_cell status_val (sample_store True @ t) q = Some (Some (cd_status c))"
    by (rule lives_inD [OF live]) (auto simp: sample_store_def nth_Cons split: nat.split)
  moreover have "map_option (map_option (mg_versionInfo \<circ> cs_managed)) (ref_val status_cell status_val (sample_store True @ t) (Some 1)) =
       Some (Some [sample_detail_value True])"
    by (simp add: defs sample_detail_value_def)
  ultimately show ?thesis using q vi by auto
qed

end
