(* ===== verification/Spec2Isabelle.thy ===== *)
theory Spec2Isabelle
  imports Removal Startup Telemetry Archive Copies
begin

text \<open>
  A model of core-provider, the Krateo operator that turns a CompositionDefinition (a reference to a Helm
  chart) into a CustomResourceDefinition for the chart's values and a composition dynamic controller (CDC)
  that serves it.

  \<^bold>\<open>How the program is modelled.\<close> A Go function that calls the outside is a program
  \<open>('w, 'a) prog = 'w \<Rightarrow> 'a outcome \<times> 'w\<close> (theory \<open>Prelude\<close>): it ends with a result, an error or a panic,
  and the state it leaves survives all three. The world (\<open>Runtime\<close>) is the trace of the calls made, an
  abstract environment state \<open>'s\<close>, and the CA bundle in memory. Everything outside the repository, the
  Kubernetes clients, template rendering, JSON and YAML, the CRD generator, chart download, signing
  requests, the file system, the clock, is a field of the records \<open>env\<close> (\<open>Runtime\<close>), \<open>cert_env\<close> (\<open>Certs\<close>),
  \<open>json_env\<close> (\<open>Defaults\<close>), \<open>webhook_env\<close> and \<open>conversion_env\<close> (\<open>Webhooks\<close>), \<open>main_env\<close> (\<open>Startup\<close>). The
  theorems hold for every such environment; what one needs of it is a named hypothesis, shown to be
  satisfiable on the concrete cluster of \<open>Sample\<close>. Errors are the chains of \<open>errors.Is\<close> and \<open>errors.As\<close>;
  durations are integers wrapped to 64 bits where the code computes with them, the hash is a 64-bit word.
  Two judgements carry most proofs: \<open>emits\<close> (every event a program may append to the trace lies in a set,
  whatever the environment answers) and \<open>triple\<close> (what holds after a result and after an error); \<open>yields\<close>
  and \<open>no_panic\<close> say what results look like and that a program does not panic.

  \<^bold>\<open>The parts\<close>, bottom up, with the files below \<open>src/\<close> they model:

  \<^item> \<open>Retry\<close>: \<open>internal/tools/retry\<close>. The retry loop equals a reference that counts the attempts left, runs at
    most the configured number of times, and what a retried operation sends is what its attempts send
    (locale \<open>retried\<close>); the classifiers of all six clients satisfy locale \<open>retry_classifier\<close>.
  \<^item> \<open>Api_Types\<close>, \<open>Copies\<close>: \<open>apis/compositiondefinitions/v1alpha1\<close> and the Kubernetes types in use. Definitions are
    values everywhere but in \<open>Copies\<close>, which lays them out with pointers and shared arrays and shows of the
    generated \<open>DeepCopy\<close> methods (locale \<open>deep_copier\<close>) that a copy has the value of its original and shares
    nothing with it, so that comparing a mutated status with its copy, as the retried update does, compares values.
  \<^item> \<open>Kube_Client\<close>, \<open>Watcher\<close>, \<open>Objects\<close>, \<open>Deployment\<close>, \<open>Hasher\<close>, \<open>Paths\<close>, \<open>Base64\<close>: \<open>internal/tools/kube\<close>,
    \<open>kube/watcher\<close>, \<open>objects\<close>, \<open>deployment\<close>, \<open>hash\<close>, and the parts of the standard library they need. The
    watch is a step relation over all interleavings of server, goroutine, deadline and select, and the
    function the other parts call is proved to be one of its runs.
  \<^item> \<open>Generation\<close>, \<open>Crd\<close>: \<open>internal/tools/crd\<close>. Generated CRDs, their version lists and status schemas, and
    the upsert \<open>ApplyOrUpdateCRD\<close>, which never drops a version.
  \<^item> \<open>Views\<close>, \<open>Crd_Settle\<close>: what programs do to the objects the server stores, seen through a view of its state
    (\<open>quiet\<close>, \<open>keeps\<close>); with it, what an upsert leaves stored, that it settles, and that the certificate manager,
    which writes CRDs as well, keeps their versions and names.
  \<^item> \<open>Deploy\<close>, \<open>Bundle\<close>, \<open>Convergence\<close>: \<open>internal/tools/deploy\<close>. Deploying, looking up and removing the CDC
    bundle (service account, roles and bindings, config maps, deployment, service). \<open>Bundle\<close> shows that
    \<open>Deploy\<close> and \<open>Lookup\<close> are loops over one list of items; \<open>Convergence\<close> that the digest \<open>Lookup\<close> computes
    after a real \<open>Deploy\<close> is the digest \<open>Deploy\<close> returned.
  \<^item> \<open>Tgzfs\<close>, \<open>Chart\<close>, \<open>Archive\<close>: \<open>internal/tools/tgzfs\<close>, \<open>chart\<close>, \<open>chartfs\<close>, \<open>strutil\<close>, \<open>resolvers\<close>, \<open>pluralizer\<close>.
    The file system of a chart archive, with entries shared through a store of nodes, and what is read
    from it. \<open>Archive\<close>: every view of an archive (inductive \<open>archive_view\<close>) is well formed, and which archives
    have the one root directory a chart needs.
  \<^item> \<open>Getters\<close>, \<open>Status\<close>: \<open>helpers/getters\<close>, \<open>helpers/status\<close>. Listing and relabelling compositions, and the
    version list in the status.
  \<^item> \<open>Certs\<close>, \<open>Cert_Interface\<close>, \<open>Cert_Manager\<close>: \<open>internal/tools/certs\<close> and \<open>internal/controllers/certificates\<close>.
    Requesting, renewing and writing the certificate, propagating the CA bundle, the periodic reconciler.
    \<open>Cert_Interface\<close> is \<open>CertManagerInterface\<close> as a record with the laws its clients use (locale
    \<open>cert_interface\<close>), which \<open>Cert_Manager\<close> discharges for the manager.
  \<^item> \<open>Controller\<close>, \<open>Operator\<close>: \<open>compositiondefinitions.go\<close> and \<open>retry.go\<close>. \<open>Controller\<close> defines \<open>Observe\<close>,
    \<open>Create\<close>, \<open>Update\<close>, \<open>Delete\<close> and the retried updates over any certificate interface; \<open>Operator\<close> proves what
    they send, what they leave in the status and in which order they delete. \<open>Steady\<close>, \<open>Reconcile\<close> and
    \<open>Upgrade\<close> follow the chart, the CRD and the bundle through a successful \<open>Create\<close> or \<open>Update\<close> into the next
    \<open>Observe\<close>, which finds nothing to do, on a server for which applying the same object again is idempotent. For
    an update, what \<open>Undeploy\<close> may delete (inductive \<open>undeployed\<close>) and what relabelling writes stay clear of the
    places of the new bundle (\<open>bundle_slots\<close>) and of the CRD. \<open>Removal\<close> follows \<open>Delete\<close> into the next
    \<open>Observe\<close>: the last definition of a kind goes away, one that shares its kind does not.
  \<^item> \<open>Defaults\<close>, \<open>Webhooks\<close>: \<open>webhooks/\<close>. Filling in schema defaults, field by field and in any order; the
    admission and the conversion webhook.
  \<^item> \<open>Telemetry\<close>: \<open>internal/telemetry/webhooks\<close>, \<open>loghandler\<close>, \<open>context\<close>. The metrics both webhooks record, the
    attributes of a log line, the logger of a context.
  \<^item> \<open>Startup\<close>: \<open>main.go\<close>, \<open>options.go\<close> and \<open>Setup\<close>. The check of the flags and the start sequence.

  \<^bold>\<open>Termination and bounds.\<close> Every definition is total: the retry loop by the attempts left, the appending
  of an archive entry by the length of its name, defaulting by the size of the schema, chunked reading by
  what is left of the content. No fuel is used. The reconciler's endless loop is a function of the
  sequence of signals it receives.

  \<^bold>\<open>Not modelled.\<close> The calls of the logger (no effect on decisions); locks of the certificate manager (each
  operation runs alone, as the locks enforce for the generation of certificates); the registration of
  schemes, webhooks and controllers and the scheduling of reconciliations by controller-runtime;
  permissions and times of archive entries; \<open>InferGroupResource\<close>, which nothing calls.
\<close>

end
